theory Spec2Isabelle
  imports Main "HOL-Library.Word"
begin

unbundle bit_operations_syntax

section \<open>JavaScript values used by the calendar feed\<close>

text \<open>
  A property that may be \<^verbatim>\<open>undefined\<close> or \<^verbatim>\<open>null\<close> is an option. In the feed
  endpoint a string is the list of its bytes (tokens are hexadecimal,
  \<^verbatim>\<open>crypto.randomBytes(24).toString('hex')\<close>), so \<^verbatim>\<open>Buffer.from(s)\<close> has one byte per
  character. JavaScript counts the empty string as false: \<^verbatim>\<open>!config.calendarToken\<close> and
  \<^verbatim>\<open>cachedICS && ...\<close> are written with \<open>truthy\<close>.
\<close>

type_synonym byte = "8 word"

definition truthy :: "'a list option \<Rightarrow> bool" where
  "truthy v = (case v of None \<Rightarrow> False | Some s \<Rightarrow> s \<noteq> [])"

text \<open>\<^verbatim>\<open>String(token || '')\<close>\<close>

definition or_empty :: "'a list option \<Rightarrow> 'a list" where
  "or_empty v = (if truthy v then the v else [])"

definition Buffer_from :: "string \<Rightarrow> byte list" where
  "Buffer_from s = map (\<lambda>c. of_nat (of_char c)) s"

datatype js_error = RangeError string | TypeError string | Error string

text \<open>
  \<^verbatim>\<open>crypto.timingSafeEqual(a, b)\<close> of Node.js: it throws a RangeError when the byte lengths
  differ, and otherwise runs OpenSSL's \<^verbatim>\<open>CRYPTO_memcmp\<close>, which ORs together the XOR of every
  pair of bytes and never leaves the loop early.
\<close>

fun CRYPTO_memcmp :: "byte list \<Rightarrow> byte list \<Rightarrow> byte \<Rightarrow> byte" where
  "CRYPTO_memcmp (a # as) (b # bs) x = CRYPTO_memcmp as bs (x OR (a XOR b))"
| "CRYPTO_memcmp _ _ x = x"

definition timingSafeEqual :: "byte list \<Rightarrow> byte list \<Rightarrow> js_error + bool" where
  "timingSafeEqual a b =
     (if length a \<noteq> length b
      then Inl (RangeError ''Input buffers must have the same byte length'')
      else Inr (CRYPTO_memcmp a b 0 = 0))"

section \<open>The feed endpoint: Access Gate and Cache/Freshness Gate\<close>

text \<open>
  The configuration blob, the request, and the process-wide cache
  (\<^verbatim>\<open>let cachedICS = null; let cacheTime = 0;\<close>). \<open>clock\<close> is what \<^verbatim>\<open>Date.now()\<close> returns;
  it is part of the state because the scrape takes minutes and the handler reads the
  clock before it starts.
\<close>

record config =
  calendarToken :: "string option"
  flaresolverrUrl :: "string option"
  appointyEmail :: "string option"
  appointyPassword :: "string option"

record request =
  token :: "string option"
  refresh :: "string option"

record world =
  cachedICS :: "string option"
  cacheTime :: int
  clock :: int

text \<open>
  What awaiting \<^verbatim>\<open>generateICS(await scrape(config), config.calendarName)\<close> gives: after
  \<open>duration\<close> milliseconds either an exception with its message (\<open>Inl\<close>) or the text of the
  calendar document (\<open>Inr\<close>).
\<close>

record upstream =
  duration :: nat
  outcome :: "string + string"

datatype xcache = HIT | MISS | STALE

datatype body = Send string | Json_error string

record response =
  status :: nat
  x_cache :: "xcache option"
  body :: body

text \<open>The calls a request makes to its collaborators, in the order it makes them.\<close>

datatype effect = TimingSafeEqualCall "byte list" "byte list" | UpstreamFetch

definition CACHE_TTL :: int where
  "CACHE_TTL = 15 * 60 * 1000"

datatype gate = NotConfigured | InvalidToken | Accepted | Threw js_error

text \<open>
  api/calendar.js:
  \<^verbatim>\<open>
  if (!config.calendarToken) return res.status(500).json({ error: 'Not configured. Visit /api/admin' });
  const expected = Buffer.from(config.calendarToken);
  const provided = Buffer.from(String(token || ''));
  if (expected.length !== provided.length || !crypto.timingSafeEqual(expected, provided))
    return res.status(403).json({ error: 'Invalid token' });
  \<close>
  \<^verbatim>\<open>||\<close> evaluates its right operand only when the left one is false.
\<close>

definition access_gate_api :: "config \<Rightarrow> request \<Rightarrow> gate \<times> effect list" where
  "access_gate_api cfg req =
     (if \<not> truthy (calendarToken cfg) then (NotConfigured, [])
      else
        let expected = Buffer_from (the (calendarToken cfg));
            provided = Buffer_from (or_empty (token req))
        in if length expected \<noteq> length provided then (InvalidToken, [])
           else (case timingSafeEqual expected provided of
                   Inl e \<Rightarrow> (Threw e, [TimingSafeEqualCall expected provided])
                 | Inr eq \<Rightarrow> (if \<not> eq then InvalidToken else Accepted,
                              [TimingSafeEqualCall expected provided])))"

text \<open>
  src/server.js:
  \<^verbatim>\<open>
  if (!config.calendarToken || req.params.token !== config.calendarToken)
    return res.status(403).send('Invalid token');
  \<close>
\<close>

definition access_gate_server :: "config \<Rightarrow> request \<Rightarrow> gate \<times> effect list" where
  "access_gate_server cfg req =
     (if \<not> truthy (calendarToken cfg) \<or> token req \<noteq> calendarToken cfg then (InvalidToken, [])
      else (Accepted, []))"

text \<open>
  The part both handlers share word for word:
  \<^verbatim>\<open>
  const now = Date.now();
  const forceRefresh = req.query.refresh === 'true';
  if (!forceRefresh && cachedICS && (now - cacheTime) < CACHE_TTL) { ... 'HIT' ... }
  \<close>
\<close>

definition forceRefresh :: "request \<Rightarrow> bool" where
  "forceRefresh req = (refresh req = Some ''true'')"

definition cache_hit :: "request \<Rightarrow> world \<Rightarrow> bool" where
  "cache_hit req w =
     (\<not> forceRefresh req \<and> truthy (cachedICS w) \<and> clock w - cacheTime w < CACHE_TTL)"

definition hit_response :: "world \<Rightarrow> response" where
  "hit_response w = \<lparr>status = 200, x_cache = Some HIT, body = Send (the (cachedICS w))\<rparr>"

text \<open>
  The \<^verbatim>\<open>catch (error)\<close> block: the previous document marked STALE if there is one, else
  status 500 with the body \<open>err\<close> (each handler words it its own way).
\<close>

definition on_error :: "body \<Rightarrow> world \<Rightarrow> response" where
  "on_error err w =
     (if truthy (cachedICS w)
      then \<lparr>status = 200, x_cache = Some STALE, body = Send (the (cachedICS w))\<rparr>
      else \<lparr>status = 500, x_cache = None, body = err\<rparr>)"

text \<open>
  The \<^verbatim>\<open>try\<close> block once the scrape has been started: the clock moves on while the
  handler waits; on success the document is stored with the \<open>now\<close> read at arrival.
\<close>

definition regenerate :: "(string \<Rightarrow> body) \<Rightarrow> int \<Rightarrow> upstream \<Rightarrow> world \<Rightarrow> response \<times> world" where
  "regenerate wording now up w =
     (let w1 = w\<lparr>clock := clock w + int (duration up)\<rparr>
      in case outcome up of
           Inr ics \<Rightarrow>
             (\<lparr>status = 200, x_cache = Some MISS, body = Send ics\<rparr>,
              w1\<lparr>cachedICS := Some ics, cacheTime := now\<rparr>)
         | Inl msg \<Rightarrow> (on_error (wording msg) w1, w1))"

text \<open>
  The handler of api/calendar.js. Inside \<^verbatim>\<open>try\<close> two guards throw before anything is
  fetched:
  \<^verbatim>\<open>
  if (!config.flaresolverrUrl) throw new Error('FlareSolverr URL not configured. Visit /api/admin');
  if (!config.appointyEmail || !config.appointyPassword) throw new Error('Appointy credentials not configured');
  \<close>
\<close>

definition handler_api ::
  "config \<Rightarrow> request \<Rightarrow> upstream \<Rightarrow> world \<Rightarrow> (js_error + response) \<times> world \<times> effect list" where
  "handler_api cfg req up w =
     (case access_gate_api cfg req of
        (Accepted, tr) \<Rightarrow>
          let now = clock w in
          if cache_hit req w then (Inr (hit_response w), w, tr)
          else if \<not> truthy (flaresolverrUrl cfg)
            then (Inr (on_error (Json_error ''FlareSolverr URL not configured. Visit /api/admin'') w), w, tr)
          else if \<not> truthy (appointyEmail cfg) \<or> \<not> truthy (appointyPassword cfg)
            then (Inr (on_error (Json_error ''Appointy credentials not configured'') w), w, tr)
          else (case regenerate Json_error now up w of
                  (r, w') \<Rightarrow> (Inr r, w', tr @ [UpstreamFetch]))
      | (NotConfigured, tr) \<Rightarrow>
          (Inr \<lparr>status = 500, x_cache = None,
                body = Json_error ''Not configured. Visit /api/admin''\<rparr>, w, tr)
      | (InvalidToken, tr) \<Rightarrow>
          (Inr \<lparr>status = 403, x_cache = None, body = Json_error ''Invalid token''\<rparr>, w, tr)
      | (Threw e, tr) \<Rightarrow> (Inl e, w, tr))"

text \<open>
  The handler of src/server.js (\<^verbatim>\<open>GET /calendar/:token\<close>); its error body is
  \<^verbatim>\<open>'Error fetching appointments: ' + error.message\<close>.
\<close>

definition handler_server ::
  "config \<Rightarrow> request \<Rightarrow> upstream \<Rightarrow> world \<Rightarrow> (js_error + response) \<times> world \<times> effect list" where
  "handler_server cfg req up w =
     (case access_gate_server cfg req of
        (Accepted, tr) \<Rightarrow>
          let now = clock w in
          if cache_hit req w then (Inr (hit_response w), w, tr)
          else (case regenerate (\<lambda>msg. Send (''Error fetching appointments: '' @ msg)) now up w of
                  (r, w') \<Rightarrow> (Inr r, w', tr @ [UpstreamFetch]))
      | (_, tr) \<Rightarrow>
          (Inr \<lparr>status = 403, x_cache = None, body = Send ''Invalid token''\<rparr>, w, tr))"


section \<open>Strings and regular expressions of the JavaScript runtime\<close>

text \<open>
  The text of a page, and every string made from it, is a JavaScript string: a list of
  UTF-16 code units. \<open>js\<close> writes a string of the source whose characters are all below
  U+0100, one code unit for each character.
\<close>

type_synonym code_unit = "16 word"

type_synonym jsstring = "code_unit list"

definition cu :: "char \<Rightarrow> code_unit" where
  "cu c = of_nat (of_char c)"

definition js :: "string \<Rightarrow> jsstring" where
  "js s = map cu s"

text \<open>
  The character classes \<^verbatim>\<open>\d\<close> (0 to 9), \<^verbatim>\<open>\w\<close> (A to Z, a to z, 0 to 9 and the underscore)
  and \<^verbatim>\<open>\s\<close>. The latter is the WhiteSpace and LineTerminator of ECMAScript: TAB, LF, VT, FF,
  CR, SP, NBSP, U+1680, U+2000 to U+200A, U+2028, U+2029, U+202F, U+205F, U+3000 and U+FEFF;
  \<^verbatim>\<open>trim()\<close> and \<^verbatim>\<open>parseInt\<close> strip the same set.
\<close>

definition digit :: "code_unit \<Rightarrow> bool" where
  "digit c = (0x30 \<le> c \<and> c \<le> 0x39)"

definition wordc :: "code_unit \<Rightarrow> bool" where
  "wordc c = (digit c \<or> (0x41 \<le> c \<and> c \<le> 0x5A) \<or> (0x61 \<le> c \<and> c \<le> 0x7A) \<or> c = 0x5F)"

definition space :: "code_unit \<Rightarrow> bool" where
  "space c =
     (c \<in> set [0x09, 0x0A, 0x0B, 0x0C, 0x0D, 0x20, 0xA0, 0x1680, 0x2028, 0x2029, 0x202F,
                0x205F, 0x3000, 0xFEFF] \<or>
      (0x2000 \<le> c \<and> c \<le> 0x200A))"

text \<open>
  The case of the letters A to Z. \<^verbatim>\<open>toUpperCase()\<close> and \<^verbatim>\<open>toLowerCase()\<close> are written for these
  letters and leave every other code unit as it is. The code only compares their results
  with \<^verbatim>\<open>'AM'\<close> and \<^verbatim>\<open>'PM'\<close> and looks them up among the twelve lower-case month names, and
  in the Unicode case mappings no character outside ASCII has an upper case made of the
  letters A, M and P or a lower case made of the letters of a month name, so these
  comparisons come out as in JavaScript. Under the flag \<^verbatim>\<open>i\<close> a pattern character from A to Z
  or a to z matches the two code units of that letter and no other (a code unit from
  U+0080 on is never folded to one below).
\<close>

definition upper_char :: "code_unit \<Rightarrow> code_unit" where
  "upper_char c = (if 0x61 \<le> c \<and> c \<le> 0x7A then c - 0x20 else c)"

definition lower_char :: "code_unit \<Rightarrow> code_unit" where
  "lower_char c = (if 0x41 \<le> c \<and> c \<le> 0x5A then c + 0x20 else c)"

definition toUpperCase :: "jsstring \<Rightarrow> jsstring" where
  "toUpperCase s = map upper_char s"

definition toLowerCase :: "jsstring \<Rightarrow> jsstring" where
  "toLowerCase s = map lower_char s"

definition trim :: "jsstring \<Rightarrow> jsstring" where
  "trim s = rev (dropWhile space (rev (dropWhile space s)))"

text \<open>
  \<^verbatim>\<open>parseInt\<close> on a decimal string: leading white space, a sign, then the longest run of
  digits; \<open>None\<close> is NaN. (Every string the code hands to \<^verbatim>\<open>parseInt\<close> was captured by
  \<^verbatim>\<open>\d\<close> groups, so the prefix \<^verbatim>\<open>0x\<close> is left out.) A number is an integer or NaN.
\<close>

type_synonym number = "int option"

definition digit_value :: "code_unit \<Rightarrow> int" where
  "digit_value c = uint c - 48"

definition decimal :: "jsstring \<Rightarrow> int" where
  "decimal ds = foldl (\<lambda>a c. 10 * a + digit_value c) 0 ds"

definition parseInt :: "jsstring \<Rightarrow> number" where
  "parseInt s =
     (let t = dropWhile space s;
          neg = (t \<noteq> [] \<and> hd t = cu CHR ''-'');
          u = (if t \<noteq> [] \<and> (hd t = cu CHR ''-'' \<or> hd t = cu CHR ''+'') then tl t else t);
          ds = takeWhile digit u
      in if ds = [] then None else Some (if neg then - decimal ds else decimal ds))"

text \<open>\<^verbatim>\<open>parseInt(m[k])\<close> of a group that did not take part is \<^verbatim>\<open>parseInt("undefined")\<close>.\<close>

definition parseInt_group :: "jsstring option \<Rightarrow> number" where
  "parseInt_group g = (case g of None \<Rightarrow> None | Some s \<Rightarrow> parseInt s)"

text \<open>
  Regular expressions, matched the way ECMAScript prescribes: a backtracking search that
  tries alternatives from the left, lets a greedy quantifier take as much as it can before
  it gives back, refuses an iteration that consumed nothing, and records what each
  capturing group consumed. \<open>bt r s c k\<close> matches \<open>r\<close> at the head of \<open>s\<close> with the captures
  \<open>c\<close> so far and hands the rest of the string to the continuation \<open>k\<close>.
\<close>

datatype regex =
    Chr "code_unit \<Rightarrow> bool"
  | Eps
  | Seq regex regex
  | Alt regex regex
  | Opt regex
  | Star regex
  | LazyStar regex
  | Group nat regex

type_synonym captures = "nat \<Rightarrow> jsstring option"

fun bt :: "regex \<Rightarrow> jsstring \<Rightarrow> captures \<Rightarrow>
           (jsstring \<Rightarrow> captures \<Rightarrow> (jsstring \<times> captures) option) \<Rightarrow> (jsstring \<times> captures) option" where
  "bt (Chr p) s c k = (case s of [] \<Rightarrow> None | x # xs \<Rightarrow> if p x then k xs c else None)"
| "bt Eps s c k = k s c"
| "bt (Seq a b) s c k = bt a s c (\<lambda>s' c'. bt b s' c' k)"
| "bt (Alt a b) s c k = (case bt a s c k of Some r \<Rightarrow> Some r | None \<Rightarrow> bt b s c k)"
| "bt (Opt a) s c k =
     (case bt a s c (\<lambda>s' c'. if length s' < length s then k s' c' else None) of
        Some r \<Rightarrow> Some r
      | None \<Rightarrow> k s c)"
| "bt (Star a) s c k =
     (case bt a s c (\<lambda>s' c'. if length s' < length s then bt (Star a) s' c' k else None) of
        Some r \<Rightarrow> Some r
      | None \<Rightarrow> k s c)"
| "bt (LazyStar a) s c k =
     (case k s c of
        Some r \<Rightarrow> Some r
      | None \<Rightarrow>
          bt a s c (\<lambda>s' c'. if length s' < length s then bt (LazyStar a) s' c' k else None))"
| "bt (Group n a) s c k =
     bt a s c (\<lambda>s' c'. k s' (c'(n \<mapsto> take (length s - length s') s)))"

text \<open>
  The match object: \<open>index\<close>, the matched text \<^verbatim>\<open>m[0]\<close> and the groups \<^verbatim>\<open>m[1]\<close>, ...
  \<open>search\<close> tries every start position from the left; \<open>exec\<close> is \<^verbatim>\<open>str.match(re)\<close> and
  \<^verbatim>\<open>re.exec(str)\<close> from \<^verbatim>\<open>lastIndex = 0\<close>.
\<close>

record rmatch =
  index :: nat
  whole :: jsstring
  cap :: captures

fun search :: "regex \<Rightarrow> jsstring \<Rightarrow> nat \<Rightarrow> rmatch option" where
  "search r s i =
     (case bt r s (\<lambda>_. None) (\<lambda>s' c. Some (s', c)) of
        Some (s', c) \<Rightarrow> Some \<lparr>index = i, whole = take (length s - length s') s, cap = c\<rparr>
      | None \<Rightarrow> (case s of [] \<Rightarrow> None | _ # xs \<Rightarrow> search r xs (Suc i)))"

definition exec :: "regex \<Rightarrow> jsstring \<Rightarrow> rmatch option" where
  "exec r s = search r s 0"

text \<open>
  All matches under the flag \<^verbatim>\<open>g\<close> (\<^verbatim>\<open>matchAll\<close>, \<^verbatim>\<open>match\<close>, a \<^verbatim>\<open>while (exec)\<close> loop,
  \<^verbatim>\<open>replace\<close>): the search resumes where the last match ended. \<open>s\<close> is the text from
  offset \<open>i\<close> on. None of the patterns below matches the empty string; a match that
  consumed nothing ends the list.
\<close>

function all_matches :: "regex \<Rightarrow> jsstring \<Rightarrow> nat \<Rightarrow> rmatch list" where
  "all_matches r s i =
     (case search r s i of
        None \<Rightarrow> []
      | Some m \<Rightarrow>
          let adv = index m - i + length (whole m)
          in if 0 < adv \<and> adv \<le> length s then m # all_matches r (drop adv s) (i + adv)
             else [m])"
  by pat_completeness auto
termination
proof (relation "measure (\<lambda>(r, s, i). length s)")
  fix r :: regex and s :: jsstring and i :: nat and m :: rmatch and adv :: nat
  assume "0 < adv \<and> adv \<le> length s"
  then have "length s - adv < length s" by arith
  then show "((r, drop adv s, i + adv), (r, s, i)) \<in> measure (\<lambda>(r, s, i). length s)"
    by simp
qed simp

text \<open>\<^verbatim>\<open>s.replace(re, by)\<close> with the flag \<^verbatim>\<open>g\<close> and a fixed replacement.\<close>

fun splice :: "jsstring \<Rightarrow> nat \<Rightarrow> rmatch list \<Rightarrow> jsstring \<Rightarrow> jsstring" where
  "splice s pos [] by = drop pos s"
| "splice s pos (m # ms) by =
     take (index m - pos) (drop pos s) @ by @ splice s (index m + length (whole m)) ms by"

definition replace_all :: "regex \<Rightarrow> jsstring \<Rightarrow> jsstring \<Rightarrow> jsstring" where
  "replace_all r by s = splice s 0 (all_matches r s 0) by"

text \<open>Building blocks: a literal, a literal under \<^verbatim>\<open>i\<close>, \<^verbatim>\<open>r+\<close>, and a sequence.\<close>

definition lit :: "char \<Rightarrow> regex" where
  "lit x = Chr (\<lambda>c. c = cu x)"

definition lit_i :: "char \<Rightarrow> regex" where
  "lit_i x = Chr (\<lambda>c. upper_char c = upper_char (cu x))"

fun seqs :: "regex list \<Rightarrow> regex" where
  "seqs [] = Eps"
| "seqs [r] = r"
| "seqs (r # rs) = Seq r (seqs rs)"

definition str :: "string \<Rightarrow> regex" where
  "str s = seqs (map lit s)"

definition str_i :: "string \<Rightarrow> regex" where
  "str_i s = seqs (map lit_i s)"

definition Plus :: "regex \<Rightarrow> regex" where
  "Plus r = Seq r (Star r)"

definition d12 :: regex where "d12 = Seq (Chr digit) (Opt (Chr digit))"
definition d2 :: regex where "d2 = Seq (Chr digit) (Chr digit)"
definition d4 :: regex where "d4 = Seq d2 d2"
definition d24 :: regex where "d24 = Seq d2 (Opt (Seq (Chr digit) (Opt (Chr digit))))"
definition sep :: regex where "sep = Chr (\<lambda>c. c = cu CHR ''/'' \<or> c = cu CHR ''-'')"
definition AM_PM :: regex where "AM_PM = Alt (str_i ''AM'') (str_i ''PM'')"

section \<open>Dates\<close>

text \<open>
  A \<^verbatim>\<open>Date\<close> holds a time value, the milliseconds since 1970-01-01T00:00Z, or NaN
  (\<open>Invalid_Date\<close>). The functions are those of the ECMAScript specification. The years
  read from a page have at most four digits, so time values stay far inside the range of
  \<^verbatim>\<open>Date\<close> and \<^verbatim>\<open>TimeClip\<close> is left out.
\<close>

datatype jsdate = Invalid_Date | Date int

definition msPerDay :: int where "msPerDay = 86400000"

definition Day :: "int \<Rightarrow> int" where "Day t = t div msPerDay"

definition TimeWithinDay :: "int \<Rightarrow> int" where "TimeWithinDay t = t mod msPerDay"

definition MakeTime :: "int \<Rightarrow> int \<Rightarrow> int \<Rightarrow> int \<Rightarrow> int" where
  "MakeTime h m s ms = h * 3600000 + m * 60000 + s * 1000 + ms"

definition MakeDate :: "int \<Rightarrow> int \<Rightarrow> int" where
  "MakeDate day time = day * msPerDay + time"

text \<open>
  The time zone of the process, as the specification has it in \<^verbatim>\<open>LocalTZA(t, isUTC)\<close>: the
  offset from UTC in milliseconds that is in force at the UTC time \<open>t\<close> (\<open>offset_utc\<close>), and
  the offset by which the local time \<open>t\<close> is read (\<open>offset_local\<close>; for a local time that a
  change to daylight saving skips or repeats, the offset from before the change). Both are
  parameters: they are constant in a zone without daylight saving, and differ around every
  change in one that has it.
\<close>

record zone =
  offset_utc :: "int \<Rightarrow> int"
  offset_local :: "int \<Rightarrow> int"

definition LocalTime :: "zone \<Rightarrow> int \<Rightarrow> int" where "LocalTime tz t = t + offset_utc tz t"

definition UTC :: "zone \<Rightarrow> int \<Rightarrow> int" where "UTC tz t = t - offset_local tz t"

text \<open>Universal time, where Vercel and the Docker image run.\<close>

definition Etc_UTC :: zone where
  "Etc_UTC = \<lparr>offset_utc = (\<lambda>t. 0), offset_local = (\<lambda>t. 0)\<rparr>"

definition HourFromTime :: "int \<Rightarrow> int" where "HourFromTime t = (t div 3600000) mod 24"

definition MinFromTime :: "int \<Rightarrow> int" where "MinFromTime t = (t div 60000) mod 60"

definition SecFromTime :: "int \<Rightarrow> int" where "SecFromTime t = (t div 1000) mod 60"

definition msFromTime :: "int \<Rightarrow> int" where "msFromTime t = t mod 1000"

text \<open>
  The number of the day on which month \<open>m\<close> (1 to 12) of year \<open>y\<close> has its \<open>d\<close>-th day,
  and back, in the proleptic Gregorian calendar.
\<close>

definition days_from_civil :: "int \<Rightarrow> int \<Rightarrow> int \<Rightarrow> int" where
  "days_from_civil y m d =
     (let y' = (if m \<le> 2 then y - 1 else y);
          era = y' div 400;
          yoe = y' - era * 400;
          doy = (153 * (if m > 2 then m - 3 else m + 9) + 2) div 5 + d - 1;
          doe = yoe * 365 + yoe div 4 - yoe div 100 + doy
      in era * 146097 + doe - 719468)"

definition civil_from_days :: "int \<Rightarrow> int \<times> int \<times> int" where
  "civil_from_days z0 =
     (let z = z0 + 719468;
          era = z div 146097;
          doe = z - era * 146097;
          yoe = (doe - doe div 1460 + doe div 36524 - doe div 146096) div 365;
          doy = doe - (365 * yoe + yoe div 4 - yoe div 100);
          mp = (5 * doy + 2) div 153;
          d = doy - (153 * mp + 2) div 5 + 1;
          m = (if mp < 10 then mp + 3 else mp - 9)
      in ((if m \<le> 2 then yoe + era * 400 + 1 else yoe + era * 400), m, d))"

text \<open>\<^verbatim>\<open>MakeDay(year, month, date)\<close>, months counted from 0 and allowed to overflow.\<close>

definition MakeDay :: "int \<Rightarrow> int \<Rightarrow> int \<Rightarrow> int" where
  "MakeDay year month date = days_from_civil (year + month div 12) (month mod 12 + 1) 1 + date - 1"

text \<open>
  \<^verbatim>\<open>new Date(year, monthIndex, day, hours, minutes, 0, 0)\<close>, read in local time; a year
  from 0 to 99 means 1900 + year.
\<close>

definition new_Date_fields :: "zone \<Rightarrow> number \<Rightarrow> number \<Rightarrow> number \<Rightarrow> number \<Rightarrow> number \<Rightarrow> jsdate" where
  "new_Date_fields tz year month day hours minutes =
     (case (year, month, day, hours, minutes) of
        (Some y, Some m, Some d, Some h, Some mi) \<Rightarrow>
          let yr = (if 0 \<le> y \<and> y \<le> 99 then 1900 + y else y)
          in Date (UTC tz (MakeDate (MakeDay yr m d) (MakeTime h mi 0 0)))
      | _ \<Rightarrow> Invalid_Date)"

text \<open>\<^verbatim>\<open>d.setHours(hours, minutes, 0, 0)\<close>: the local day of \<open>d\<close> at that time of day.\<close>

definition setHours :: "zone \<Rightarrow> jsdate \<Rightarrow> number \<Rightarrow> number \<Rightarrow> jsdate" where
  "setHours tz d hours minutes =
     (case (d, hours, minutes) of
        (Date t, Some h, Some m) \<Rightarrow>
          Date (UTC tz (MakeDate (Day (LocalTime tz t)) (MakeTime h m 0 0)))
      | _ \<Rightarrow> Invalid_Date)"

text \<open>\<^verbatim>\<open>getTime()\<close>, \<^verbatim>\<open>new Date(number)\<close>, and the local \<^verbatim>\<open>getHours()\<close>, \<^verbatim>\<open>getMinutes()\<close>.\<close>

definition getTime :: "jsdate \<Rightarrow> number" where
  "getTime d = (case d of Date t \<Rightarrow> Some t | Invalid_Date \<Rightarrow> None)"

definition new_Date_number :: "number \<Rightarrow> jsdate" where
  "new_Date_number n = (case n of Some t \<Rightarrow> Date t | None \<Rightarrow> Invalid_Date)"

definition getHours :: "zone \<Rightarrow> jsdate \<Rightarrow> number" where
  "getHours tz d = map_option (\<lambda>t. HourFromTime (LocalTime tz t)) (getTime d)"

definition getMinutes :: "zone \<Rightarrow> jsdate \<Rightarrow> number" where
  "getMinutes tz d = map_option (\<lambda>t. MinFromTime (LocalTime tz t)) (getTime d)"

definition getSeconds :: "zone \<Rightarrow> jsdate \<Rightarrow> number" where
  "getSeconds tz d = map_option (\<lambda>t. SecFromTime (LocalTime tz t)) (getTime d)"

definition getMilliseconds :: "zone \<Rightarrow> jsdate \<Rightarrow> number" where
  "getMilliseconds tz d = map_option (\<lambda>t. msFromTime (LocalTime tz t)) (getTime d)"

text \<open>The local calendar day of a date, as (year, month from 1, day of the month).\<close>

definition local_day :: "zone \<Rightarrow> jsdate \<Rightarrow> (int \<times> int \<times> int) option" where
  "local_day tz d = map_option (\<lambda>t. civil_from_days (Day (LocalTime tz t))) (getTime d)"

text \<open>
  \<^verbatim>\<open>toISOString()\<close>: \<^verbatim>\<open>YYYY-MM-DDTHH:mm:ss.sssZ\<close> in UTC, with a signed year of six digits
  outside 0 to 9999; it throws a RangeError on an invalid date.
\<close>

definition digit_char :: "int \<Rightarrow> char" where
  "digit_char n = char_of (nat (48 + n mod 10))"

definition pad2 :: "int \<Rightarrow> string" where
  "pad2 n = [digit_char (n div 10), digit_char n]"

definition pad3 :: "int \<Rightarrow> string" where
  "pad3 n = digit_char (n div 100) # pad2 n"

definition pad4 :: "int \<Rightarrow> string" where
  "pad4 n = pad2 (n div 100) @ pad2 n"

definition pad6 :: "int \<Rightarrow> string" where
  "pad6 n = pad2 (n div 10000) @ pad4 n"

definition iso_year :: "int \<Rightarrow> string" where
  "iso_year y =
     (if 0 \<le> y \<and> y \<le> 9999 then pad4 y
      else if y < 0 then CHR ''-'' # pad6 (- y)
      else CHR ''+'' # pad6 y)"

definition toISOString :: "jsdate \<Rightarrow> js_error + jsstring" where
  "toISOString d =
     (case d of
        Invalid_Date \<Rightarrow> Inl (RangeError ''Invalid time value'')
      | Date t \<Rightarrow>
          (case civil_from_days (Day t) of
             (y, m, dd) \<Rightarrow>
               Inr (js (iso_year y @ ''-'' @ pad2 m @ ''-'' @ pad2 dd @ ''T'' @
                        pad2 (HourFromTime t) @ '':'' @ pad2 (MinFromTime t) @ '':'' @
                        pad2 (SecFromTime t) @ ''.'' @ pad3 (msFromTime t) @ ''Z''))))"

section \<open>Date/Time Normalizer\<close>

text \<open>
  \<^verbatim>\<open>new Date(string)\<close> is the engine's own, lenient parser; it is a parameter \<open>P\<close> of the
  model: \<open>P s\<close> is the time value it reads from \<open>s\<close>, or NaN.
\<close>

type_synonym date_parser = "jsstring \<Rightarrow> number"

text \<open>A group of a match that is known to have taken part.\<close>

definition grp :: "rmatch \<Rightarrow> nat \<Rightarrow> jsstring" where
  "grp m k = (case cap m k of Some s \<Rightarrow> s | None \<Rightarrow> [])"

text \<open>\<^verbatim>\<open>/(\d{1,2})[\/\-](\d{1,2})[\/\-](\d{2,4})/\<close>\<close>

definition slash_re :: regex where
  "slash_re = seqs [Group 1 d12, sep, Group 2 d12, sep, Group 3 d24]"

text \<open>\<^verbatim>\<open>/(\d{1,2}):(\d{2})\s*(AM|PM)?/i\<close>\<close>

definition time_re :: regex where
  "time_re = seqs [Group 1 d12, lit CHR '':'', Group 2 d2, Star (Chr space), Opt (Group 3 AM_PM)]"

text \<open>
  The date of a match, as both parseDate of src/scraper.js and the head of parseAppointment
  of api/calendar.js resolve it: commas out, the general parser first, then the
  decomposition into month, day and year with \<open>20\<close> put before a year of two digits.
  The result is \<open>None\<close> when there is no Date object at all.
\<close>

definition numeric_date :: "zone \<Rightarrow> jsstring \<Rightarrow> jsdate option" where
  "numeric_date tz cleaned =
     (case exec slash_re cleaned of
        None \<Rightarrow> None
      | Some m \<Rightarrow>
          let month = grp m 1; day = grp m 2; year = grp m 3;
              year = (if length year = 2 then js ''20'' @ year else year)
          in Some (new_Date_fields tz (parseInt year) (map_option (\<lambda>n. n - 1) (parseInt month))
                     (parseInt day) (Some 0) (Some 0)))"

text \<open>
  src/scraper.js:
  \<^verbatim>\<open>
  function parseDate(dateStr) {
    const cleaned = dateStr.replace(/,/g, '').trim();
    let date = new Date(cleaned);
    if (!isNaN(date.getTime())) return date;
    const slashMatch = cleaned.match(...);
    if (slashMatch) { ...; return new Date(parseInt(year), parseInt(month) - 1, parseInt(day)); }
    return null;
  }
  \<close>
\<close>

definition parseDate :: "date_parser \<Rightarrow> zone \<Rightarrow> jsstring \<Rightarrow> jsdate option" where
  "parseDate P tz dateStr =
     (let cleaned = trim (filter (\<lambda>c. c \<noteq> cu CHR '','') dateStr);
          date = new_Date_number (P cleaned)
      in if getTime date \<noteq> None then Some date else numeric_date tz cleaned)"

text \<open>
  The conversion to the 24-hour clock, in parseDateTime of src/scraper.js:
  \<^verbatim>\<open>
  if (meridiem) {
    if (meridiem.toUpperCase() === 'PM' && hours !== 12) hours += 12;
    else if (meridiem.toUpperCase() === 'AM' && hours === 12) hours = 0;
  }
  \<close>
\<close>

definition to24 :: "jsstring option \<Rightarrow> number \<Rightarrow> number" where
  "to24 meridiem hours =
     (if truthy meridiem then
        (if toUpperCase (the meridiem) = js ''PM'' \<and> hours \<noteq> Some 12 then map_option (\<lambda>h. h + 12) hours
         else if toUpperCase (the meridiem) = js ''AM'' \<and> hours = Some 12 then Some 0
         else hours)
      else hours)"

text \<open>
  \<^verbatim>\<open>
  function parseDateTime(date, timeStr) {
    if (!date || !timeStr) return null;
    const timeMatch = timeStr.match(/(\d{1,2}):(\d{2})\s*(AM|PM)?/i);
    if (!timeMatch) return null;
    let [, hours, minutes, meridiem] = timeMatch;
    hours = parseInt(hours); minutes = parseInt(minutes);
    ...
    const result = new Date(date);
    result.setHours(hours, minutes, 0, 0);
    return result;
  }
  \<close>
\<close>

definition parseDateTime :: "zone \<Rightarrow> jsdate option \<Rightarrow> jsstring option \<Rightarrow> jsdate option" where
  "parseDateTime tz date timeStr =
     (if date = None \<or> \<not> truthy timeStr then None
      else (case exec time_re (the timeStr) of
              None \<Rightarrow> None
            | Some timeMatch \<Rightarrow>
                let hours = parseInt_group (cap timeMatch 1);
                    minutes = parseInt_group (cap timeMatch 2);
                    meridiem = cap timeMatch 3
                in Some (setHours tz (the date) (to24 meridiem hours) minutes)))"

text \<open>
  The raw record the page hands over, and the appointment. The field \<^verbatim>\<open>end\<close> is called
  \<open>endDate\<close> here; \<open>title_in\<close> and \<open>rawText_in\<close> are \<^verbatim>\<open>rawApt.title\<close> and \<^verbatim>\<open>rawApt.rawText\<close>.
  \<open>description\<close> and \<open>location\<close> are read by src/calendar.js; no parser sets them.
\<close>

record rawApt =
  title_in :: "jsstring option"
  rawText_in :: "jsstring option"
  dateText :: "jsstring option"
  timeText :: "jsstring option"
  startTime :: "jsstring option"
  endTime :: "jsstring option"

record appointment =
  title :: jsstring
  start :: "jsdate option"
  endDate :: "jsdate option"
  rawText :: "jsstring option"
  description :: "jsstring option"
  location :: "jsstring option"

text \<open>
  src/scraper.js:
  \<^verbatim>\<open>
  function parseAppointment(rawApt) {
    const appointment = { title: rawApt.title || 'Mathnasium Session', start: null, end: null,
                          rawText: rawApt.rawText };
    let date = null;
    if (rawApt.dateText) date = parseDate(rawApt.dateText);
    if (date && rawApt.startTime) {
      appointment.start = parseDateTime(date, rawApt.startTime);
      if (rawApt.endTime) appointment.end = parseDateTime(date, rawApt.endTime);
      else appointment.end = new Date(appointment.start.getTime() + 60 * 60 * 1000);
    }
    return appointment;
  }
  \<close>
  \<^verbatim>\<open>appointment.start.getTime()\<close> throws a TypeError when parseDateTime returned null.
\<close>

definition parseAppointment :: "date_parser \<Rightarrow> zone \<Rightarrow> rawApt \<Rightarrow> js_error + appointment" where
  "parseAppointment P tz rawApt =
     (let appointment =
            \<lparr>title = (if truthy (title_in rawApt) then the (title_in rawApt)
                       else js ''Mathnasium Session''),
             start = None, endDate = None, rawText = rawText_in rawApt,
          description = None, location = None\<rparr>;
          date = (if truthy (dateText rawApt) then parseDate P tz (the (dateText rawApt))
                  else None)
      in if date \<noteq> None \<and> truthy (startTime rawApt) then
           (let appointment = appointment\<lparr>start := parseDateTime tz date (startTime rawApt)\<rparr>
            in if truthy (endTime rawApt)
               then Inr (appointment\<lparr>endDate := parseDateTime tz date (endTime rawApt)\<rparr>)
               else (case start appointment of
                       None \<Rightarrow> Inl (TypeError ''Cannot read properties of null'')
                     | Some s \<Rightarrow>
                         Inr (appointment\<lparr>endDate :=
                                Some (new_Date_number
                                        (map_option (\<lambda>t. t + 60 * 60 * 1000) (getTime s)))\<rparr>)))
         else Inr appointment)"

text \<open>
  api/calendar.js. The time pattern
  \<^verbatim>\<open>/(\d{1,2}):(\d{2})\s*(AM|PM)?(?:\s*[-\<endash>to]+\s*(\d{1,2}):(\d{2})\s*(AM|PM)?)?/gi\<close>
  (the en dash of the class is the code unit U+2013), and the pattern of the title
  \<^verbatim>\<open>/(?:session|class|lesson|tutoring)[:\s]+([^<\n]+)/i\<close>.
\<close>

definition range_sep :: regex where
  "range_sep =
     Chr (\<lambda>c. c = cu CHR ''-'' \<or> c = 0x2013 \<or> upper_char c = cu CHR ''T'' \<or>
              upper_char c = cu CHR ''O'')"

definition timePattern :: regex where
  "timePattern =
     seqs [Group 1 d12, lit CHR '':'', Group 2 d2, Star (Chr space), Opt (Group 3 AM_PM),
           Opt (seqs [Star (Chr space), Plus range_sep, Star (Chr space),
                      Group 4 d12, lit CHR '':'', Group 5 d2, Star (Chr space),
                      Opt (Group 6 AM_PM)])]"

definition title_re :: regex where
  "title_re =
     seqs [Alt (str_i ''session'') (Alt (str_i ''class'') (Alt (str_i ''lesson'') (str_i ''tutoring''))),
           Plus (Chr (\<lambda>c. c = cu CHR '':'' \<or> space c)),
           Group 1 (Plus (Chr (\<lambda>c. c \<noteq> cu CHR ''<'' \<and> c \<noteq> 0x0A)))]"

text \<open>
  \<^verbatim>\<open>
  if (startMer?.toUpperCase() === 'PM' && startHour !== 12) startHour += 12;
  if (startMer?.toUpperCase() === 'AM' && startHour === 12) startHour = 0;
  \<close>
  and the same two statements for \<^verbatim>\<open>endMer\<close> and \<^verbatim>\<open>endHour\<close>.
\<close>

definition to24_api :: "jsstring option \<Rightarrow> number \<Rightarrow> number" where
  "to24_api mer hour =
     (let hour = (if map_option toUpperCase mer = Some (js ''PM'') \<and> hour \<noteq> Some 12
                  then map_option (\<lambda>h. h + 12) hour else hour)
      in if map_option toUpperCase mer = Some (js ''AM'') \<and> hour = Some 12 then Some 0 else hour)"

text \<open>
  \<^verbatim>\<open>
  function parseAppointment(dateStr, timeMatch, contextText) {
    try {   // resolve_date: from here ...
      const cleaned = dateStr.replace(/,/g, '').trim();
      let date = new Date(cleaned);
      if (isNaN(date.getTime())) { const m = cleaned.match(...); if (m) { ...; date = new Date(...); } }
      // ... to here
      if (isNaN(date.getTime())) return null;
      let startHour = parseInt(timeMatch[1]); const startMin = parseInt(timeMatch[2]); ...
      const start = new Date(date); start.setHours(startHour, startMin, 0, 0);
      let end;
      if (timeMatch[4]) { ...; end = new Date(date); end.setHours(endHour, endMin, 0, 0); }
      else end = new Date(start.getTime() + 60 * 60 * 1000);
      let title = 'Mathnasium Session';
      const titleMatch = contextText.match(...);
      if (titleMatch) title = titleMatch[1].trim().substring(0, 50);
      return { title, start, end };
    } catch { return null; }
  }
  \<close>
\<close>

definition resolve_date :: "date_parser \<Rightarrow> zone \<Rightarrow> jsstring \<Rightarrow> jsdate" where
  "resolve_date P tz dateStr =
     (let cleaned = trim (filter (\<lambda>c. c \<noteq> cu CHR '','') dateStr);
          date = new_Date_number (P cleaned)
      in if getTime date = None
         then (case numeric_date tz cleaned of Some d \<Rightarrow> d | None \<Rightarrow> date)
         else date)"

definition parseAppointment_api ::
  "date_parser \<Rightarrow> zone \<Rightarrow> jsstring \<Rightarrow> rmatch \<Rightarrow> jsstring \<Rightarrow> appointment option" where
  "parseAppointment_api P tz dateStr timeMatch contextText =
     (let date = resolve_date P tz dateStr
      in if getTime date = None then None
         else
           let startHour = to24_api (cap timeMatch 3) (parseInt_group (cap timeMatch 1));
               startMin = parseInt_group (cap timeMatch 2);
               start = setHours tz date startHour startMin;
               end = (if truthy (cap timeMatch 4)
                      then setHours tz date
                             (to24_api (cap timeMatch 6) (parseInt_group (cap timeMatch 4)))
                             (parseInt_group (cap timeMatch 5))
                      else new_Date_number (map_option (\<lambda>t. t + 60 * 60 * 1000) (getTime start)));
               title = (case exec title_re contextText of
                          Some titleMatch \<Rightarrow> take 50 (trim (grp titleMatch 1))
                        | None \<Rightarrow> js ''Mathnasium Session'')
           in Some \<lparr>title = title, start = Some start, endDate = Some end, rawText = None,
                     description = None, location = None\<rparr>)"

text \<open>
  src/server.js reads the fields of one booking off the page as strings and converts them
  in parseAppointmentData:
  \<^verbatim>\<open>
  const monthIndex = monthMap[raw.month?.toLowerCase()];
  if (monthIndex === undefined) return null;
  ...
  if (ampm === 'pm' && hour !== 12) hour += 12;
  if (ampm === 'am' && hour === 12) hour = 0;
  const start = new Date(year, monthIndex, day, hour, minute, 0, 0);
  const end = new Date(start.getTime() + 60 * 60 * 1000);
  console.log('Parsed appointment:', start.toISOString(), '-', end.toISOString());
  return { title: raw.title || 'Mathnasium Session', start, end };
  \<close>
  all inside \<^verbatim>\<open>try { ... } catch (e) { return null; }\<close>, so the RangeError of
  \<^verbatim>\<open>toISOString\<close> on an invalid date turns into \<^verbatim>\<open>null\<close>.
\<close>

definition to24_server :: "jsstring option \<Rightarrow> number \<Rightarrow> number" where
  "to24_server ampm hour =
     (let hour = (if ampm = Some (js ''pm'') \<and> hour \<noteq> Some 12
                  then map_option (\<lambda>h. h + 12) hour else hour)
      in if ampm = Some (js ''am'') \<and> hour = Some 12 then Some 0 else hour)"

record rawData =
  title_raw :: "jsstring option"
  month :: "jsstring option"
  day :: "jsstring option"
  year :: "jsstring option"
  hour :: "jsstring option"
  minute :: "jsstring option"
  ampm :: "jsstring option"

definition monthMap :: "jsstring \<Rightarrow> int option" where
  "monthMap = map_of
     [(js ''jan'', 0), (js ''feb'', 1), (js ''mar'', 2), (js ''apr'', 3), (js ''may'', 4),
      (js ''jun'', 5), (js ''jul'', 6), (js ''aug'', 7), (js ''sep'', 8), (js ''oct'', 9),
      (js ''nov'', 10), (js ''dec'', 11)]"

definition parseAppointmentData :: "zone \<Rightarrow> rawData \<Rightarrow> appointment option" where
  "parseAppointmentData tz raw =
     (case Option.bind (map_option toLowerCase (month raw)) monthMap of
        None \<Rightarrow> None
      | Some monthIndex \<Rightarrow>
          let hour = to24_server (map_option toLowerCase (ampm raw)) (parseInt_group (hour raw));
              start = new_Date_fields tz (parseInt_group (year raw)) (Some monthIndex)
                        (parseInt_group (day raw)) hour (parseInt_group (minute raw));
              end = new_Date_number (map_option (\<lambda>t. t + 60 * 60 * 1000) (getTime start))
          in (case (toISOString start, toISOString end) of
                (Inr _, Inr _) \<Rightarrow>
                  Some \<lparr>title = (if truthy (title_raw raw) then the (title_raw raw)
                                  else js ''Mathnasium Session''),
                        start = Some start, endDate = Some end, rawText = None,
          description = None, location = None\<rparr>
              | _ \<Rightarrow> None))"

section \<open>Calendar Encoder\<close>

text \<open>
  \<^verbatim>\<open>crypto.createHash('md5').update(content).digest('hex')\<close>: the MD5 message digest of
  RFC 1321 over the UTF-8 encoding of the string, printed as 32 hexadecimal digits.
  \<^verbatim>\<open>update\<close> encodes a string as Node.js does everywhere: a surrogate pair is one code
  point of four bytes, a surrogate without its partner is written as U+FFFD (EF BF BD).
\<close>

definition utf8_3 :: "code_unit \<Rightarrow> byte list" where
  "utf8_3 c = [0xE0 OR ucast (drop_bit 12 c), 0x80 OR (ucast (drop_bit 6 c) AND 0x3F),
               0x80 OR (ucast c AND 0x3F)]"

definition utf8_4 :: "code_unit \<Rightarrow> code_unit \<Rightarrow> byte list" where
  "utf8_4 hi lo =
     (let cp = (0x10000 :: 32 word) + push_bit 10 (ucast (hi AND 0x3FF)) + ucast (lo AND 0x3FF)
      in [0xF0 OR ucast (drop_bit 18 cp), 0x80 OR (ucast (drop_bit 12 cp) AND 0x3F),
          0x80 OR (ucast (drop_bit 6 cp) AND 0x3F), 0x80 OR (ucast cp AND 0x3F)])"

fun utf8 :: "jsstring \<Rightarrow> byte list" where
  "utf8 [] = []"
| "utf8 [c] =
     (if c < 0x80 then [ucast c]
      else if c < 0x800 then [0xC0 OR ucast (drop_bit 6 c), 0x80 OR (ucast c AND 0x3F)]
      else if 0xD800 \<le> c \<and> c < 0xE000 then [0xEF, 0xBF, 0xBD]
      else utf8_3 c)"
| "utf8 (c # d # cs) =
     (if c < 0x80 then ucast c # utf8 (d # cs)
      else if c < 0x800
        then [0xC0 OR ucast (drop_bit 6 c), 0x80 OR (ucast c AND 0x3F)] @ utf8 (d # cs)
      else if 0xD800 \<le> c \<and> c < 0xDC00 \<and> 0xDC00 \<le> d \<and> d < 0xE000
        then utf8_4 c d @ utf8 cs
      else if 0xD800 \<le> c \<and> c < 0xE000 then [0xEF, 0xBF, 0xBD] @ utf8 (d # cs)
      else utf8_3 c @ utf8 (d # cs))"

type_synonym u32 = "32 word"

definition md5_K :: "u32 list" where
  "md5_K =
     [0xd76aa478, 0xe8c7b756, 0x242070db, 0xc1bdceee,
      0xf57c0faf, 0x4787c62a, 0xa8304613, 0xfd469501,
      0x698098d8, 0x8b44f7af, 0xffff5bb1, 0x895cd7be,
      0x6b901122, 0xfd987193, 0xa679438e, 0x49b40821,
      0xf61e2562, 0xc040b340, 0x265e5a51, 0xe9b6c7aa,
      0xd62f105d, 0x02441453, 0xd8a1e681, 0xe7d3fbc8,
      0x21e1cde6, 0xc33707d6, 0xf4d50d87, 0x455a14ed,
      0xa9e3e905, 0xfcefa3f8, 0x676f02d9, 0x8d2a4c8a,
      0xfffa3942, 0x8771f681, 0x6d9d6122, 0xfde5380c,
      0xa4beea44, 0x4bdecfa9, 0xf6bb4b60, 0xbebfbc70,
      0x289b7ec6, 0xeaa127fa, 0xd4ef3085, 0x04881d05,
      0xd9d4d039, 0xe6db99e5, 0x1fa27cf8, 0xc4ac5665,
      0xf4292244, 0x432aff97, 0xab9423a7, 0xfc93a039,
      0x655b59c3, 0x8f0ccc92, 0xffeff47d, 0x85845dd1,
      0x6fa87e4f, 0xfe2ce6e0, 0xa3014314, 0x4e0811a1,
      0xf7537e82, 0xbd3af235, 0x2ad7d2bb, 0xeb86d391]"

definition md5_s :: "nat list" where
  "md5_s =
     [7, 12, 17, 22, 7, 12, 17, 22, 7, 12, 17, 22, 7, 12, 17, 22,
      5, 9, 14, 20, 5, 9, 14, 20, 5, 9, 14, 20, 5, 9, 14, 20,
      4, 11, 16, 23, 4, 11, 16, 23, 4, 11, 16, 23, 4, 11, 16, 23,
      6, 10, 15, 21, 6, 10, 15, 21, 6, 10, 15, 21, 6, 10, 15, 21]"

definition rotl :: "nat \<Rightarrow> u32 \<Rightarrow> u32" where
  "rotl n x = push_bit n x OR drop_bit (32 - n) x"

definition md5_round :: "u32 list \<Rightarrow> nat \<Rightarrow> u32 \<times> u32 \<times> u32 \<times> u32 \<Rightarrow> u32 \<times> u32 \<times> u32 \<times> u32" where
  "md5_round M i st =
     (case st of (a, b, c, d) \<Rightarrow>
        let (f, g) =
              (if i < 16 then ((b AND c) OR (NOT b AND d), i)
               else if i < 32 then ((d AND b) OR (NOT d AND c), (5 * i + 1) mod 16)
               else if i < 48 then (b XOR c XOR d, (3 * i + 5) mod 16)
               else (c XOR (b OR NOT d), (7 * i) mod 16));
            f' = f + a + md5_K ! i + M ! g
        in (d, b + rotl (md5_s ! i) f', b, c))"

definition le32 :: "byte list \<Rightarrow> u32" where
  "le32 bs = foldr (\<lambda>b acc. push_bit 8 acc OR ucast b) bs 0"

fun chunks :: "nat \<Rightarrow> nat \<Rightarrow> 'a list \<Rightarrow> 'a list list" where
  "chunks 0 n xs = []"
| "chunks (Suc k) n xs = take n xs # chunks k n (drop n xs)"

definition md5_block :: "u32 \<times> u32 \<times> u32 \<times> u32 \<Rightarrow> byte list \<Rightarrow> u32 \<times> u32 \<times> u32 \<times> u32" where
  "md5_block h blk =
     (case h of (a0, b0, c0, d0) \<Rightarrow>
        case fold (md5_round (map le32 (chunks 16 4 blk))) [0..<64] h of
          (a, b, c, d) \<Rightarrow> (a0 + a, b0 + b, c0 + c, d0 + d))"

definition bytes32 :: "u32 \<Rightarrow> byte list" where
  "bytes32 w = map (\<lambda>i. ucast (drop_bit (8 * i) w)) [0..<4]"

definition bytes64 :: "64 word \<Rightarrow> byte list" where
  "bytes64 w = map (\<lambda>i. ucast (drop_bit (8 * i) w)) [0..<8]"

definition md5_pad :: "byte list \<Rightarrow> byte list" where
  "md5_pad m =
     m @ [0x80] @ replicate ((119 - length m mod 64) mod 64) 0 @ bytes64 (8 * of_nat (length m))"

definition md5 :: "byte list \<Rightarrow> byte list" where
  "md5 m =
     (case fold (\<lambda>blk h. md5_block h blk)
             (chunks (length (md5_pad m) div 64) 64 (md5_pad m))
             (0x67452301, 0xefcdab89, 0x98badcfe, 0x10325476) of
        (a, b, c, d) \<Rightarrow> concat (map bytes32 [a, b, c, d]))"

definition hex_digit :: "nat \<Rightarrow> char" where
  "hex_digit n = ''0123456789abcdef'' ! n"

definition hex :: "byte list \<Rightarrow> string" where
  "hex bs = concat (map (\<lambda>b. [hex_digit (unat b div 16), hex_digit (unat b mod 16)]) bs)"

definition md5_hex :: "jsstring \<Rightarrow> jsstring" where
  "md5_hex content = js (hex (md5 (utf8 content)))"

text \<open>
  What the code hands to the library ical-generator: the object it gives to \<^verbatim>\<open>ical(...)\<close>,
  the object it gives to each \<^verbatim>\<open>calendar.createEvent(...)\<close>, and the objects it gives to the
  calls of \<^verbatim>\<open>createAlarm(...)\<close> on the event created, in the order of the calls. The fields
  are the keys of these object literals as the code writes them: \<open>uid\<close> is the value under
  the key \<^verbatim>\<open>uid\<close>, \<open>trigger\<close> the number under the key \<^verbatim>\<open>trigger\<close>. The library is not part of
  the repository. What it prints for these objects in \<^verbatim>\<open>toString()\<close> (under which key it
  looks for the identifier of an event, and whether it reads a negative trigger as before
  or as after the event) is not described here.
\<close>

record alarm =
  alarm_type :: jsstring
  trigger :: int
  alarm_description :: "jsstring option"

record event =
  uid :: jsstring
  event_start :: jsdate
  event_end :: jsdate
  summary :: jsstring
  event_description :: "jsstring option"
  event_location :: jsstring
  alarms :: "alarm list"

record calendar =
  name :: jsstring
  timezone :: jsstring
  ttl :: int
  events :: "event list"

text \<open>\<^verbatim>\<open>${d?.toISOString()}\<close> in a template: the text \<open>undefined\<close> for a missing date.\<close>

definition iso_or_undefined :: "jsdate option \<Rightarrow> js_error + jsstring" where
  "iso_or_undefined d = (case d of None \<Rightarrow> Inr (js ''undefined'') | Some x \<Rightarrow> toISOString x)"

text \<open>
  src/calendar.js:
  \<^verbatim>\<open>
  function generateUID(apt) {
    const content = `${apt.title}-${apt.start?.toISOString()}-${apt.end?.toISOString()}`;
    const hash = crypto.createHash('md5').update(content).digest('hex');
    return `${hash}@appointy-sync`;
  }
  \<close>
\<close>

definition uid_content :: "appointment \<Rightarrow> js_error + jsstring" where
  "uid_content apt =
     (case iso_or_undefined (start apt) of
        Inl e \<Rightarrow> Inl e
      | Inr s \<Rightarrow>
          (case iso_or_undefined (endDate apt) of
             Inl e \<Rightarrow> Inl e
           | Inr e \<Rightarrow> Inr (title apt @ js ''-'' @ s @ js ''-'' @ e)))"

definition generateUID :: "appointment \<Rightarrow> js_error + jsstring" where
  "generateUID apt =
     (case uid_content apt of
        Inl e \<Rightarrow> Inl e
      | Inr content \<Rightarrow> Inr (md5_hex content @ js ''@appointy-sync''))"

text \<open>
  \<^verbatim>\<open>
  for (const apt of appointments) {
    if (!apt.start) { console.warn('Skipping appointment without start time:', apt.title); continue; }
    const uid = generateUID(apt);
    const event = calendar.createEvent({ uid, start: apt.start,
      end: apt.end || new Date(apt.start.getTime() + 60 * 60 * 1000),
      summary: apt.title, description: apt.description || '',
      location: apt.location || 'Mathnasium of Portland' });
    event.createAlarm({ type: 'display', trigger: -60 * 60,
      description: `Reminder: ${apt.title} in 1 hour` });
    event.createAlarm({ type: 'display', trigger: -24 * 60 * 60,
      description: `Tomorrow: ${apt.title}` });
  }
  \<close>
  An exception leaves the loop and the function.
\<close>

definition calendar_event :: "appointment \<Rightarrow> jsdate \<Rightarrow> jsstring \<Rightarrow> event" where
  "calendar_event apt s u =
     \<lparr>uid = u, event_start = s,
      event_end = (case endDate apt of
                     Some e \<Rightarrow> e
                   | None \<Rightarrow> new_Date_number (map_option (\<lambda>t. t + 60 * 60 * 1000) (getTime s))),
      summary = title apt,
      event_description = Some (or_empty (description apt)),
      event_location = (if truthy (location apt) then the (location apt)
                        else js ''Mathnasium of Portland''),
      alarms =
        [\<lparr>alarm_type = js ''display'', trigger = - 60 * 60,
          alarm_description = Some (js ''Reminder: '' @ title apt @ js '' in 1 hour'')\<rparr>,
         \<lparr>alarm_type = js ''display'', trigger = - 24 * 60 * 60,
          alarm_description = Some (js ''Tomorrow: '' @ title apt)\<rparr>]\<rparr>"

fun calendar_events :: "appointment list \<Rightarrow> js_error + event list" where
  "calendar_events [] = Inr []"
| "calendar_events (apt # rest) =
     (case start apt of
        None \<Rightarrow> calendar_events rest
      | Some s \<Rightarrow>
          (case generateUID apt of
             Inl e \<Rightarrow> Inl e
           | Inr u \<Rightarrow>
               (case calendar_events rest of
                  Inl e \<Rightarrow> Inl e
                | Inr evs \<Rightarrow> Inr (calendar_event apt s u # evs))))"

text \<open>
  \<open>CALENDAR_NAME\<close> and \<open>TIMEZONE\<close> come from the environment of the process and are
  parameters here; the refresh hint is \<^verbatim>\<open>ttl: 60 * 60\<close>.
\<close>

definition generateCalendar :: "jsstring \<Rightarrow> jsstring \<Rightarrow> appointment list \<Rightarrow> js_error + calendar" where
  "generateCalendar CALENDAR_NAME TIMEZONE appointments =
     (case calendar_events appointments of
        Inl e \<Rightarrow> Inl e
      | Inr evs \<Rightarrow>
          Inr \<lparr>name = CALENDAR_NAME, timezone = TIMEZONE, ttl = 60 * 60, events = evs\<rparr>)"

text \<open>
  api/calendar.js:
  \<^verbatim>\<open>
  for (const apt of appointments) {
    const uid = crypto.createHash('md5')
      .update(`${apt.title}-${apt.start.toISOString()}-${apt.end.toISOString()}`)
      .digest('hex') + '@appointy-sync';
    calendar.createEvent({ uid, start: apt.start, end: apt.end, summary: apt.title,
      location: 'Mathnasium of Portland' }).createAlarm({ type: 'display', trigger: -60 * 60 });
  }
  \<close>
  Here \<^verbatim>\<open>apt.start.toISOString()\<close> has no \<^verbatim>\<open>?.\<close>: a missing date is a TypeError.
\<close>

definition iso_required :: "jsdate option \<Rightarrow> js_error + jsstring" where
  "iso_required d =
     (case d of
        None \<Rightarrow> Inl (TypeError ''Cannot read properties of null'')
      | Some x \<Rightarrow> toISOString x)"

definition one_alarm_event :: "jsstring \<Rightarrow> appointment \<Rightarrow> event" where
  "one_alarm_event u apt =
     \<lparr>uid = u, event_start = the (start apt), event_end = the (endDate apt),
      summary = title apt, event_description = None,
      event_location = js ''Mathnasium of Portland'',
      alarms = [\<lparr>alarm_type = js ''display'', trigger = - 60 * 60, alarm_description = None\<rparr>]\<rparr>"





text \<open>
  src/server.js:
  \<^verbatim>\<open>
  for (const raw of rawAppointments) {
    const apt = parseAppointmentData(raw);
    if (!apt) continue;
    const uid = crypto.createHash('md5')
      .update(`${apt.start.toISOString()}-${apt.end.toISOString()}`)
      .digest('hex') + '@appointy';
    calendar.createEvent({ uid, start: apt.start, end: apt.end, summary: apt.title,
      location: 'Mathnasium of Portland' }).createAlarm({ type: 'display', trigger: -60 * 60 });
  }
  \<close>
\<close>

definition server_content :: "appointment \<Rightarrow> js_error + jsstring" where
  "server_content apt =
     (case iso_required (start apt) of
        Inl e \<Rightarrow> Inl e
      | Inr s \<Rightarrow>
          (case iso_required (endDate apt) of
             Inl e \<Rightarrow> Inl e
           | Inr e \<Rightarrow> Inr (s @ js ''-'' @ e)))"

definition uid_server :: "appointment \<Rightarrow> js_error + jsstring" where
  "uid_server apt =
     (case server_content apt of
        Inl e \<Rightarrow> Inl e
      | Inr content \<Rightarrow> Inr (md5_hex content @ js ''@appointy''))"

fun server_events :: "zone \<Rightarrow> rawData list \<Rightarrow> js_error + event list" where
  "server_events tz [] = Inr []"
| "server_events tz (raw # rest) =
     (case parseAppointmentData tz raw of
        None \<Rightarrow> server_events tz rest
      | Some apt \<Rightarrow>
          (case uid_server apt of
             Inl e \<Rightarrow> Inl e
           | Inr u \<Rightarrow>
               (case server_events tz rest of
                  Inl e \<Rightarrow> Inl e
                | Inr evs \<Rightarrow> Inr (one_alarm_event u apt # evs))))"

definition generateICS_server :: "zone \<Rightarrow> rawData list \<Rightarrow> jsstring \<Rightarrow> js_error + calendar" where
  "generateICS_server tz rawAppointments calendarName =
     (case server_events tz rawAppointments of
        Inl e \<Rightarrow> Inl e
      | Inr evs \<Rightarrow>
          Inr \<lparr>name = calendarName, timezone = js ''America/New_York'', ttl = 60 * 60,
               events = evs\<rparr>)"

section \<open>Text Pattern Extractor\<close>

text \<open>
  api/calendar.js, extractAppointmentsFromHTML. The three date patterns
  \<^verbatim>\<open>/(\w+day),?\s+(\w+)\s+(\d{1,2}),?\s+(\d{4})/gi\<close>,
  \<^verbatim>\<open>/(\w+)\s+(\d{1,2}),?\s+(\d{4})/gi\<close> and \<^verbatim>\<open>/(\d{1,2})\/(\d{1,2})\/(\d{2,4})/g\<close>:
\<close>

definition datePatterns :: "regex list" where
  "datePatterns =
     [seqs [Group 1 (seqs [Plus (Chr wordc), str_i ''day'']), Opt (lit CHR '',''),
            Plus (Chr space), Group 2 (Plus (Chr wordc)), Plus (Chr space), Group 3 d12,
            Opt (lit CHR '',''), Plus (Chr space), Group 4 d4],
      seqs [Group 1 (Plus (Chr wordc)), Plus (Chr space), Group 2 d12, Opt (lit CHR '',''),
            Plus (Chr space), Group 3 d4],
      seqs [Group 1 d12, lit CHR ''/'', Group 2 d12, lit CHR ''/'', Group 3 d24]]"

text \<open>
  The three card patterns
  \<^verbatim>\<open>/<div[^>]*class="[^"]*(?:booking|appointment|event|card|session)[^"]*"[^>]*>([\s\S]*?)<\/div>/gi\<close>,
  \<^verbatim>\<open>/<article[^>]*>([\s\S]*?)<\/article>/gi\<close> and
  \<^verbatim>\<open>/<li[^>]*class="[^"]*(?:booking|appointment)[^"]*"[^>]*>([\s\S]*?)<\/li>/gi\<close>:
\<close>

definition not_chr :: "char \<Rightarrow> regex" where
  "not_chr x = Chr (\<lambda>c. c \<noteq> cu x)"

definition any_chr :: regex where
  "any_chr = Chr (\<lambda>_. True)"

fun alts :: "regex list \<Rightarrow> regex" where
  "alts [] = Eps"
| "alts [r] = r"
| "alts (r # rs) = Alt r (alts rs)"

definition cardPatterns :: "regex list" where
  "cardPatterns =
     [seqs [str_i ''<div'', Star (not_chr CHR ''>''), str_i ''class='', lit (CHR 0x22),
            Star (not_chr (CHR 0x22)),
            alts [str_i ''booking'', str_i ''appointment'', str_i ''event'', str_i ''card'',
                  str_i ''session''],
            Star (not_chr (CHR 0x22)), lit (CHR 0x22), Star (not_chr CHR ''>''), lit CHR ''>'',
            Group 1 (LazyStar any_chr), str_i ''</div>''],
      seqs [str_i ''<article'', Star (not_chr CHR ''>''), lit CHR ''>'',
            Group 1 (LazyStar any_chr), str_i ''</article>''],
      seqs [str_i ''<li'', Star (not_chr CHR ''>''), str_i ''class='', lit (CHR 0x22),
            Star (not_chr (CHR 0x22)), alts [str_i ''booking'', str_i ''appointment''],
            Star (not_chr (CHR 0x22)), lit (CHR 0x22), Star (not_chr CHR ''>''), lit CHR ''>'',
            Group 1 (LazyStar any_chr), str_i ''</li>'']]"

text \<open>\<^verbatim>\<open>x.replace(/<[^>]+>/g, ' ').replace(/\s+/g, ' ')\<close>\<close>

definition strip_tags :: "jsstring \<Rightarrow> jsstring" where
  "strip_tags x =
     replace_all (Plus (Chr space)) (js '' '')
       (replace_all (seqs [lit CHR ''<'', Plus (not_chr CHR ''>''), lit CHR ''>'']) (js '' '') x)"

text \<open>
  \<^verbatim>\<open>
  let dateStr = null;
  for (const dp of datePatterns) {
    dp.lastIndex = 0;
    const dm = dp.exec(text);
    if (dm) { dateStr = dm[0]; break; }
  }
  \<close>
\<close>

fun first_date :: "regex list \<Rightarrow> jsstring \<Rightarrow> jsstring option" where
  "first_date [] text = None"
| "first_date (dp # dps) text =
     (case exec dp text of Some dm \<Rightarrow> Some (whole dm) | None \<Rightarrow> first_date dps text)"

text \<open>
  One card: its text, its date string, its time match, and the appointment if both are
  there and parseAppointment does not return null.
  \<^verbatim>\<open>
  const cardHtml = match[1] || match[0];
  const text = cardHtml.replace(/<[^>]+>/g, ' ').replace(/\s+/g, ' ');
  ...
  timePattern.lastIndex = 0;
  const tm = timePattern.exec(text);
  if (dateStr && tm) {
    const appointment = parseAppointment(dateStr, tm, text);
    if (appointment) appointments.push(appointment);
  }
  \<close>
\<close>

definition card_appointment :: "date_parser \<Rightarrow> zone \<Rightarrow> rmatch \<Rightarrow> appointment option" where
  "card_appointment P tz m =
     (let cardHtml = (if truthy (cap m 1) then grp m 1 else whole m);
          text = strip_tags cardHtml;
          dateStr = first_date datePatterns text;
          tm = exec timePattern text
      in if truthy dateStr \<and> tm \<noteq> None
         then parseAppointment_api P tz (the dateStr) (the tm) text
         else None)"

text \<open>
  \<^verbatim>\<open>
  for (const pattern of cardPatterns) {
    const matches = html.matchAll(pattern);
    for (const match of matches) { ... }
    if (appointments.length > 0) break;
  }
  \<close>
\<close>

fun scan_cards :: "date_parser \<Rightarrow> zone \<Rightarrow> regex list \<Rightarrow> jsstring \<Rightarrow> appointment list" where
  "scan_cards P tz [] html = []"
| "scan_cards P tz (pattern # patterns) html =
     (let appointments = List.map_filter (card_appointment P tz) (all_matches pattern html 0)
      in if length appointments > 0 then appointments else scan_cards P tz patterns html)"

text \<open>
  The scan of the whole page, when no card gave an appointment:
  \<^verbatim>\<open>
  while ((dm = dp.exec(plainText)) !== null) {
    const nearbyText = plainText.substring(Math.max(0, dm.index - 100), dm.index + 200);
    timePattern.lastIndex = 0;
    const tm = timePattern.exec(nearbyText);
    if (tm) {
      const appointment = parseAppointment(dm[0], tm, nearbyText);
      if (appointment) appointments.push(appointment);
    }
  }
  \<close>
\<close>

definition substring :: "jsstring \<Rightarrow> nat \<Rightarrow> nat \<Rightarrow> jsstring" where
  "substring s i j = take (j - i) (drop i s)"

definition nearby_appointment :: "date_parser \<Rightarrow> zone \<Rightarrow> jsstring \<Rightarrow> rmatch \<Rightarrow> appointment option" where
  "nearby_appointment P tz plainText dm =
     (let nearbyText = substring plainText (index dm - 100) (index dm + 200)
      in case exec timePattern nearbyText of
           Some tm \<Rightarrow> parseAppointment_api P tz (whole dm) tm nearbyText
         | None \<Rightarrow> None)"

definition scan_page :: "date_parser \<Rightarrow> zone \<Rightarrow> jsstring \<Rightarrow> appointment list" where
  "scan_page P tz plainText =
     concat (map (\<lambda>dp. List.map_filter (nearby_appointment P tz plainText)
                           (all_matches dp plainText 0)) datePatterns)"

definition extractAppointmentsFromHTML :: "date_parser \<Rightarrow> zone \<Rightarrow> jsstring \<Rightarrow> appointment list" where
  "extractAppointmentsFromHTML P tz html =
     (let appointments = scan_cards P tz cardPatterns html
      in if length appointments = 0 then scan_page P tz (strip_tags html) else appointments)"

text \<open>
  src/scraper.js, extractAppointments. The page is what the selectors find in the browser:
  for each of the nine card selectors the elements it selects, each with its
  \<^verbatim>\<open>innerText\<close> and the \<^verbatim>\<open>innerText\<close> of its first heading-like descendant if it has one;
  the \<^verbatim>\<open>innerText\<close> of the table rows; the \<^verbatim>\<open>innerText\<close> of the list items.
\<close>

record card =
  innerText :: jsstring
  heading :: "jsstring option"

record page =
  cards :: "card list list"
  rows :: "jsstring list"
  items :: "jsstring list"

text \<open>
  The patterns of strategy 1:
  \<^verbatim>\<open>/(\w+day,?\s+)?(\w+\s+\d{1,2},?\s+\d{4}|\d{1,2}[\/\-]\d{1,2}[\/\-]\d{2,4})/i\<close>,
  \<^verbatim>\<open>/(\d{1,2}:\d{2}\s*(AM|PM)?)\s*(-|to|...)\s*(\d{1,2}:\d{2}\s*(AM|PM)?)/i\<close>, whose third
  alternative is, as the file has it (bytes C3 A2 E2 82 AC E2 80 9C), the three characters
  U+00E2, U+20AC and U+201C (under \<^verbatim>\<open>i\<close> the first may also be its capital U+00C2), and
  \<^verbatim>\<open>/(\d{1,2}:\d{2}\s*(AM|PM)?)/i\<close>.
  Strategies 2 and 3 use
  \<^verbatim>\<open>/(\d{1,2}[\/\-]\d{1,2}[\/\-]\d{2,4}|\w+\s+\d{1,2},?\s+\d{4})/i\<close>.
\<close>

definition written_date :: regex where
  "written_date =
     seqs [Plus (Chr wordc), Plus (Chr space), d12, Opt (lit CHR '',''), Plus (Chr space), d4]"

definition numeric_date_re :: regex where
  "numeric_date_re = seqs [d12, sep, d12, sep, d24]"

definition card_date_re :: regex where
  "card_date_re =
     seqs [Opt (Group 1 (seqs [Plus (Chr wordc), str_i ''day'', Opt (lit CHR '',''),
                               Plus (Chr space)])),
           Group 2 (Alt written_date numeric_date_re)]"

definition clock_re :: "nat \<Rightarrow> nat \<Rightarrow> regex" where
  "clock_re g1 g2 =
     Group g1 (seqs [d12, lit CHR '':'', d2, Star (Chr space), Opt (Group g2 AM_PM)])"

definition time_range_re :: regex where
  "time_range_re =
     seqs [clock_re 1 2, Star (Chr space),
           Group 3 (alts [lit CHR ''-'', str_i ''to'',
                          seqs [Chr (\<lambda>c. c = 0xE2 \<or> c = 0xC2), Chr (\<lambda>c. c = 0x20AC),
                                Chr (\<lambda>c. c = 0x201C)]]),
           Star (Chr space), clock_re 4 5]"

definition single_time_re :: regex where
  "single_time_re = clock_re 1 2"

definition row_date_re :: regex where
  "row_date_re = Group 1 (Alt numeric_date_re written_date)"

text \<open>\<^verbatim>\<open>a || b\<close> on strings that may be missing.\<close>

definition or_else :: "jsstring option \<Rightarrow> jsstring option \<Rightarrow> jsstring option" where
  "or_else a b = (if truthy a then a else b)"

text \<open>
  Strategy 1, one card:
  \<^verbatim>\<open>
  const title = h2?.innerText?.trim() || 'Mathnasium Session';
  if (dateMatch || timeMatch) {
    results.push({ title: title, rawText: text.substring(0, 500), dateText: dateMatch?.[0],
      timeText: timeMatch?.[0] || singleTimeMatch?.[0],
      startTime: timeMatch?.[1] || singleTimeMatch?.[1], endTime: timeMatch?.[4] });
  }
  \<close>
\<close>

definition card_result :: "card \<Rightarrow> rawApt option" where
  "card_result c =
     (let text = innerText c;
          dateMatch = exec card_date_re text;
          timeMatch = exec time_range_re text;
          singleTimeMatch = exec single_time_re text;
          title = or_else (map_option trim (heading c)) (Some (js ''Mathnasium Session''))
      in if dateMatch \<noteq> None \<or> timeMatch \<noteq> None
         then Some \<lparr>title_in = title, rawText_in = Some (substring text 0 500),
                     dateText = map_option whole dateMatch,
                     timeText = or_else (map_option whole timeMatch)
                                        (map_option whole singleTimeMatch),
                     startTime = or_else (Option.bind timeMatch (\<lambda>m. cap m 1))
                                         (Option.bind singleTimeMatch (\<lambda>m. cap m 1)),
                     endTime = Option.bind timeMatch (\<lambda>m. cap m 4)\<rparr>
         else None)"

text \<open>
  \<^verbatim>\<open>
  for (const selector of cardSelectors) {
    const cards = document.querySelectorAll(selector);
    if (cards.length > 0) {
      cards.forEach(card => { ... });
      if (results.length > 0) break;
    }
  }
  \<close>
\<close>

fun strategy1 :: "card list list \<Rightarrow> rawApt list" where
  "strategy1 [] = []"
| "strategy1 (cs # rest) =
     (let results = List.map_filter card_result cs
      in if length results > 0 then results else strategy1 rest)"

text \<open>
  Strategy 2, one table row: \<^verbatim>\<open>if (dateMatch && timeMatch)\<close>, where \<^verbatim>\<open>timeMatch\<close> is the list
  of all times in the row (\<^verbatim>\<open>text.match(/.../gi)\<close>, \<^verbatim>\<open>null\<close> when there is none).
  Strategy 3, one list item: \<^verbatim>\<open>if (dateMatch)\<close>, the times may be missing.
\<close>

definition nth_opt :: "'a list \<Rightarrow> nat \<Rightarrow> 'a option" where
  "nth_opt xs n = (if n < length xs then Some (xs ! n) else None)"

definition row_result :: "jsstring \<Rightarrow> rawApt option" where
  "row_result text =
     (let dateMatch = exec row_date_re text;
          timeMatch = map whole (all_matches single_time_re text 0)
      in if dateMatch \<noteq> None \<and> timeMatch \<noteq> []
         then Some \<lparr>title_in = Some (js ''Mathnasium Session''), rawText_in = Some (substring text 0 500),
                     dateText = map_option whole dateMatch, timeText = None,
                     startTime = nth_opt timeMatch 0, endTime = nth_opt timeMatch 1\<rparr>
         else None)"

definition item_result :: "jsstring \<Rightarrow> rawApt option" where
  "item_result text =
     (let dateMatch = exec row_date_re text;
          timeMatch = map whole (all_matches single_time_re text 0)
      in if dateMatch \<noteq> None
         then Some \<lparr>title_in = Some (js ''Mathnasium Session''), rawText_in = Some (substring text 0 500),
                     dateText = map_option whole dateMatch, timeText = None,
                     startTime = nth_opt timeMatch 0, endTime = nth_opt timeMatch 1\<rparr>
         else None)"

definition page_results :: "page \<Rightarrow> rawApt list" where
  "page_results pg =
     (let results = strategy1 (cards pg);
          results = (if length results = 0 then List.map_filter row_result (rows pg) else results);
          results = (if length results = 0 then List.map_filter item_result (items pg) else results)
      in results)"

text \<open>
  \<^verbatim>\<open>return appointments.map(apt => parseAppointment(apt));\<close> An exception in one call ends
  the whole extraction.
\<close>

fun map_throwing :: "('a \<Rightarrow> js_error + 'b) \<Rightarrow> 'a list \<Rightarrow> js_error + 'b list" where
  "map_throwing f [] = Inr []"
| "map_throwing f (x # xs) =
     (case f x of
        Inl e \<Rightarrow> Inl e
      | Inr y \<Rightarrow> (case map_throwing f xs of Inl e \<Rightarrow> Inl e | Inr ys \<Rightarrow> Inr (y # ys)))"

definition extractAppointments :: "date_parser \<Rightarrow> zone \<Rightarrow> page \<Rightarrow> js_error + appointment list" where
  "extractAppointments P tz pg = map_throwing (parseAppointment P tz) (page_results pg)"

section \<open>What a match means\<close>

text \<open>
  The words a pattern can match, with the captures before and after: the declarative
  reading of the patterns, against which the backtracking search is checked.
\<close>

inductive matches :: "regex \<Rightarrow> jsstring \<Rightarrow> captures \<Rightarrow> captures \<Rightarrow> bool" where
  m_Chr: "p x \<Longrightarrow> matches (Chr p) [x] c c"
| m_Eps: "matches Eps [] c c"
| m_Seq: "matches a u c c1 \<Longrightarrow> matches b v c1 c2 \<Longrightarrow> matches (Seq a b) (u @ v) c c2"
| m_Alt1: "matches a w c c' \<Longrightarrow> matches (Alt a b) w c c'"
| m_Alt2: "matches b w c c' \<Longrightarrow> matches (Alt a b) w c c'"
| m_Opt: "matches a w c c' \<Longrightarrow> matches (Opt a) w c c'"
| m_Opt0: "matches (Opt a) [] c c"
| m_Star0: "matches (Star a) [] c c"
| m_Star: "matches a u c c1 \<Longrightarrow> matches (Star a) v c1 c2 \<Longrightarrow> matches (Star a) (u @ v) c c2"
| m_Lazy0: "matches (LazyStar a) [] c c"
| m_Lazy: "matches a u c c1 \<Longrightarrow> matches (LazyStar a) v c1 c2 \<Longrightarrow>
           matches (LazyStar a) (u @ v) c c2"
| m_Group: "matches a w c c' \<Longrightarrow> matches (Group n a) w c (c'(n \<mapsto> w))"

primrec groups :: "regex \<Rightarrow> nat set" where
  "groups (Chr p) = {}"
| "groups Eps = {}"
| "groups (Seq a b) = groups a \<union> groups b"
| "groups (Alt a b) = groups a \<union> groups b"
| "groups (Opt a) = groups a"
| "groups (Star a) = groups a"
| "groups (LazyStar a) = groups a"
| "groups (Group n a) = insert n (groups a)"

text \<open>A string of decimal digits, at least one.\<close>

definition digits :: "jsstring \<Rightarrow> bool" where
  "digits w = (w \<noteq> [] \<and> (\<forall>x \<in> set w. digit x))"

text \<open>The case analyses of a match, one for each constructor with a single shape.\<close>

inductive_cases matches_ChrE: "matches (Chr p) w c c'"
inductive_cases matches_EpsE: "matches Eps w c c'"
inductive_cases matches_SeqE: "matches (Seq a b) w c c'"
inductive_cases matches_AltE: "matches (Alt a b) w c c'"
inductive_cases matches_OptE: "matches (Opt a) w c c'"
inductive_cases matches_GroupE: "matches (Group n a) w c c'"

text \<open>
  The optional end-time part of \<open>timePattern\<close>,
  \<^verbatim>\<open>\s*[-\u2013to]+\s*(\d{1,2}):(\d{2})\s*(AM|PM)?\<close>, named so that its matches can be
  analysed on their own.
\<close>

definition range_tail :: regex where
  "range_tail = seqs [Star (Chr space), Plus range_sep, Star (Chr space),
                      Group 4 d12, lit CHR '':'', Group 5 d2, Star (Chr space),
                      Opt (Group 6 AM_PM)]"


section \<open>Properties of the Access Gate\<close>

lemma unat_byte_of_char: "unat (of_nat (of_char c) :: byte) = of_char c"
proof -
  have "(of_char c :: nat) mod 2 ^ LENGTH(8) = of_char c"
    using nat_of_char_less_256 [of c] by simp
  then show ?thesis by (simp only: unat_of_nat)
qed

lemma byte_of_char_inj: "(of_nat (of_char c) :: byte) = of_nat (of_char d) \<Longrightarrow> c = d"
proof -
  assume "(of_nat (of_char c) :: byte) = of_nat (of_char d)"
  then have "unat (of_nat (of_char c) :: byte) = unat (of_nat (of_char d) :: byte)" by simp
  then have "(of_char c :: nat) = of_char d" by (simp only: unat_byte_of_char)
  then show "c = d" by simp
qed

lemma Buffer_from_inj: "Buffer_from s = Buffer_from t \<longleftrightarrow> s = t"
proof
  assume "Buffer_from s = Buffer_from t"
  then show "s = t"
    unfolding Buffer_from_def
  proof (induction s arbitrary: t)
    case Nil then show ?case by simp
  next
    case (Cons c cs)
    then show ?case by (cases t) (auto dest: byte_of_char_inj)
  qed
qed simp

lemma length_Buffer_from: "length (Buffer_from s) = length s"
  by (simp add: Buffer_from_def)

lemma byte_xor_zero: "(p XOR q = 0) = (p = q)" for p q :: byte
  by (auto simp: bit_eq_iff bit_xor_iff)

text \<open>The comparator looks at every byte and answers whether the buffers are equal.\<close>

lemma CRYPTO_memcmp_zero:
  "length a = length b \<Longrightarrow> (CRYPTO_memcmp a b x = 0 \<longleftrightarrow> x = 0 \<and> a = b)"
proof (induction a b arbitrary: x rule: list_induct2)
  case Nil
  then show ?case by simp
next
  case (Cons p ps q qs)
  have "(x OR (p XOR q) = 0) = (x = 0 \<and> p = q)"
    by (simp add: or_eq_0_iff byte_xor_zero)
  with Cons show ?case by auto
qed

lemma timingSafeEqual_eq: "length a = length b \<Longrightarrow> timingSafeEqual a b = Inr (a = b)"
  by (simp add: timingSafeEqual_def CRYPTO_memcmp_zero)

lemma access_gate_api_eq:
  "access_gate_api cfg req =
     (if \<not> truthy (calendarToken cfg) then (NotConfigured, [])
      else if length (the (calendarToken cfg)) \<noteq> length (or_empty (token req))
        then (InvalidToken, [])
      else (if the (calendarToken cfg) = or_empty (token req) then Accepted else InvalidToken,
            [TimingSafeEqualCall (Buffer_from (the (calendarToken cfg)))
                                 (Buffer_from (or_empty (token req)))]))"
  by (simp add: access_gate_api_def Let_def timingSafeEqual_eq length_Buffer_from Buffer_from_inj)

lemma truthy_token_eq: "truthy c \<Longrightarrow> (the c = or_empty t) = (t = c)"
  by (cases c; cases t) (auto simp: truthy_def or_empty_def)

lemma accepted_api_iff:
  "fst (access_gate_api cfg req) = Accepted \<longleftrightarrow>
     truthy (calendarToken cfg) \<and> token req = calendarToken cfg"
  using truthy_token_eq [of "calendarToken cfg" "token req"] by (auto simp: access_gate_api_eq)

lemma accepted_server_iff:
  "fst (access_gate_server cfg req) = Accepted \<longleftrightarrow>
     truthy (calendarToken cfg) \<and> token req = calendarToken cfg"
  by (simp add: access_gate_server_def)

lemma no_fetch_in_gate_api: "UpstreamFetch \<notin> set (snd (access_gate_api cfg req))"
  by (simp add: access_gate_api_eq)

lemma handler_api_accepted:
  "fst (access_gate_api cfg req) = Accepted \<Longrightarrow>
   handler_api cfg req up w =
     (if cache_hit req w then (Inr (hit_response w), w, snd (access_gate_api cfg req))
      else if \<not> truthy (flaresolverrUrl cfg)
        then (Inr (on_error (Json_error ''FlareSolverr URL not configured. Visit /api/admin'') w), w,
              snd (access_gate_api cfg req))
      else if \<not> truthy (appointyEmail cfg) \<or> \<not> truthy (appointyPassword cfg)
        then (Inr (on_error (Json_error ''Appointy credentials not configured'') w), w,
              snd (access_gate_api cfg req))
      else (Inr (fst (regenerate Json_error (clock w) up w)),
            snd (regenerate Json_error (clock w) up w),
            snd (access_gate_api cfg req) @ [UpstreamFetch]))"
  by (cases "access_gate_api cfg req") (simp add: handler_api_def Let_def split: prod.splits)

lemma handler_server_accepted:
  "fst (access_gate_server cfg req) = Accepted \<Longrightarrow>
   handler_server cfg req up w =
     (if cache_hit req w then (Inr (hit_response w), w, [])
      else (Inr (fst (regenerate (\<lambda>msg. Send (''Error fetching appointments: '' @ msg))
                        (clock w) up w)),
            snd (regenerate (\<lambda>msg. Send (''Error fetching appointments: '' @ msg)) (clock w) up w),
            [UpstreamFetch]))"
  by (simp add: handler_server_def access_gate_server_def Let_def split: prod.splits if_splits)

lemma handler_api_not_accepted:
  "fst (access_gate_api cfg req) \<noteq> Accepted \<Longrightarrow>
   snd (handler_api cfg req up w) = (w, snd (access_gate_api cfg req))"
  by (cases "access_gate_api cfg req"; cases "fst (access_gate_api cfg req)")
     (simp_all add: handler_api_def)

lemma handler_api_invalid:
  "truthy (calendarToken cfg) \<Longrightarrow> token req \<noteq> calendarToken cfg \<Longrightarrow>
   fst (handler_api cfg req up w) =
     Inr \<lparr>status = 403, x_cache = None, body = Json_error ''Invalid token''\<rparr>"
  using truthy_token_eq [of "calendarToken cfg" "token req"]
  by (auto simp: handler_api_def access_gate_api_eq)

lemma handler_server_invalid:
  "\<not> truthy (calendarToken cfg) \<or> token req \<noteq> calendarToken cfg \<Longrightarrow>
   handler_server cfg req up w =
     (Inr \<lparr>status = 403, x_cache = None, body = Send ''Invalid token''\<rparr>, w, [])"
  by (auto simp: handler_server_def access_gate_server_def)

text \<open>
  C1. While a token is configured, each gate accepts a request exactly when the token it
  carries equals the configured one. When the two differ in length the request is rejected
  with no call of \<^verbatim>\<open>timingSafeEqual\<close> at all, every call of \<^verbatim>\<open>timingSafeEqual\<close> that a
  gate makes has two buffers of the same length, and a request whose token differs is
  answered 403 by the handler.
\<close>

theorem access_gate_accepts_iff_equal:
  assumes "truthy (calendarToken cfg)"
  shows "(fst (access_gate_api cfg req) = Accepted \<longleftrightarrow> token req = calendarToken cfg)
       \<and> (fst (access_gate_server cfg req) = Accepted \<longleftrightarrow> token req = calendarToken cfg)
       \<and> (length (or_empty (token req)) \<noteq> length (the (calendarToken cfg)) \<longrightarrow>
            access_gate_api cfg req = (InvalidToken, []) \<and>
            access_gate_server cfg req = (InvalidToken, []))
       \<and> (\<forall>a b. TimingSafeEqualCall a b \<in> set (snd (access_gate_api cfg req)) \<union>
                                        set (snd (access_gate_server cfg req)) \<longrightarrow>
                 length a = length b)
       \<and> (token req \<noteq> calendarToken cfg \<longrightarrow>
            fst (handler_api cfg req up w) =
              Inr \<lparr>status = 403, x_cache = None, body = Json_error ''Invalid token''\<rparr> \<and>
            fst (handler_server cfg req up w) =
              Inr \<lparr>status = 403, x_cache = None, body = Send ''Invalid token''\<rparr>)"
proof (intro conjI)
  show "fst (access_gate_api cfg req) = Accepted \<longleftrightarrow> token req = calendarToken cfg"
    using assms by (simp add: accepted_api_iff)
  show "fst (access_gate_server cfg req) = Accepted \<longleftrightarrow> token req = calendarToken cfg"
    using assms by (simp add: accepted_server_iff)
  show "length (or_empty (token req)) \<noteq> length (the (calendarToken cfg)) \<longrightarrow>
            access_gate_api cfg req = (InvalidToken, []) \<and>
            access_gate_server cfg req = (InvalidToken, [])"
    using assms truthy_token_eq [OF assms, of "token req"]
    by (auto simp: access_gate_api_eq access_gate_server_def)
  show "\<forall>a b. TimingSafeEqualCall a b \<in> set (snd (access_gate_api cfg req)) \<union>
                                        set (snd (access_gate_server cfg req)) \<longrightarrow>
                 length a = length b"
    by (auto simp: access_gate_api_eq access_gate_server_def length_Buffer_from split: if_splits)
  show "token req \<noteq> calendarToken cfg \<longrightarrow>
            fst (handler_api cfg req up w) =
              Inr \<lparr>status = 403, x_cache = None, body = Json_error ''Invalid token''\<rparr> \<and>
            fst (handler_server cfg req up w) =
              Inr \<lparr>status = 403, x_cache = None, body = Send ''Invalid token''\<rparr>"
    using assms by (simp add: handler_api_invalid handler_server_invalid)
qed

text \<open>
  The token \<open>abc\<close> against the configured \<open>abcd\<close> is rejected with an empty trace; the token
  \<open>abcd\<close> is accepted after one comparison of four bytes with four bytes.
\<close>

theorem access_gate_accepts_iff_equal_witness:
  "truthy (Some ''abcd'')
   \<and> access_gate_api \<lparr>calendarToken = Some ''abcd'', flaresolverrUrl = None, appointyEmail = None,
        appointyPassword = None\<rparr> \<lparr>token = Some ''abc'', refresh = None\<rparr> = (InvalidToken, [])
   \<and> access_gate_api \<lparr>calendarToken = Some ''abcd'', flaresolverrUrl = None, appointyEmail = None,
        appointyPassword = None\<rparr> \<lparr>token = Some ''abcd'', refresh = None\<rparr> =
       (Accepted, [TimingSafeEqualCall [97, 98, 99, 100] [97, 98, 99, 100]])
   \<and> fst (access_gate_server \<lparr>calendarToken = Some ''abcd'', flaresolverrUrl = None,
        appointyEmail = None, appointyPassword = None\<rparr> \<lparr>token = Some ''abcd'', refresh = None\<rparr>) =
       Accepted"
  using access_gate_accepts_iff_equal [of "\<lparr>calendarToken = Some ''abcd'', flaresolverrUrl = None,
          appointyEmail = None, appointyPassword = None\<rparr>" "\<lparr>token = Some ''abc'', refresh = None\<rparr>"]
        access_gate_accepts_iff_equal [of "\<lparr>calendarToken = Some ''abcd'', flaresolverrUrl = None,
          appointyEmail = None, appointyPassword = None\<rparr>" "\<lparr>token = Some ''abcd'', refresh = None\<rparr>"]
  by (simp add: truthy_def or_empty_def access_gate_api_eq Buffer_from_def)


section \<open>Properties of the Cache/Freshness Gate\<close>

lemma regenerate_fail:
  "outcome up = Inl msg \<Longrightarrow>
   regenerate wording now up w =
     (on_error (wording msg) (w\<lparr>clock := clock w + int (duration up)\<rparr>),
      w\<lparr>clock := clock w + int (duration up)\<rparr>)"
  by (simp add: regenerate_def Let_def)

lemma regenerate_ok:
  "outcome up = Inr ics \<Longrightarrow>
   regenerate wording now up w =
     (\<lparr>status = 200, x_cache = Some MISS, body = Send ics\<rparr>,
      w\<lparr>clock := clock w + int (duration up), cachedICS := Some ics, cacheTime := now\<rparr>)"
  by (simp add: regenerate_def Let_def)

text \<open>When each handler reaches the upstream fetch.\<close>

lemma fetch_api_iff:
  "UpstreamFetch \<in> set (snd (snd (handler_api cfg req up w))) \<longleftrightarrow>
     fst (access_gate_api cfg req) = Accepted \<and> \<not> cache_hit req w \<and>
     truthy (flaresolverrUrl cfg) \<and> truthy (appointyEmail cfg) \<and> truthy (appointyPassword cfg)"
proof (cases "fst (access_gate_api cfg req) = Accepted")
  case True
  then show ?thesis
    using no_fetch_in_gate_api [of cfg req] by (auto simp: handler_api_accepted)
next
  case False
  then show ?thesis
    using no_fetch_in_gate_api [of cfg req] by (simp add: handler_api_not_accepted)
qed

lemma fetch_server_iff:
  "UpstreamFetch \<in> set (snd (snd (handler_server cfg req up w))) \<longleftrightarrow>
     fst (access_gate_server cfg req) = Accepted \<and> \<not> cache_hit req w"
proof (cases "fst (access_gate_server cfg req) = Accepted")
  case True
  then show ?thesis by (auto simp: handler_server_accepted)
next
  case False
  then show ?thesis
    by (auto simp: handler_server_def access_gate_server_def split: if_splits)
qed

text \<open>
  C2, as the claim states it, fails on api/calendar.js: a request with the right token and a
  document cached 20 minutes ago makes no upstream fetch when \<^verbatim>\<open>flaresolverrUrl\<close> is not
  configured; the guard at the head of the \<^verbatim>\<open>try\<close> block throws first and the stale
  document is served.
\<close>

theorem cache_gate_fetch_counterexample:
  "token \<lparr>token = Some ''abcd'', refresh = None\<rparr> =
     calendarToken \<lparr>calendarToken = Some ''abcd'', flaresolverrUrl = None,
                    appointyEmail = Some ''a@b.c'', appointyPassword = Some ''pw''\<rparr>
   \<and> CACHE_TTL \<le> clock \<lparr>cachedICS = Some ''BEGIN:VCALENDAR'', cacheTime = 0, clock = 1200000\<rparr>
                  - cacheTime \<lparr>cachedICS = Some ''BEGIN:VCALENDAR'', cacheTime = 0, clock = 1200000\<rparr>
   \<and> UpstreamFetch \<notin> set (snd (snd (handler_api
        \<lparr>calendarToken = Some ''abcd'', flaresolverrUrl = None,
         appointyEmail = Some ''a@b.c'', appointyPassword = Some ''pw''\<rparr>
        \<lparr>token = Some ''abcd'', refresh = None\<rparr>
        \<lparr>duration = 0, outcome = Inr ''NEW''\<rparr>
        \<lparr>cachedICS = Some ''BEGIN:VCALENDAR'', cacheTime = 0, clock = 1200000\<rparr>)))
   \<and> fst (handler_api
        \<lparr>calendarToken = Some ''abcd'', flaresolverrUrl = None,
         appointyEmail = Some ''a@b.c'', appointyPassword = Some ''pw''\<rparr>
        \<lparr>token = Some ''abcd'', refresh = None\<rparr>
        \<lparr>duration = 0, outcome = Inr ''NEW''\<rparr>
        \<lparr>cachedICS = Some ''BEGIN:VCALENDAR'', cacheTime = 0, clock = 1200000\<rparr>) =
       Inr \<lparr>status = 200, x_cache = Some STALE, body = Send ''BEGIN:VCALENDAR''\<rparr>"
  by (simp add: no_fetch_in_gate_api accepted_api_iff handler_api_accepted truthy_def
        CACHE_TTL_def cache_hit_def on_error_def)

text \<open>
  C2, amended. For a request that has passed the Access Gate: when a (non-empty) document is
  cached, its age is below the TTL of 15 minutes and \<^verbatim>\<open>refresh\<close> is not the string \<open>true\<close>,
  both handlers return the cached text unchanged marked HIT, leave the cache as it is and
  make no upstream fetch; when the age is at least the TTL or \<^verbatim>\<open>refresh\<close> is \<open>true\<close>, the
  handler of server.js attempts the fetch, and the handler of api/calendar.js attempts it
  exactly when the fetcher URL and both credentials are configured.
\<close>

theorem cache_gate_hit_or_fetch:
  assumes "truthy (calendarToken cfg)" and "token req = calendarToken cfg"
  shows "(truthy (cachedICS w) \<and> clock w - cacheTime w < CACHE_TTL \<and> refresh req \<noteq> Some ''true'' \<longrightarrow>
            fst (handler_api cfg req up w) =
              Inr \<lparr>status = 200, x_cache = Some HIT, body = Send (the (cachedICS w))\<rparr> \<and>
            fst (snd (handler_api cfg req up w)) = w \<and>
            UpstreamFetch \<notin> set (snd (snd (handler_api cfg req up w))) \<and>
            handler_server cfg req up w =
              (Inr \<lparr>status = 200, x_cache = Some HIT, body = Send (the (cachedICS w))\<rparr>, w, []))
       \<and> (CACHE_TTL \<le> clock w - cacheTime w \<or> refresh req = Some ''true'' \<longrightarrow>
            UpstreamFetch \<in> set (snd (snd (handler_server cfg req up w))) \<and>
            (UpstreamFetch \<in> set (snd (snd (handler_api cfg req up w))) \<longleftrightarrow>
               truthy (flaresolverrUrl cfg) \<and> truthy (appointyEmail cfg) \<and>
               truthy (appointyPassword cfg)))"
proof -
  have a: "fst (access_gate_api cfg req) = Accepted" using assms by (simp add: accepted_api_iff)
  have s: "fst (access_gate_server cfg req) = Accepted"
    using assms by (simp add: accepted_server_iff)
  show ?thesis
    using no_fetch_in_gate_api [of cfg req]
    by (auto simp: handler_api_accepted [OF a] handler_server_accepted [OF s]
                   cache_hit_def forceRefresh_def hit_response_def)
qed

text \<open>
  Ten minutes after a generation the server handler answers from the cache; twenty minutes
  after it, and with everything configured, both handlers fetch.
\<close>

theorem cache_gate_hit_or_fetch_witness:
  "truthy (Some ''abcd'')
   \<and> handler_server
        \<lparr>calendarToken = Some ''abcd'', flaresolverrUrl = Some ''http://flare'',
         appointyEmail = Some ''a@b.c'', appointyPassword = Some ''pw''\<rparr>
        \<lparr>token = Some ''abcd'', refresh = None\<rparr>
        \<lparr>duration = 180000, outcome = Inr ''NEW''\<rparr>
        \<lparr>cachedICS = Some ''BEGIN:VCALENDAR'', cacheTime = 0, clock = 600000\<rparr> =
       (Inr \<lparr>status = 200, x_cache = Some HIT, body = Send ''BEGIN:VCALENDAR''\<rparr>,
        \<lparr>cachedICS = Some ''BEGIN:VCALENDAR'', cacheTime = 0, clock = 600000\<rparr>, [])
   \<and> UpstreamFetch \<in> set (snd (snd (handler_server
        \<lparr>calendarToken = Some ''abcd'', flaresolverrUrl = Some ''http://flare'',
         appointyEmail = Some ''a@b.c'', appointyPassword = Some ''pw''\<rparr>
        \<lparr>token = Some ''abcd'', refresh = None\<rparr>
        \<lparr>duration = 180000, outcome = Inr ''NEW''\<rparr>
        \<lparr>cachedICS = Some ''BEGIN:VCALENDAR'', cacheTime = 0, clock = 1200000\<rparr>)))
   \<and> UpstreamFetch \<in> set (snd (snd (handler_api
        \<lparr>calendarToken = Some ''abcd'', flaresolverrUrl = Some ''http://flare'',
         appointyEmail = Some ''a@b.c'', appointyPassword = Some ''pw''\<rparr>
        \<lparr>token = Some ''abcd'', refresh = None\<rparr>
        \<lparr>duration = 180000, outcome = Inr ''NEW''\<rparr>
        \<lparr>cachedICS = Some ''BEGIN:VCALENDAR'', cacheTime = 0, clock = 1200000\<rparr>)))"
  using cache_gate_hit_or_fetch [of
        "\<lparr>calendarToken = Some ''abcd'', flaresolverrUrl = Some ''http://flare'',
         appointyEmail = Some ''a@b.c'', appointyPassword = Some ''pw''\<rparr>"
        "\<lparr>token = Some ''abcd'', refresh = None\<rparr>"
        "\<lparr>cachedICS = Some ''BEGIN:VCALENDAR'', cacheTime = 0, clock = 600000\<rparr>"
        "\<lparr>duration = 180000, outcome = Inr ''NEW''\<rparr>"]
      cache_gate_hit_or_fetch [of
        "\<lparr>calendarToken = Some ''abcd'', flaresolverrUrl = Some ''http://flare'',
         appointyEmail = Some ''a@b.c'', appointyPassword = Some ''pw''\<rparr>"
        "\<lparr>token = Some ''abcd'', refresh = None\<rparr>"
        "\<lparr>cachedICS = Some ''BEGIN:VCALENDAR'', cacheTime = 0, clock = 1200000\<rparr>"
        "\<lparr>duration = 180000, outcome = Inr ''NEW''\<rparr>"]
  by (simp add: truthy_def CACHE_TTL_def)


text \<open>
  C3. A request with the configured token that is not answered from the cache (a refresh is
  forced, nothing is cached, or the cached document is at least 15 minutes old) and whose
  fetch or generation fails: in api/calendar.js because the fetcher URL or a credential is
  not configured (the guards throw) or because the awaited scrape and generation threw, in
  server.js because the awaited scrape and generation threw. If a document is cached,
  whatever its age, the handler answers 200 with that document marked STALE; if none is
  cached it answers status 500 with the message of the error. The cached text and its
  timestamp stay as they were.
\<close>

theorem stale_fallback:
  assumes "truthy (calendarToken cfg)" and "token req = calendarToken cfg"
    and "refresh req = Some ''true'' \<or> \<not> truthy (cachedICS w) \<or>
         CACHE_TTL \<le> clock w - cacheTime w"
  shows "(\<not> truthy (flaresolverrUrl cfg) \<or> \<not> truthy (appointyEmail cfg) \<or>
          \<not> truthy (appointyPassword cfg) \<or> outcome up = Inl msg \<longrightarrow>
            fst (handler_api cfg req up w) =
              Inr (if truthy (cachedICS w)
                   then \<lparr>status = 200, x_cache = Some STALE, body = Send (the (cachedICS w))\<rparr>
                   else \<lparr>status = 500, x_cache = None,
                         body = Json_error
                           (if \<not> truthy (flaresolverrUrl cfg)
                            then ''FlareSolverr URL not configured. Visit /api/admin''
                            else if \<not> truthy (appointyEmail cfg) \<or>
                                    \<not> truthy (appointyPassword cfg)
                            then ''Appointy credentials not configured''
                            else msg)\<rparr>) \<and>
            cachedICS (fst (snd (handler_api cfg req up w))) = cachedICS w \<and>
            cacheTime (fst (snd (handler_api cfg req up w))) = cacheTime w)
       \<and> (outcome up = Inl msg \<longrightarrow>
            fst (handler_server cfg req up w) =
              Inr (if truthy (cachedICS w)
                   then \<lparr>status = 200, x_cache = Some STALE, body = Send (the (cachedICS w))\<rparr>
                   else \<lparr>status = 500, x_cache = None,
                         body = Send (''Error fetching appointments: '' @ msg)\<rparr>) \<and>
            cachedICS (fst (snd (handler_server cfg req up w))) = cachedICS w \<and>
            cacheTime (fst (snd (handler_server cfg req up w))) = cacheTime w)"
proof -
  have a: "fst (access_gate_api cfg req) = Accepted" using assms by (simp add: accepted_api_iff)
  have s: "fst (access_gate_server cfg req) = Accepted"
    using assms by (simp add: accepted_server_iff)
  have m: "\<not> cache_hit req w" using assms(3) by (auto simp: cache_hit_def forceRefresh_def)
  show ?thesis
    by (auto simp: handler_api_accepted [OF a] handler_server_accepted [OF s] m
                   regenerate_fail on_error_def)
qed

text \<open>
  A scrape that times out, for a request with the configured token: with a document cached
  an hour ago both handlers serve it marked STALE; with an empty cache both answer 500; and
  api/calendar.js without a fetcher URL answers 500 from its guard.
\<close>

theorem stale_fallback_witness:
  "fst (handler_api
        \<lparr>calendarToken = Some ''abcd'', flaresolverrUrl = Some ''http://flare'',
         appointyEmail = Some ''a@b.c'', appointyPassword = Some ''pw''\<rparr>
        \<lparr>token = Some ''abcd'', refresh = None\<rparr>
        \<lparr>duration = 60000, outcome = Inl ''timeout''\<rparr>
        \<lparr>cachedICS = Some ''BEGIN:VCALENDAR'', cacheTime = 0, clock = 3600000\<rparr>) =
       Inr \<lparr>status = 200, x_cache = Some STALE, body = Send ''BEGIN:VCALENDAR''\<rparr>
   \<and> fst (handler_api
        \<lparr>calendarToken = Some ''abcd'', flaresolverrUrl = Some ''http://flare'',
         appointyEmail = Some ''a@b.c'', appointyPassword = Some ''pw''\<rparr>
        \<lparr>token = Some ''abcd'', refresh = None\<rparr>
        \<lparr>duration = 60000, outcome = Inl ''timeout''\<rparr>
        \<lparr>cachedICS = None, cacheTime = 0, clock = 3600000\<rparr>) =
       Inr \<lparr>status = 500, x_cache = None, body = Json_error ''timeout''\<rparr>
   \<and> fst (handler_api
        \<lparr>calendarToken = Some ''abcd'', flaresolverrUrl = None,
         appointyEmail = Some ''a@b.c'', appointyPassword = Some ''pw''\<rparr>
        \<lparr>token = Some ''abcd'', refresh = None\<rparr>
        \<lparr>duration = 60000, outcome = Inr ''NEW''\<rparr>
        \<lparr>cachedICS = None, cacheTime = 0, clock = 3600000\<rparr>) =
       Inr \<lparr>status = 500, x_cache = None,
            body = Json_error ''FlareSolverr URL not configured. Visit /api/admin''\<rparr>
   \<and> fst (handler_server
        \<lparr>calendarToken = Some ''abcd'', flaresolverrUrl = None,
         appointyEmail = Some ''a@b.c'', appointyPassword = Some ''pw''\<rparr>
        \<lparr>token = Some ''abcd'', refresh = None\<rparr>
        \<lparr>duration = 60000, outcome = Inl ''timeout''\<rparr>
        \<lparr>cachedICS = Some ''BEGIN:VCALENDAR'', cacheTime = 0, clock = 3600000\<rparr>) =
       Inr \<lparr>status = 200, x_cache = Some STALE, body = Send ''BEGIN:VCALENDAR''\<rparr>
   \<and> fst (handler_server
        \<lparr>calendarToken = Some ''abcd'', flaresolverrUrl = None,
         appointyEmail = Some ''a@b.c'', appointyPassword = Some ''pw''\<rparr>
        \<lparr>token = Some ''abcd'', refresh = None\<rparr>
        \<lparr>duration = 60000, outcome = Inl ''timeout''\<rparr>
        \<lparr>cachedICS = None, cacheTime = 0, clock = 3600000\<rparr>) =
       Inr \<lparr>status = 500, x_cache = None, body = Send ''Error fetching appointments: timeout''\<rparr>"
proof -
  let ?full = "\<lparr>calendarToken = Some ''abcd'', flaresolverrUrl = Some ''http://flare'',
         appointyEmail = Some ''a@b.c'', appointyPassword = Some ''pw''\<rparr>"
  let ?nourl = "\<lparr>calendarToken = Some ''abcd'', flaresolverrUrl = None,
         appointyEmail = Some ''a@b.c'', appointyPassword = Some ''pw''\<rparr>"
  let ?req = "\<lparr>token = Some ''abcd'', refresh = None\<rparr>"
  let ?fail = "\<lparr>duration = 60000, outcome = Inl ''timeout''\<rparr>"
  let ?ok = "\<lparr>duration = 60000, outcome = Inr ''NEW''\<rparr>"
  let ?old = "\<lparr>cachedICS = Some ''BEGIN:VCALENDAR'', cacheTime = 0, clock = 3600000\<rparr>"
  let ?empty = "\<lparr>cachedICS = None, cacheTime = 0, clock = 3600000\<rparr>"
  have 1: "fst (handler_api ?full ?req ?fail ?old) =
       Inr \<lparr>status = 200, x_cache = Some STALE, body = Send ''BEGIN:VCALENDAR''\<rparr>"
    using stale_fallback [of ?full ?req ?old ?fail "''timeout''"]
    by (simp add: truthy_def CACHE_TTL_def)
  have 2: "fst (handler_api ?full ?req ?fail ?empty) =
       Inr \<lparr>status = 500, x_cache = None, body = Json_error ''timeout''\<rparr>"
    using stale_fallback [of ?full ?req ?empty ?fail "''timeout''"]
    by (simp add: truthy_def CACHE_TTL_def)
  have 3: "fst (handler_api ?nourl ?req ?ok ?empty) =
       Inr \<lparr>status = 500, x_cache = None,
            body = Json_error ''FlareSolverr URL not configured. Visit /api/admin''\<rparr>"
    using stale_fallback [of ?nourl ?req ?empty ?ok "''timeout''"]
    by (simp add: truthy_def CACHE_TTL_def)
  have 4: "fst (handler_server ?nourl ?req ?fail ?old) =
       Inr \<lparr>status = 200, x_cache = Some STALE, body = Send ''BEGIN:VCALENDAR''\<rparr>"
    using stale_fallback [of ?nourl ?req ?old ?fail "''timeout''"]
    by (simp add: truthy_def CACHE_TTL_def)
  have 5: "fst (handler_server ?nourl ?req ?fail ?empty) =
       Inr \<lparr>status = 500, x_cache = None, body = Send ''Error fetching appointments: timeout''\<rparr>"
    using stale_fallback [of ?nourl ?req ?empty ?fail "''timeout''"]
    by (simp add: truthy_def CACHE_TTL_def)
  from 1 2 3 4 5 show ?thesis by (intro conjI)
qed

text \<open>
  C7, as the claim states it, fails on server.js: with no token configured the answer is
  the 403 \<open>Invalid token\<close> that a wrong token gets; the two outcomes are one response.
\<close>

theorem not_configured_conflated_counterexample:
  "\<not> truthy (calendarToken \<lparr>calendarToken = None, flaresolverrUrl = None,
                               appointyEmail = None, appointyPassword = None\<rparr>)
   \<and> fst (handler_server
        \<lparr>calendarToken = None, flaresolverrUrl = None, appointyEmail = None,
         appointyPassword = None\<rparr>
        \<lparr>token = Some ''abcd'', refresh = None\<rparr>
        \<lparr>duration = 0, outcome = Inr ''NEW''\<rparr>
        \<lparr>cachedICS = None, cacheTime = 0, clock = 0\<rparr>) =
       Inr \<lparr>status = 403, x_cache = None, body = Send ''Invalid token''\<rparr>
   \<and> fst (handler_server
        \<lparr>calendarToken = Some ''abcd'', flaresolverrUrl = None, appointyEmail = None,
         appointyPassword = None\<rparr>
        \<lparr>token = Some ''wrong'', refresh = None\<rparr>
        \<lparr>duration = 0, outcome = Inr ''NEW''\<rparr>
        \<lparr>cachedICS = None, cacheTime = 0, clock = 0\<rparr>) =
       Inr \<lparr>status = 403, x_cache = None, body = Send ''Invalid token''\<rparr>"
  by (simp add: handler_server_invalid truthy_def)

text \<open>
  C7, amended. With no token configured, api/calendar.js answers status 500 with the error
  \<open>Not configured. Visit /api/admin\<close>, which is not the 403 \<open>Invalid token\<close> it gives to a wrong
  token; server.js answers 403 \<open>Invalid token\<close>, the very response it gives to a wrong token.
\<close>

theorem not_configured_response:
  assumes "\<not> truthy (calendarToken cfg)"
  shows "handler_api cfg req up w =
           (Inr \<lparr>status = 500, x_cache = None,
                 body = Json_error ''Not configured. Visit /api/admin''\<rparr>, w, [])
       \<and> (\<forall>cfg' req'. truthy (calendarToken cfg') \<and> token req' \<noteq> calendarToken cfg' \<longrightarrow>
             fst (handler_api cfg' req' up w) =
               Inr \<lparr>status = 403, x_cache = None, body = Json_error ''Invalid token''\<rparr> \<and>
             fst (handler_api cfg' req' up w) \<noteq> fst (handler_api cfg req up w))
       \<and> handler_server cfg req up w =
           (Inr \<lparr>status = 403, x_cache = None, body = Send ''Invalid token''\<rparr>, w, [])
       \<and> (\<forall>cfg' req'. truthy (calendarToken cfg') \<and> token req' \<noteq> calendarToken cfg' \<longrightarrow>
             handler_server cfg' req' up w = handler_server cfg req up w)"
proof -
  have a: "handler_api cfg req up w =
           (Inr \<lparr>status = 500, x_cache = None,
                 body = Json_error ''Not configured. Visit /api/admin''\<rparr>, w, [])"
    using assms by (simp add: handler_api_def access_gate_api_def)
  show ?thesis using a assms by (auto simp: handler_api_invalid handler_server_invalid)
qed

theorem not_configured_response_witness:
  "\<not> truthy None
   \<and> fst (handler_api
        \<lparr>calendarToken = None, flaresolverrUrl = None, appointyEmail = None,
         appointyPassword = None\<rparr>
        \<lparr>token = Some ''abcd'', refresh = None\<rparr>
        \<lparr>duration = 0, outcome = Inr ''NEW''\<rparr>
        \<lparr>cachedICS = None, cacheTime = 0, clock = 0\<rparr>) =
       Inr \<lparr>status = 500, x_cache = None, body = Json_error ''Not configured. Visit /api/admin''\<rparr>"
  using not_configured_response [of
        "\<lparr>calendarToken = None, flaresolverrUrl = None, appointyEmail = None,
         appointyPassword = None\<rparr>"
        "\<lparr>token = Some ''abcd'', refresh = None\<rparr>"
        "\<lparr>duration = 0, outcome = Inr ''NEW''\<rparr>"
        "\<lparr>cachedICS = None, cacheTime = 0, clock = 0\<rparr>"]
  by (simp add: truthy_def)

lemma handler_api_not_hit:
  "\<not> cache_hit req w \<Longrightarrow> fst (handler_api cfg req up w) \<noteq> Inr (hit_response w')"
  by (cases "access_gate_api cfg req"; cases "fst (access_gate_api cfg req)")
     (auto simp: handler_api_def Let_def regenerate_def on_error_def hit_response_def
           split: sum.splits)

lemma handler_server_not_hit:
  "\<not> cache_hit req w \<Longrightarrow> fst (handler_server cfg req up w) \<noteq> Inr (hit_response w')"
  by (cases "access_gate_server cfg req"; cases "fst (access_gate_server cfg req)")
     (auto simp: handler_server_def Let_def regenerate_def on_error_def hit_response_def
           split: sum.splits)

text \<open>
  C10. A request with the configured token that is not answered from the cache and whose
  scrape and generation succeed with the document \<open>ics\<close> (in api/calendar.js with the fetcher
  URL and the credentials configured): the handler answers 200 MISS with \<open>ics\<close> and stores
  \<open>ics\<close> with \<open>cacheTime\<close> set to the clock value read when the request arrived, while the
  clock itself has moved on by the time the scrape took. A later request with the token and
  no forced refresh, arriving at time \<open>t\<close>, is therefore answered from the cache exactly when
  \<open>t\<close> is less than 15 minutes after the arrival of the request that regenerated (the
  document not being empty). A request answered from the cache leaves the cached text, the
  timestamp and the rest of the state as they were.
\<close>

theorem cache_time_is_arrival_time:
  assumes "truthy (calendarToken cfg)" and "token req = calendarToken cfg"
  shows "((refresh req = Some ''true'' \<or> \<not> truthy (cachedICS w) \<or>
           CACHE_TTL \<le> clock w - cacheTime w) \<and> outcome up = Inr ics \<and>
          truthy (flaresolverrUrl cfg) \<and> truthy (appointyEmail cfg) \<and>
          truthy (appointyPassword cfg) \<longrightarrow>
            fst (handler_api cfg req up w) =
              Inr \<lparr>status = 200, x_cache = Some MISS, body = Send ics\<rparr> \<and>
            fst (snd (handler_api cfg req up w)) =
              \<lparr>cachedICS = Some ics, cacheTime = clock w, clock = clock w + int (duration up)\<rparr> \<and>
            (\<forall>(req2 :: request) up2 t. token req2 = calendarToken cfg \<and> refresh req2 \<noteq> Some ''true'' \<and>
                 ics \<noteq> [] \<longrightarrow>
               (fst (handler_api cfg req2 up2 ((fst (snd (handler_api cfg req up w)))\<lparr>clock := t\<rparr>)) =
                  Inr \<lparr>status = 200, x_cache = Some HIT, body = Send ics\<rparr>
                \<longleftrightarrow> t - clock w < 15 * 60 * 1000)))
       \<and> ((refresh req = Some ''true'' \<or> \<not> truthy (cachedICS w) \<or>
            CACHE_TTL \<le> clock w - cacheTime w) \<and> outcome up = Inr ics \<longrightarrow>
            fst (handler_server cfg req up w) =
              Inr \<lparr>status = 200, x_cache = Some MISS, body = Send ics\<rparr> \<and>
            fst (snd (handler_server cfg req up w)) =
              \<lparr>cachedICS = Some ics, cacheTime = clock w, clock = clock w + int (duration up)\<rparr> \<and>
            (\<forall>(req2 :: request) up2 t. token req2 = calendarToken cfg \<and> refresh req2 \<noteq> Some ''true'' \<and>
                 ics \<noteq> [] \<longrightarrow>
               (fst (handler_server cfg req2 up2
                       ((fst (snd (handler_server cfg req up w)))\<lparr>clock := t\<rparr>)) =
                  Inr \<lparr>status = 200, x_cache = Some HIT, body = Send ics\<rparr>
                \<longleftrightarrow> t - clock w < 15 * 60 * 1000)))
       \<and> (refresh req \<noteq> Some ''true'' \<and> truthy (cachedICS w) \<and>
          clock w - cacheTime w < CACHE_TTL \<longrightarrow>
            fst (snd (handler_api cfg req up w)) = w \<and>
            fst (snd (handler_server cfg req up w)) = w)"
proof -
  have a: "fst (access_gate_api cfg req) = Accepted" using assms by (simp add: accepted_api_iff)
  have s: "fst (access_gate_server cfg req) = Accepted"
    using assms by (simp add: accepted_server_iff)
  have a2: "fst (access_gate_api cfg req2) = Accepted" if "token req2 = calendarToken cfg" for req2 :: request
    using assms that by (simp add: accepted_api_iff)
  have s2: "fst (access_gate_server cfg req2) = Accepted" if "token req2 = calendarToken cfg"
    for req2 :: request
    using assms that by (simp add: accepted_server_iff)
  have later: "cache_hit req2 \<lparr>cachedICS = Some ics, cacheTime = clock w, clock = t\<rparr> \<longleftrightarrow>
      t - clock w < 15 * 60 * 1000"
    if "refresh req2 \<noteq> Some ''true''" "ics \<noteq> []" for req2 :: request and t
    using that by (simp add: cache_hit_def forceRefresh_def truthy_def CACHE_TTL_def)
  have hit_api: "(fst (handler_api cfg req2 up2 w2) = Inr (hit_response w2)) = cache_hit req2 w2"
    if "token req2 = calendarToken cfg" for req2 :: request and up2 w2
    using handler_api_not_hit [of req2 w2 cfg up2 w2]
    by (auto simp: handler_api_accepted [OF a2 [OF that]])
  have hit_server:
    "(fst (handler_server cfg req2 up2 w2) = Inr (hit_response w2)) = cache_hit req2 w2"
    if "token req2 = calendarToken cfg" for req2 :: request and up2 w2
    using handler_server_not_hit [of req2 w2 cfg up2 w2]
    by (auto simp: handler_server_accepted [OF s2 [OF that]])
  have hr: "hit_response \<lparr>cachedICS = Some ics, cacheTime = c, clock = t\<rparr> =
      \<lparr>status = 200, x_cache = Some HIT, body = Send ics\<rparr>" for c t
    by (simp add: hit_response_def)
  show ?thesis
  proof (intro conjI impI allI)
    assume h: "(refresh req = Some ''true'' \<or> \<not> truthy (cachedICS w) \<or>
           CACHE_TTL \<le> clock w - cacheTime w) \<and> outcome up = Inr ics \<and>
          truthy (flaresolverrUrl cfg) \<and> truthy (appointyEmail cfg) \<and>
          truthy (appointyPassword cfg)"
    then have m: "\<not> cache_hit req w" by (auto simp: cache_hit_def forceRefresh_def)
    from h have o: "outcome up = Inr ics" by simp
    show r: "fst (handler_api cfg req up w) =
              Inr \<lparr>status = 200, x_cache = Some MISS, body = Send ics\<rparr>"
      using h by (simp add: handler_api_accepted [OF a] m regenerate_ok [OF o])
    show w': "fst (snd (handler_api cfg req up w)) =
              \<lparr>cachedICS = Some ics, cacheTime = clock w, clock = clock w + int (duration up)\<rparr>"
      using h by (simp add: handler_api_accepted [OF a] m regenerate_ok [OF o])
    fix req2 :: request and up2 :: upstream and t :: int
    assume q: "token req2 = calendarToken cfg \<and> refresh req2 \<noteq> Some ''true'' \<and> ics \<noteq> []"
    show "(fst (handler_api cfg req2 up2 ((fst (snd (handler_api cfg req up w)))\<lparr>clock := t\<rparr>)) =
                  Inr \<lparr>status = 200, x_cache = Some HIT, body = Send ics\<rparr>)
          \<longleftrightarrow> t - clock w < 15 * 60 * 1000"
      using hit_api [of req2 up2 "\<lparr>cachedICS = Some ics, cacheTime = clock w, clock = t\<rparr>"]
        later [of req2 t] q
      by (simp add: w' hr)
  next
    assume h: "(refresh req = Some ''true'' \<or> \<not> truthy (cachedICS w) \<or>
           CACHE_TTL \<le> clock w - cacheTime w) \<and> outcome up = Inr ics"
    then have m: "\<not> cache_hit req w" by (auto simp: cache_hit_def forceRefresh_def)
    from h have o: "outcome up = Inr ics" by simp
    show "fst (handler_server cfg req up w) =
              Inr \<lparr>status = 200, x_cache = Some MISS, body = Send ics\<rparr>"
      by (simp add: handler_server_accepted [OF s] m regenerate_ok [OF o])
    show w': "fst (snd (handler_server cfg req up w)) =
              \<lparr>cachedICS = Some ics, cacheTime = clock w, clock = clock w + int (duration up)\<rparr>"
      by (simp add: handler_server_accepted [OF s] m regenerate_ok [OF o])
    fix req2 :: request and up2 :: upstream and t :: int
    assume q: "token req2 = calendarToken cfg \<and> refresh req2 \<noteq> Some ''true'' \<and> ics \<noteq> []"
    show "(fst (handler_server cfg req2 up2
                 ((fst (snd (handler_server cfg req up w)))\<lparr>clock := t\<rparr>)) =
                  Inr \<lparr>status = 200, x_cache = Some HIT, body = Send ics\<rparr>)
          \<longleftrightarrow> t - clock w < 15 * 60 * 1000"
      using hit_server [of req2 up2 "\<lparr>cachedICS = Some ics, cacheTime = clock w, clock = t\<rparr>"]
        later [of req2 t] q
      by (simp add: w' hr)
  next
    assume h: "refresh req \<noteq> Some ''true'' \<and> truthy (cachedICS w) \<and>
          clock w - cacheTime w < CACHE_TTL"
    then have m: "cache_hit req w" by (simp add: cache_hit_def forceRefresh_def)
    show "fst (snd (handler_api cfg req up w)) = w"
      by (simp add: handler_api_accepted [OF a] m)
    show "fst (snd (handler_server cfg req up w)) = w"
      by (simp add: handler_server_accepted [OF s] m)
  qed
qed

text \<open>
  A request arriving at minute 20 on a stale cache, whose scrape takes 4 minutes: the
  document is stamped minute 20 although the clock reads minute 24 when it is stored. A
  request one millisecond before minute 35 is answered from the cache; a request at minute
  35, only 11 minutes after the document was stored, regenerates. A request at minute 10 on
  a fresh cache changes nothing.
\<close>

theorem cache_time_is_arrival_time_witness:
  "fst (snd (handler_api
        \<lparr>calendarToken = Some ''abcd'', flaresolverrUrl = Some ''http://flare'',
         appointyEmail = Some ''a@b.c'', appointyPassword = Some ''pw''\<rparr>
        \<lparr>token = Some ''abcd'', refresh = None\<rparr>
        \<lparr>duration = 240000, outcome = Inr ''NEW''\<rparr>
        \<lparr>cachedICS = Some ''OLD'', cacheTime = 0, clock = 1200000\<rparr>)) =
     \<lparr>cachedICS = Some ''NEW'', cacheTime = 1200000, clock = 1440000\<rparr>
   \<and> fst (handler_api
        \<lparr>calendarToken = Some ''abcd'', flaresolverrUrl = Some ''http://flare'',
         appointyEmail = Some ''a@b.c'', appointyPassword = Some ''pw''\<rparr>
        \<lparr>token = Some ''abcd'', refresh = None\<rparr>
        \<lparr>duration = 240000, outcome = Inr ''NEWER''\<rparr>
        \<lparr>cachedICS = Some ''NEW'', cacheTime = 1200000, clock = 2099999\<rparr>) =
     Inr \<lparr>status = 200, x_cache = Some HIT, body = Send ''NEW''\<rparr>
   \<and> fst (handler_api
        \<lparr>calendarToken = Some ''abcd'', flaresolverrUrl = Some ''http://flare'',
         appointyEmail = Some ''a@b.c'', appointyPassword = Some ''pw''\<rparr>
        \<lparr>token = Some ''abcd'', refresh = None\<rparr>
        \<lparr>duration = 240000, outcome = Inr ''NEWER''\<rparr>
        \<lparr>cachedICS = Some ''NEW'', cacheTime = 1200000, clock = 2100000\<rparr>) =
     Inr \<lparr>status = 200, x_cache = Some MISS, body = Send ''NEWER''\<rparr>
   \<and> fst (snd (handler_server
        \<lparr>calendarToken = Some ''abcd'', flaresolverrUrl = None, appointyEmail = None,
         appointyPassword = None\<rparr>
        \<lparr>token = Some ''abcd'', refresh = None\<rparr>
        \<lparr>duration = 240000, outcome = Inr ''NEW''\<rparr>
        \<lparr>cachedICS = Some ''OLD'', cacheTime = 0, clock = 1200000\<rparr>)) =
     \<lparr>cachedICS = Some ''NEW'', cacheTime = 1200000, clock = 1440000\<rparr>
   \<and> fst (handler_server
        \<lparr>calendarToken = Some ''abcd'', flaresolverrUrl = None, appointyEmail = None,
         appointyPassword = None\<rparr>
        \<lparr>token = Some ''abcd'', refresh = None\<rparr>
        \<lparr>duration = 240000, outcome = Inr ''NEWER''\<rparr>
        \<lparr>cachedICS = Some ''NEW'', cacheTime = 1200000, clock = 2099999\<rparr>) =
     Inr \<lparr>status = 200, x_cache = Some HIT, body = Send ''NEW''\<rparr>
   \<and> fst (snd (handler_api
        \<lparr>calendarToken = Some ''abcd'', flaresolverrUrl = Some ''http://flare'',
         appointyEmail = Some ''a@b.c'', appointyPassword = Some ''pw''\<rparr>
        \<lparr>token = Some ''abcd'', refresh = None\<rparr>
        \<lparr>duration = 240000, outcome = Inr ''NEW''\<rparr>
        \<lparr>cachedICS = Some ''OLD'', cacheTime = 0, clock = 600000\<rparr>)) =
     \<lparr>cachedICS = Some ''OLD'', cacheTime = 0, clock = 600000\<rparr>"
proof -
  let ?full = "\<lparr>calendarToken = Some ''abcd'', flaresolverrUrl = Some ''http://flare'',
         appointyEmail = Some ''a@b.c'', appointyPassword = Some ''pw''\<rparr>"
  let ?bare = "\<lparr>calendarToken = Some ''abcd'', flaresolverrUrl = None, appointyEmail = None,
         appointyPassword = None\<rparr>"
  let ?req = "\<lparr>token = Some ''abcd'', refresh = None\<rparr>"
  let ?up = "\<lparr>duration = 240000, outcome = Inr ''NEW''\<rparr>"
  let ?up2 = "\<lparr>duration = 240000, outcome = Inr ''NEWER''\<rparr>"
  let ?stale = "\<lparr>cachedICS = Some ''OLD'', cacheTime = 0, clock = 1200000\<rparr>"
  let ?fresh = "\<lparr>cachedICS = Some ''OLD'', cacheTime = 0, clock = 600000\<rparr>"
  note api = cache_time_is_arrival_time [of ?full ?req ?stale ?up "''NEW''"]
  note server = cache_time_is_arrival_time [of ?bare ?req ?stale ?up "''NEW''"]
  have 1: "fst (snd (handler_api ?full ?req ?up ?stale)) =
     \<lparr>cachedICS = Some ''NEW'', cacheTime = 1200000, clock = 1440000\<rparr>"
    using api by (simp add: truthy_def CACHE_TTL_def)
  have "\<forall>(req2 :: request) up2 t. token req2 = Some ''abcd'' \<and> refresh req2 \<noteq> Some ''true'' \<longrightarrow>
      (fst (handler_api ?full req2 up2
              \<lparr>cachedICS = Some ''NEW'', cacheTime = 1200000, clock = t\<rparr>) =
         Inr \<lparr>status = 200, x_cache = Some HIT, body = Send ''NEW''\<rparr>
       \<longleftrightarrow> t - 1200000 < 15 * 60 * 1000)"
    using api by (simp add: truthy_def CACHE_TTL_def 1)
  from this [rule_format, of ?req ?up2 2099999]
  have 2: "fst (handler_api ?full ?req ?up2
        \<lparr>cachedICS = Some ''NEW'', cacheTime = 1200000, clock = 2099999\<rparr>) =
     Inr \<lparr>status = 200, x_cache = Some HIT, body = Send ''NEW''\<rparr>"
    by simp
  have 3: "fst (handler_api ?full ?req ?up2
        \<lparr>cachedICS = Some ''NEW'', cacheTime = 1200000, clock = 2100000\<rparr>) =
     Inr \<lparr>status = 200, x_cache = Some MISS, body = Send ''NEWER''\<rparr>"
    using cache_time_is_arrival_time [of ?full ?req
        "\<lparr>cachedICS = Some ''NEW'', cacheTime = 1200000, clock = 2100000\<rparr>" ?up2 "''NEWER''"]
    by (simp add: truthy_def CACHE_TTL_def)
  have 4: "fst (snd (handler_server ?bare ?req ?up ?stale)) =
     \<lparr>cachedICS = Some ''NEW'', cacheTime = 1200000, clock = 1440000\<rparr>"
    using server by (simp add: truthy_def CACHE_TTL_def)
  have "\<forall>(req2 :: request) up2 t. token req2 = Some ''abcd'' \<and> refresh req2 \<noteq> Some ''true'' \<longrightarrow>
      (fst (handler_server ?bare req2 up2
              \<lparr>cachedICS = Some ''NEW'', cacheTime = 1200000, clock = t\<rparr>) =
         Inr \<lparr>status = 200, x_cache = Some HIT, body = Send ''NEW''\<rparr>
       \<longleftrightarrow> t - 1200000 < 15 * 60 * 1000)"
    using server by (simp add: truthy_def CACHE_TTL_def 4)
  from this [rule_format, of ?req ?up2 2099999]
  have 5: "fst (handler_server ?bare ?req ?up2
        \<lparr>cachedICS = Some ''NEW'', cacheTime = 1200000, clock = 2099999\<rparr>) =
     Inr \<lparr>status = 200, x_cache = Some HIT, body = Send ''NEW''\<rparr>"
    by simp
  have 6: "fst (snd (handler_api ?full ?req ?up ?fresh)) = ?fresh"
    using cache_time_is_arrival_time [of ?full ?req ?fresh ?up "''NEW''"]
    by (simp add: truthy_def CACHE_TTL_def)
  from 1 2 3 4 5 6 show ?thesis by (intro conjI)
qed


section \<open>Properties of the regular expressions\<close>

text \<open>
  The backtracking matcher is sound for the declarative meaning of a pattern: whatever
  \<open>bt\<close>, \<open>search\<close> and \<open>exec\<close> return is a match, so a fact about all matches of a pattern
  is a fact about every result of \<^verbatim>\<open>String.prototype.match\<close> and \<^verbatim>\<open>RegExp.prototype.exec\<close>.
\<close>

lemma bt_sound:
  "bt r s c k = Some res \<Longrightarrow> \<exists>w s' c'. s = w @ s' \<and> matches r w c c' \<and> k s' c' = Some res"
proof (induction r s c k arbitrary: res rule: bt.induct)
  case (1 p s c k)
  then obtain x xs where "s = x # xs" "p x" "k xs c = Some res"
    by (auto split: list.splits if_splits)
  then show ?case using m_Chr [of p x c] by (intro exI [of _ "[x]"] exI [of _ xs] exI [of _ c]) simp
next
  case (2 s c k)
  then show ?case using m_Eps [of c] by (intro exI [of _ "[]"] exI [of _ s] exI [of _ c]) simp
next
  case (3 a b s c k)
  from "3.prems" have "bt a s c (\<lambda>s' c'. bt b s' c' k) = Some res" by simp
  from "3.IH"(2) [OF this] obtain u s1 c1 where
    u: "s = u @ s1" "matches a u c c1" "bt b s1 c1 k = Some res" by blast
  from "3.IH"(1) [OF u(3)] obtain v s2 c2 where
    v: "s1 = v @ s2" "matches b v c1 c2" "k s2 c2 = Some res" by blast
  show ?case
    using u v m_Seq [OF u(2) v(2)]
    by (intro exI [of _ "u @ v"] exI [of _ s2] exI [of _ c2]) simp
next
  case (4 a b s c k)
  show ?case
  proof (cases "bt a s c k")
    case None
    with "4.prems" have "bt b s c k = Some res" by simp
    from "4.IH"(2) [OF None this] show ?thesis by (blast intro: m_Alt2)
  next
    case (Some r)
    with "4.prems" have "bt a s c k = Some res" by simp
    from "4.IH"(1) [OF this] show ?thesis by (blast intro: m_Alt1)
  qed
next
  case (5 a s c k)
  let ?K = "\<lambda>s' c'. if length s' < length s then k s' c' else None"
  show ?case
  proof (cases "bt a s c ?K")
    case None
    with "5.prems" have "k s c = Some res" by simp
    then show ?thesis using m_Opt0 [of a c]
      by (intro exI [of _ "[]"] exI [of _ s] exI [of _ c]) simp
  next
    case (Some r)
    with "5.prems" have "bt a s c ?K = Some res" by simp
    from "5.IH" [OF this] obtain w s' c' where
      "s = w @ s'" "matches a w c c'" "?K s' c' = Some res" by blast
    then show ?thesis by (auto split: if_splits intro: m_Opt)
  qed
next
  case (6 a s c k)
  let ?K = "\<lambda>s' c'. if length s' < length s then bt (Star a) s' c' k else None"
  show ?case
  proof (cases "bt a s c ?K")
    case None
    with "6.prems" have "k s c = Some res" by simp
    then show ?thesis using m_Star0 [of a c]
      by (intro exI [of _ "[]"] exI [of _ s] exI [of _ c]) simp
  next
    case (Some r)
    with "6.prems" have "bt a s c ?K = Some res" by simp
    from "6.IH"(2) [OF this] obtain u s1 c1 where
      u: "s = u @ s1" "matches a u c c1" "?K s1 c1 = Some res" by blast
    then have l: "length s1 < length s" and b: "bt (Star a) s1 c1 k = Some res"
      by (auto split: if_splits)
    from "6.IH"(1) [OF l b] obtain v s2 c2 where
      v: "s1 = v @ s2" "matches (Star a) v c1 c2" "k s2 c2 = Some res" by blast
    show ?thesis
      using u v m_Star [OF u(2) v(2)]
      by (intro exI [of _ "u @ v"] exI [of _ s2] exI [of _ c2]) simp
  qed
next
  case (7 a s c k)
  let ?K = "\<lambda>s' c'. if length s' < length s then bt (LazyStar a) s' c' k else None"
  show ?case
  proof (cases "k s c")
    case (Some r)
    with "7.prems" have "k s c = Some res" by simp
    then show ?thesis using m_Lazy0 [of a c]
      by (intro exI [of _ "[]"] exI [of _ s] exI [of _ c]) simp
  next
    case None
    with "7.prems" have "bt a s c ?K = Some res" by simp
    from "7.IH"(2) [OF None this] obtain u s1 c1 where
      u: "s = u @ s1" "matches a u c c1" "?K s1 c1 = Some res" by blast
    then have l: "length s1 < length s" and b: "bt (LazyStar a) s1 c1 k = Some res"
      by (auto split: if_splits)
    from "7.IH"(1) [OF None l b] obtain v s2 c2 where
      v: "s1 = v @ s2" "matches (LazyStar a) v c1 c2" "k s2 c2 = Some res" by blast
    show ?thesis
      using u v m_Lazy [OF u(2) v(2)]
      by (intro exI [of _ "u @ v"] exI [of _ s2] exI [of _ c2]) simp
  qed
next
  case (8 n a s c k)
  let ?K = "\<lambda>s' c'. k s' (c'(n \<mapsto> take (length s - length s') s))"
  from "8.prems" have "bt a s c ?K = Some res" by simp
  from "8.IH" [OF this] obtain w s' c' where
    w: "s = w @ s'" "matches a w c c'" "?K s' c' = Some res" by blast
  then have "k s' (c'(n \<mapsto> w)) = Some res" by simp
  then show ?case
    using w(1) m_Group [OF w(2), of n] by blast
qed

lemma search_sound:
  "search r s i = Some m \<Longrightarrow> matches r (whole m) (\<lambda>_. None) (cap m)"
proof (induction r s i rule: search.induct)
  case (1 r s i)
  show ?case
  proof (cases "bt r s (\<lambda>_. None) (\<lambda>s' c. Some (s', c))")
    case None
    with "1.prems" obtain x xs where s: "s = x # xs" and "search r xs (Suc i) = Some m"
      by (auto split: list.splits)
    with "1.IH" [OF None] show ?thesis by simp
  next
    case (Some res)
    obtain s' c' where res: "res = (s', c')" by (cases res)
    from bt_sound [OF Some] res obtain w where "s = w @ s'" "matches r w (\<lambda>_. None) c'"
      by auto
    moreover from "1.prems" Some res have "m = \<lparr>index = i, whole = take (length s - length s') s, cap = c'\<rparr>"
      by simp
    ultimately show ?thesis by simp
  qed
qed

lemma exec_sound: "exec r s = Some m \<Longrightarrow> matches r (whole m) (\<lambda>_. None) (cap m)"
  unfolding exec_def by (rule search_sound)

lemma matches_frame: "matches r w c c' \<Longrightarrow> n \<notin> groups r \<Longrightarrow> c' n = c n"
  by (induction rule: matches.induct) auto

lemma matches_no_groups: "matches r w c c' \<Longrightarrow> groups r = {} \<Longrightarrow> c' = c"
  using matches_frame [of r w c c'] by (intro ext) simp

lemma matches_digit: "matches (Chr digit) w c c' \<Longrightarrow> digits w \<and> length w = 1 \<and> c' = c"
  by (auto elim!: matches_ChrE simp: digits_def)

lemma digits_append: "digits u \<Longrightarrow> digits v \<Longrightarrow> digits (u @ v)"
  by (auto simp: digits_def)

lemma matches_opt_digit:
  "matches (Opt (Chr digit)) w c c' \<Longrightarrow> (w = [] \<or> digits w) \<and> length w \<le> 1 \<and> c' = c"
  by (auto elim!: matches_OptE dest!: matches_digit)

lemma matches_d12: "matches d12 w c c' \<Longrightarrow> digits w \<and> length w \<le> 2 \<and> c' = c"
  unfolding d12_def
  by (auto elim!: matches_SeqE dest!: matches_digit matches_opt_digit intro: digits_append)

lemma matches_d2: "matches d2 w c c' \<Longrightarrow> digits w \<and> length w = 2 \<and> c' = c"
  unfolding d2_def
  by (auto elim!: matches_SeqE dest!: matches_digit intro: digits_append)

lemma matches_d4: "matches d4 w c c' \<Longrightarrow> digits w \<and> length w = 4 \<and> c' = c"
  unfolding d4_def
  by (auto elim!: matches_SeqE dest!: matches_d2 intro: digits_append)

lemma matches_d24: "matches d24 w c c' \<Longrightarrow> digits w \<and> length w \<le> 4 \<and> c' = c"
  unfolding d24_def
  by (auto elim!: matches_SeqE matches_OptE dest!: matches_d2 matches_digit matches_opt_digit
           intro: digits_append)

lemma cu_letters:
  "cu CHR ''A'' = 0x41" "cu CHR ''M'' = 0x4D" "cu CHR ''P'' = 0x50" "cu CHR ''-'' = 0x2D"
  "cu CHR ''+'' = 0x2B" "cu CHR ''0'' = 0x30" "cu CHR ''2'' = 0x32"
  by (simp_all add: cu_def)

lemma upper_AMPM [simp]:
  "upper_char (cu CHR ''A'') = cu CHR ''A''" "upper_char (cu CHR ''M'') = cu CHR ''M''"
  "upper_char (cu CHR ''P'') = cu CHR ''P''"
  by (simp_all add: upper_char_def cu_letters)

lemma matches_AM_PM:
  "matches AM_PM w c c' \<Longrightarrow> (toUpperCase w = js ''AM'' \<or> toUpperCase w = js ''PM'') \<and> c' = c"
  unfolding AM_PM_def str_i_def lit_i_def
  by (auto elim!: matches_AltE matches_SeqE matches_ChrE simp: toUpperCase_def js_def)

lemma digit_props:
  "digit x \<Longrightarrow> \<not> space x \<and> x \<noteq> cu CHR ''-'' \<and> x \<noteq> cu CHR ''+'' \<and> 0 \<le> digit_value x"
  by (auto simp: digit_def space_def digit_value_def cu_letters word_le_def)

lemma decimal_nonneg:
  "0 \<le> a \<Longrightarrow> \<forall>x \<in> set w. digit x \<Longrightarrow> 0 \<le> foldl (\<lambda>a c. 10 * a + digit_value c) a w"
proof (induction w arbitrary: a)
  case Nil
  then show ?case by simp
next
  case (Cons x w)
  then have "0 \<le> 10 * a + digit_value x" using digit_props [of x] by simp
  with Cons show ?case by simp
qed

lemma parseInt_digits: "digits w \<Longrightarrow> \<exists>n. parseInt w = Some n \<and> 0 \<le> n"
proof -
  assume d: "digits w"
  then obtain x xs where w: "w = x # xs" and x: "digit x" and all: "\<forall>y \<in> set w. digit y"
    by (cases w) (auto simp: digits_def)
  have 1: "dropWhile space w = w" using w x digit_props [of x] by simp
  have 2: "takeWhile digit w = w" using all by (simp add: takeWhile_eq_all_conv)
  have 3: "w \<noteq> []" "hd w \<noteq> cu CHR ''-''" "hd w \<noteq> cu CHR ''+''"
    using w x digit_props [of x] by simp_all
  have "parseInt w = Some (decimal w)"
    by (simp only: parseInt_def Let_def 1 2 3 simp_thms if_False if_True)
  moreover have "0 \<le> decimal w" unfolding decimal_def using all by (intro decimal_nonneg) simp_all
  ultimately show ?thesis by blast
qed

lemma matches_lit: "matches (lit x) w c c' \<Longrightarrow> w = [cu x] \<and> c' = c"
  unfolding lit_def by (auto elim: matches_ChrE)

lemma matches_spaces: "matches (Star (Chr space)) w c c' \<Longrightarrow> c' = c"
  using matches_no_groups [of "Star (Chr space)" w c c'] by simp

lemma matches_group_d12:
  "matches (Group n d12) w c c' \<Longrightarrow> digits w \<and> c' = c(n \<mapsto> w)"
  by (auto elim!: matches_GroupE dest!: matches_d12)

lemma matches_group_d2:
  "matches (Group n d2) w c c' \<Longrightarrow> digits w \<and> c' = c(n \<mapsto> w)"
  by (auto elim!: matches_GroupE dest!: matches_d2)

lemma matches_group_d4:
  "matches (Group n d4) w c c' \<Longrightarrow> digits w \<and> c' = c(n \<mapsto> w)"
  by (auto elim!: matches_GroupE dest!: matches_d4)

lemma matches_group_d24:
  "matches (Group n d24) w c c' \<Longrightarrow> digits w \<and> c' = c(n \<mapsto> w)"
  by (auto elim!: matches_GroupE dest!: matches_d24)

lemma matches_opt_AM_PM:
  "matches (Opt (Group n AM_PM)) w c c' \<Longrightarrow>
   c' = c \<or> (\<exists>w3. c' = c(n \<mapsto> w3) \<and> (toUpperCase w3 = js ''AM'' \<or> toUpperCase w3 = js ''PM''))"
  by (auto elim!: matches_OptE matches_GroupE dest!: matches_AM_PM)

text \<open>What the groups of the time pattern hold after a match.\<close>

lemma matches_time_re:
  assumes "matches time_re w c0 c'"
  shows "\<exists>w1 w2. c' 1 = Some w1 \<and> digits w1 \<and> c' 2 = Some w2 \<and> digits w2 \<and>
           (c' 3 = c0 3 \<or>
            (\<exists>w3. c' 3 = Some w3 \<and> (toUpperCase w3 = js ''AM'' \<or> toUpperCase w3 = js ''PM'')))"
proof -
  from assms obtain u1 r1 c1 where 1: "matches (Group 1 d12) u1 c0 c1"
      and r1: "matches (seqs [lit CHR '':'', Group 2 d2, Star (Chr space), Opt (Group 3 AM_PM)]) r1 c1 c'"
    unfolding time_re_def by (auto elim: matches_SeqE)
  from r1 obtain u2 r2 c2 where 2: "matches (lit CHR '':'') u2 c1 c2"
      and r2: "matches (seqs [Group 2 d2, Star (Chr space), Opt (Group 3 AM_PM)]) r2 c2 c'"
    by (auto elim: matches_SeqE)
  from r2 obtain u3 r3 c3 where 3: "matches (Group 2 d2) u3 c2 c3"
      and r3: "matches (seqs [Star (Chr space), Opt (Group 3 AM_PM)]) r3 c3 c'"
    by (auto elim: matches_SeqE)
  from r3 obtain u4 u5 c4 where 4: "matches (Star (Chr space)) u4 c3 c4"
      and 5: "matches (Opt (Group 3 AM_PM)) u5 c4 c'"
    by (auto elim: matches_SeqE)
  have c4: "c4 = c0(1 \<mapsto> u1, 2 \<mapsto> u3)" and d: "digits u1" "digits u3"
    using matches_group_d12 [OF 1] matches_lit [OF 2] matches_group_d2 [OF 3]
      matches_spaces [OF 4] by simp_all
  from matches_opt_AM_PM [OF 5] show ?thesis using c4 d by auto
qed


section \<open>Properties of the Date/Time Normalizer\<close>

lemma quot_rem:
  fixes q r k :: int
  assumes "0 \<le> r" "r < k"
  shows "(q * k + r) div k = q" and "(q * k + r) mod k = r"
proof -
  have k: "k \<noteq> 0" using assms by auto
  have "(q * k + r) div k = q + r div k" using k by (simp add: div_mult_self3 add.commute)
  also have "r div k = 0" using assms by (simp add: div_pos_pos_trivial)
  finally show "(q * k + r) div k = q" by simp
  have "(q * k + r) mod k = r mod k" by (simp add: mod_mult_self3 add.commute)
  then show "(q * k + r) mod k = r" using assms by (simp add: mod_pos_pos_trivial)
qed

lemma hour_of_day_time:
  fixes d h m :: int
  assumes "0 \<le> h" "h < 24" "0 \<le> m" "m < 60"
  shows "(d * 86400000 + (h * 3600000 + m * 60000)) div 3600000 mod 24 = h"
proof -
  have e: "d * 86400000 + (h * 3600000 + m * 60000) = (d * 24 + h) * 3600000 + m * 60000"
    by (simp add: algebra_simps)
  have "((d * 24 + h) * 3600000 + m * 60000) div 3600000 = d * 24 + h"
    using assms by (intro quot_rem) auto
  moreover have "(d * 24 + h) mod 24 = h" using assms by (intro quot_rem) auto
  ultimately show ?thesis by (simp only: e)
qed

lemma minute_of_day_time:
  fixes d h m :: int
  assumes "0 \<le> m" "m < 60"
  shows "(d * 86400000 + (h * 3600000 + m * 60000)) div 60000 mod 60 = m"
proof -
  have e: "d * 86400000 + (h * 3600000 + m * 60000) = ((d * 24 + h) * 60 + m) * 60000 + 0"
    by (simp add: algebra_simps)
  have "(((d * 24 + h) * 60 + m) * 60000 + 0) div 60000 = (d * 24 + h) * 60 + m"
    by (intro quot_rem) auto
  moreover have "((d * 24 + h) * 60 + m) mod 60 = m" using assms by (intro quot_rem) auto
  ultimately show ?thesis by (simp only: e)
qed

lemma second_of_day_time:
  fixes d h m :: int
  shows "(d * 86400000 + (h * 3600000 + m * 60000)) div 1000 mod 60 = 0"
    and "(d * 86400000 + (h * 3600000 + m * 60000)) mod 1000 = 0"
proof -
  have e: "d * 86400000 + (h * 3600000 + m * 60000) = (((d * 24 + h) * 60 + m) * 60) * 1000 + 0"
    by (simp add: algebra_simps)
  have "((((d * 24 + h) * 60 + m) * 60) * 1000 + 0) div 1000 = ((d * 24 + h) * 60 + m) * 60"
    by (intro quot_rem) auto
  moreover have "(((d * 24 + h) * 60 + m) * 60) mod 60 = 0" by simp
  ultimately show "(d * 86400000 + (h * 3600000 + m * 60000)) div 1000 mod 60 = 0"
    by (simp only: e)
  have "((((d * 24 + h) * 60 + m) * 60) * 1000 + 0) mod 1000 = 0"
    by (intro quot_rem) auto
  then show "(d * 86400000 + (h * 3600000 + m * 60000)) mod 1000 = 0" by (simp only: e)
qed

lemma day_of_day_time:
  fixes d h m :: int
  assumes "0 \<le> h" "h < 24" "0 \<le> m" "m < 60"
  shows "(d * 86400000 + (h * 3600000 + m * 60000)) div 86400000 = d"
  using assms by (intro quot_rem) auto


text \<open>
  \<^verbatim>\<open>setHours(h, m, 0, 0)\<close> takes the local day of the date and hands the local time \<open>h:m\<close> of
  that day to \<open>UTC\<close>. When that local time exists in the zone (its offset is the one in
  force at the resulting instant), the date reads back as \<open>h:m\<close> on the same day.
\<close>

lemma setHours_Date:
  "setHours tz (Date t) (Some h) (Some m) =
     Date (UTC tz (Day (LocalTime tz t) * 86400000 + (h * 3600000 + m * 60000)))"
  by (simp add: setHours_def MakeDate_def MakeTime_def msPerDay_def)

lemma local_time_fields:
  assumes "0 \<le> h" "h < 24" "0 \<le> m" "m < 60"
  shows "HourFromTime (d * 86400000 + (h * 3600000 + m * 60000)) = h"
    and "MinFromTime (d * 86400000 + (h * 3600000 + m * 60000)) = m"
    and "SecFromTime (d * 86400000 + (h * 3600000 + m * 60000)) = 0"
    and "msFromTime (d * 86400000 + (h * 3600000 + m * 60000)) = 0"
    and "Day (d * 86400000 + (h * 3600000 + m * 60000)) = d"
  using hour_of_day_time [OF assms] minute_of_day_time [OF assms(3,4)]
    second_of_day_time [of d h m] day_of_day_time [OF assms]
  by (simp_all add: HourFromTime_def MinFromTime_def SecFromTime_def msFromTime_def Day_def
        msPerDay_def)

lemma setHours_fields:
  assumes "0 \<le> h" "h < 24" "0 \<le> m" "m < 60"
    and "offset_utc tz (UTC tz (Day (LocalTime tz t) * 86400000 + (h * 3600000 + m * 60000))) =
         offset_local tz (Day (LocalTime tz t) * 86400000 + (h * 3600000 + m * 60000))"
  shows "getHours tz (setHours tz (Date t) (Some h) (Some m)) = Some h"
    and "getMinutes tz (setHours tz (Date t) (Some h) (Some m)) = Some m"
    and "getSeconds tz (setHours tz (Date t) (Some h) (Some m)) = Some 0"
    and "getMilliseconds tz (setHours tz (Date t) (Some h) (Some m)) = Some 0"
    and "local_day tz (setHours tz (Date t) (Some h) (Some m)) = local_day tz (Date t)"
proof -
  let ?L = "Day (LocalTime tz t) * 86400000 + (h * 3600000 + m * 60000)"
  have lt: "LocalTime tz (UTC tz ?L) = ?L"
    using assms(5) by (simp add: LocalTime_def UTC_def)
  note f = local_time_fields [OF assms(1-4), of "Day (LocalTime tz t)"]
  show "getHours tz (setHours tz (Date t) (Some h) (Some m)) = Some h"
    by (simp only: setHours_Date getHours_def getTime_def jsdate.case option.map lt f)
  show "getMinutes tz (setHours tz (Date t) (Some h) (Some m)) = Some m"
    by (simp only: setHours_Date getMinutes_def getTime_def jsdate.case option.map lt f)
  show "getSeconds tz (setHours tz (Date t) (Some h) (Some m)) = Some 0"
    by (simp only: setHours_Date getSeconds_def getTime_def jsdate.case option.map lt f)
  show "getMilliseconds tz (setHours tz (Date t) (Some h) (Some m)) = Some 0"
    by (simp only: setHours_Date getMilliseconds_def getTime_def jsdate.case option.map lt f)
  show "local_day tz (setHours tz (Date t) (Some h) (Some m)) = local_day tz (Date t)"
    by (simp only: setHours_Date local_day_def getTime_def jsdate.case option.map lt f)
qed

lemma Etc_UTC_offsets [simp]: "offset_utc Etc_UTC t = 0" "offset_local Etc_UTC t = 0"
  by (simp_all add: Etc_UTC_def)

lemma unat_cu: "unat (cu c) = of_char c"
proof -
  have "(of_char c :: nat) < 256" by (rule nat_of_char_less_256)
  also have "(256 :: nat) < 2 ^ LENGTH(16)" by simp
  finally have "(of_char c :: nat) < 2 ^ LENGTH(16)" .
  then have "(of_char c :: nat) mod 2 ^ LENGTH(16) = of_char c" by (rule mod_less)
  then show ?thesis unfolding cu_def by (simp only: unat_of_nat)
qed

lemma cu_inj [simp]: "cu c = cu d \<longleftrightarrow> c = d"
proof
  assume "cu c = cu d"
  then have "unat (cu c) = unat (cu d)" by simp
  then have "(of_char c :: nat) = of_char d" by (simp only: unat_cu)
  then show "c = d" by simp
qed simp

lemma js_inj [simp]: "js s = js t \<longleftrightarrow> s = t"
proof
  assume "js s = js t"
  then show "s = t"
    unfolding js_def
  proof (induction s arbitrary: t)
    case Nil then show ?case by simp
  next
    case (Cons c cs)
    then show ?case by (cases t) auto
  qed
qed simp

lemma to24_range:
  assumes "1 \<le> h" "h \<le> 12" "toUpperCase mer = js ''AM'' \<or> toUpperCase mer = js ''PM''"
  shows "to24 (Some mer) (Some h) =
           Some (if toUpperCase mer = js ''PM'' \<and> h \<noteq> 12 then h + 12
                 else if toUpperCase mer = js ''AM'' \<and> h = 12 then 0 else h)"
    and "to24_api (Some mer) (Some h) =
           Some (if toUpperCase mer = js ''PM'' \<and> h \<noteq> 12 then h + 12
                 else if toUpperCase mer = js ''AM'' \<and> h = 12 then 0 else h)"
    and "0 \<le> (if toUpperCase mer = js ''PM'' \<and> h \<noteq> 12 then h + 12
               else if toUpperCase mer = js ''AM'' \<and> h = 12 then 0 else h)"
    and "(if toUpperCase mer = js ''PM'' \<and> h \<noteq> 12 then h + 12
          else if toUpperCase mer = js ''AM'' \<and> h = 12 then 0 else h) < 24"
proof -
  have ne: "mer \<noteq> []" using assms(3) by (auto simp: toUpperCase_def js_def)
  show "to24 (Some mer) (Some h) =
           Some (if toUpperCase mer = js ''PM'' \<and> h \<noteq> 12 then h + 12
                 else if toUpperCase mer = js ''AM'' \<and> h = 12 then 0 else h)"
    using ne by (simp add: to24_def truthy_def)
  show "to24_api (Some mer) (Some h) =
           Some (if toUpperCase mer = js ''PM'' \<and> h \<noteq> 12 then h + 12
                 else if toUpperCase mer = js ''AM'' \<and> h = 12 then 0 else h)"
    using assms(3) by (auto simp: to24_api_def Let_def)
  show "0 \<le> (if toUpperCase mer = js ''PM'' \<and> h \<noteq> 12 then h + 12
               else if toUpperCase mer = js ''AM'' \<and> h = 12 then 0 else h)"
    using assms by auto
  show "(if toUpperCase mer = js ''PM'' \<and> h \<noteq> 12 then h + 12
          else if toUpperCase mer = js ''AM'' \<and> h = 12 then 0 else h) < 24"
    using assms by auto
qed


lemma parseAppointment_no_date:
  "\<not> truthy (dateText raw) \<or> parseDate P tz (the (dateText raw)) = None \<or>
   \<not> truthy (startTime raw) \<Longrightarrow>
   parseAppointment P tz raw =
     Inr \<lparr>title = (if truthy (title_in raw) then the (title_in raw) else js ''Mathnasium Session''),
          start = None, endDate = None, rawText = rawText_in raw,
          description = None, location = None\<rparr>"
  by (auto simp: parseAppointment_def Let_def)

lemma parseAppointment_resolved:
  assumes "parseAppointment P tz raw = Inr apt" and "start apt \<noteq> None"
  shows "truthy (dateText raw) \<and> truthy (startTime raw) \<and>
         (\<exists>date. parseDate P tz (the (dateText raw)) = Some date \<and>
            start apt = parseDateTime tz (Some date) (startTime raw) \<and>
            endDate apt =
              (if truthy (endTime raw) then parseDateTime tz (Some date) (endTime raw)
               else Some (new_Date_number
                            (map_option (\<lambda>t. t + 60 * 60 * 1000) (getTime (the (start apt)))))))"
proof -
  have "\<not> (\<not> truthy (dateText raw) \<or> parseDate P tz (the (dateText raw)) = None \<or>
            \<not> truthy (startTime raw))"
  proof
    assume "\<not> truthy (dateText raw) \<or> parseDate P tz (the (dateText raw)) = None \<or>
            \<not> truthy (startTime raw)"
    from parseAppointment_no_date [OF this] assms show False by simp
  qed
  then have d: "truthy (dateText raw)" "parseDate P tz (the (dateText raw)) \<noteq> None"
    "truthy (startTime raw)"
    by auto
  then obtain date where date: "parseDate P tz (the (dateText raw)) = Some date" by auto
  show ?thesis
    using assms d date
    by (auto simp: parseAppointment_def Let_def split: if_splits option.splits)
qed

lemma matches_sep: "matches sep w c c' \<Longrightarrow> c' = c"
  using matches_no_groups [of sep w c c'] by (simp add: sep_def)

lemma matches_slash_re:
  assumes "matches slash_re w c0 c'"
  shows "\<exists>w1 w2 w3. c' 1 = Some w1 \<and> digits w1 \<and> c' 2 = Some w2 \<and> digits w2 \<and>
           c' 3 = Some w3 \<and> digits w3"
proof -
  from assms obtain u1 r1 c1 where 1: "matches (Group 1 d12) u1 c0 c1"
      and r1: "matches (seqs [sep, Group 2 d12, sep, Group 3 d24]) r1 c1 c'"
    unfolding slash_re_def by (auto elim: matches_SeqE)
  from r1 obtain u2 r2 c2 where 2: "matches sep u2 c1 c2"
      and r2: "matches (seqs [Group 2 d12, sep, Group 3 d24]) r2 c2 c'"
    by (auto elim: matches_SeqE)
  from r2 obtain u3 r3 c3 where 3: "matches (Group 2 d12) u3 c2 c3"
      and r3: "matches (seqs [sep, Group 3 d24]) r3 c3 c'"
    by (auto elim: matches_SeqE)
  from r3 obtain u4 u5 c4 where 4: "matches sep u4 c3 c4"
      and 5: "matches (Group 3 d24) u5 c4 c'"
    by (auto elim: matches_SeqE)
  show ?thesis
    using matches_group_d12 [OF 1] matches_sep [OF 2] matches_group_d12 [OF 3]
      matches_sep [OF 4] matches_group_d24 [OF 5] by simp
qed

lemma numeric_date_valid: "numeric_date tz cleaned = Some d \<Longrightarrow> \<exists>t. d = Date t"
proof -
  assume a: "numeric_date tz cleaned = Some d"
  then obtain m where m: "exec slash_re cleaned = Some m"
    by (auto simp: numeric_date_def split: option.splits)
  from matches_slash_re [OF exec_sound [OF m]] obtain w1 w2 w3 where
    w: "cap m 1 = Some w1" "digits w1" "cap m 2 = Some w2" "digits w2"
       "cap m 3 = Some w3" "digits w3" by blast
  have "digits (js ''20'' @ w3)"
    using w(6) by (auto simp: digits_def digit_def js_def cu_letters)
  then have "digits (if length w3 = 2 then js ''20'' @ w3 else w3)" using w(6) by simp
  from parseInt_digits [OF this]
  obtain y where y: "parseInt (if length w3 = 2 then js ''20'' @ w3 else w3) = Some y" by blast
  obtain mo dd where p: "parseInt w1 = Some mo" "parseInt w2 = Some dd"
    using parseInt_digits [OF w(2)] parseInt_digits [OF w(4)] by blast
  show ?thesis
    using a m w(1,3,5) y p
    by (auto simp: numeric_date_def grp_def Let_def new_Date_fields_def)
qed

lemma parseDate_valid: "parseDate P tz dateStr = Some d \<Longrightarrow> \<exists>t. d = Date t"
  by (auto simp: parseDate_def Let_def new_Date_number_def getTime_def
           split: if_splits option.splits dest: numeric_date_valid)

lemma to24_Some: "\<exists>h'. to24 mer (Some h) = Some h'" "\<exists>h'. to24_api mer (Some h) = Some h'"
  by (auto simp: to24_def to24_api_def Let_def)

lemma time_groups_numbers:
  assumes "exec time_re s = Some tm"
  shows "\<exists>h m. parseInt_group (cap tm 1) = Some h \<and> parseInt_group (cap tm 2) = Some m"
proof -
  from matches_time_re [OF exec_sound [OF assms]] obtain w1 w2 where
    "cap tm 1 = Some w1" "digits w1" "cap tm 2 = Some w2" "digits w2" by blast
  then show ?thesis
    using parseInt_digits [of w1] parseInt_digits [of w2] by (auto simp: parseInt_group_def)
qed

lemma parseDateTime_valid:
  "parseDateTime tz (Some (Date t)) timeStr = Some r \<Longrightarrow> \<exists>t'. r = Date t'"
proof -
  assume a: "parseDateTime tz (Some (Date t)) timeStr = Some r"
  then obtain tm where tm: "exec time_re (the timeStr) = Some tm"
    by (auto simp: parseDateTime_def split: if_splits option.splits)
  from time_groups_numbers [OF tm] obtain h m where
    hm: "parseInt_group (cap tm 1) = Some h" "parseInt_group (cap tm 2) = Some m" by blast
  obtain h' where "to24 (cap tm 3) (Some h) = Some h'" using to24_Some(1) by blast
  then show ?thesis
    using a tm hm by (auto simp: parseDateTime_def Let_def setHours_def split: if_splits)
qed

text \<open>An appointment of src/scraper.js that has a start has valid dates.\<close>

lemma parseAppointment_valid:
  assumes "parseAppointment P tz raw = Inr apt" and "start apt \<noteq> None"
  shows "\<exists>ts. start apt = Some (Date ts) \<and>
           (\<forall>e. endDate apt = Some e \<longrightarrow> (\<exists>te. e = Date te)) \<and>
           (\<not> truthy (endTime raw) \<longrightarrow> endDate apt = Some (Date (ts + 60 * 60 * 1000)))"
proof -
  from parseAppointment_resolved [OF assms] obtain date where
    d: "parseDate P tz (the (dateText raw)) = Some date"
    and s: "start apt = parseDateTime tz (Some date) (startTime raw)"
    and e: "endDate apt =
              (if truthy (endTime raw) then parseDateTime tz (Some date) (endTime raw)
               else Some (new_Date_number
                            (map_option (\<lambda>t. t + 60 * 60 * 1000) (getTime (the (start apt))))))"
    by blast
  from parseDate_valid [OF d] obtain t where t: "date = Date t" by blast
  from assms(2) s t obtain st where st: "parseDateTime tz (Some (Date t)) (startTime raw) = Some st"
    by auto
  from parseDateTime_valid [OF st] obtain ts where ts: "st = Date ts" by blast
  have 1: "start apt = Some (Date ts)" using s t st ts by simp
  have 2: "\<exists>te. x = Date te" if "endDate apt = Some x" for x
  proof (cases "truthy (endTime raw)")
    case True
    with e that t have "parseDateTime tz (Some (Date t)) (endTime raw) = Some x" by simp
    from parseDateTime_valid [OF this] show ?thesis .
  next
    case False
    with e that 1 show ?thesis by (auto simp: getTime_def new_Date_number_def)
  qed
  have 3: "endDate apt = Some (Date (ts + 60 * 60 * 1000))" if "\<not> truthy (endTime raw)"
    using that e 1 by (simp add: getTime_def new_Date_number_def)
  show ?thesis using 1 2 3 by blast
qed

lemma groups_range_sep: "groups (Plus range_sep) = {}"
  by (simp add: Plus_def range_sep_def lit_def)

lemma matches_range_sep: "matches (Plus range_sep) w c c' \<Longrightarrow> c' = c"
  using matches_no_groups [of "Plus range_sep" w c c'] groups_range_sep by simp


lemma matches_range_tail:
  assumes "matches range_tail w c0 c'"
  shows "c' 1 = c0 1 \<and> c' 2 = c0 2 \<and>
         (\<exists>w4 w5. c' 4 = Some w4 \<and> digits w4 \<and> c' 5 = Some w5 \<and> digits w5)"
proof -
  from assms obtain u1 r1 c1 where 1: "matches (Star (Chr space)) u1 c0 c1"
      and r1: "matches (seqs [Plus range_sep, Star (Chr space), Group 4 d12, lit CHR '':'',
                 Group 5 d2, Star (Chr space), Opt (Group 6 AM_PM)]) r1 c1 c'"
    unfolding range_tail_def by (auto elim: matches_SeqE)
  from r1 obtain u2 r2 c2 where 2: "matches (Plus range_sep) u2 c1 c2"
      and r2: "matches (seqs [Star (Chr space), Group 4 d12, lit CHR '':'',
                 Group 5 d2, Star (Chr space), Opt (Group 6 AM_PM)]) r2 c2 c'"
    by (auto elim: matches_SeqE)
  from r2 obtain u3 r3 c3 where 3: "matches (Star (Chr space)) u3 c2 c3"
      and r3: "matches (seqs [Group 4 d12, lit CHR '':'',
                 Group 5 d2, Star (Chr space), Opt (Group 6 AM_PM)]) r3 c3 c'"
    by (auto elim: matches_SeqE)
  from r3 obtain u4 r4 c4 where 4: "matches (Group 4 d12) u4 c3 c4"
      and r4: "matches (seqs [lit CHR '':'', Group 5 d2, Star (Chr space),
                 Opt (Group 6 AM_PM)]) r4 c4 c'"
    by (auto elim: matches_SeqE)
  from r4 obtain u5 r5 c5 where 5: "matches (lit CHR '':'') u5 c4 c5"
      and r5: "matches (seqs [Group 5 d2, Star (Chr space), Opt (Group 6 AM_PM)]) r5 c5 c'"
    by (auto elim: matches_SeqE)
  from r5 obtain u6 r6 c6 where 6: "matches (Group 5 d2) u6 c5 c6"
      and r6: "matches (seqs [Star (Chr space), Opt (Group 6 AM_PM)]) r6 c6 c'"
    by (auto elim: matches_SeqE)
  from r6 obtain u7 u8 c7 where 7: "matches (Star (Chr space)) u7 c6 c7"
      and 8: "matches (Opt (Group 6 AM_PM)) u8 c7 c'"
    by (auto elim: matches_SeqE)
  have c7: "c7 = c0(4 \<mapsto> u4, 5 \<mapsto> u6)" and d: "digits u4" "digits u6"
    using matches_spaces [OF 1] matches_range_sep [OF 2] matches_spaces [OF 3]
      matches_group_d12 [OF 4] matches_lit [OF 5] matches_group_d2 [OF 6]
      matches_spaces [OF 7] by simp_all
  from matches_opt_AM_PM [OF 8] show ?thesis using c7 d by auto
qed

lemma matches_timePattern:
  assumes "matches timePattern w c0 c'"
  shows "(\<exists>w1 w2. c' 1 = Some w1 \<and> digits w1 \<and> c' 2 = Some w2 \<and> digits w2) \<and>
         (c' 4 = c0 4 \<or> (\<exists>w4 w5. c' 4 = Some w4 \<and> digits w4 \<and> c' 5 = Some w5 \<and> digits w5))"
proof -
  have tp: "timePattern =
      seqs [Group 1 d12, lit CHR '':'', Group 2 d2, Star (Chr space), Opt (Group 3 AM_PM),
            Opt range_tail]"
    by (simp add: timePattern_def range_tail_def)
  from assms obtain u1 r1 c1 where 1: "matches (Group 1 d12) u1 c0 c1"
      and r1: "matches (seqs [lit CHR '':'', Group 2 d2, Star (Chr space), Opt (Group 3 AM_PM),
                 Opt range_tail]) r1 c1 c'"
    unfolding tp by (auto elim: matches_SeqE)
  from r1 obtain u2 r2 c2 where 2: "matches (lit CHR '':'') u2 c1 c2"
      and r2: "matches (seqs [Group 2 d2, Star (Chr space), Opt (Group 3 AM_PM),
                 Opt range_tail]) r2 c2 c'"
    by (auto elim: matches_SeqE)
  from r2 obtain u3 r3 c3 where 3: "matches (Group 2 d2) u3 c2 c3"
      and r3: "matches (seqs [Star (Chr space), Opt (Group 3 AM_PM), Opt range_tail]) r3 c3 c'"
    by (auto elim: matches_SeqE)
  from r3 obtain u4 r4 c4 where 4: "matches (Star (Chr space)) u4 c3 c4"
      and r4: "matches (seqs [Opt (Group 3 AM_PM), Opt range_tail]) r4 c4 c'"
    by (auto elim: matches_SeqE)
  from r4 obtain u5 u6 c5 where 5: "matches (Opt (Group 3 AM_PM)) u5 c4 c5"
      and 6: "matches (Opt range_tail) u6 c5 c'"
    by (auto elim: matches_SeqE)
  have c4: "c4 = c0(1 \<mapsto> u1, 2 \<mapsto> u3)" and d: "digits u1" "digits u3"
    using matches_group_d12 [OF 1] matches_lit [OF 2] matches_group_d2 [OF 3]
      matches_spaces [OF 4] by simp_all
  from matches_opt_AM_PM [OF 5] c4
  have c5: "c5 1 = Some u1" "c5 2 = Some u3" "c5 4 = c0 4" by auto
  from 6 have "c' = c5 \<or> matches range_tail u6 c5 c'" by (auto elim: matches_OptE)
  then show ?thesis
  proof
    assume "c' = c5"
    with c5 d show ?thesis by auto
  next
    assume "matches range_tail u6 c5 c'"
    from matches_range_tail [OF this] c5 d show ?thesis by auto
  qed
qed

lemma setHours_valid: "\<exists>t'. setHours tz (Date t) (Some h) (Some m) = Date t'"
  by (simp add: setHours_def)

text \<open>An appointment of api/calendar.js built from a match of the time pattern has valid dates.\<close>

lemma parseAppointment_api_valid:
  assumes "exec timePattern text = Some tm"
    and "parseAppointment_api P tz dateStr tm contextText = Some apt"
  shows "\<exists>t ts te. resolve_date P tz dateStr = Date t \<and>
           start apt = Some (Date ts) \<and> endDate apt = Some (Date te)"
proof -
  from matches_timePattern [OF exec_sound [OF assms(1)]] obtain w1 w2 where
    w: "cap tm 1 = Some w1" "digits w1" "cap tm 2 = Some w2" "digits w2"
    and e: "cap tm 4 = None \<or>
            (\<exists>w4 w5. cap tm 4 = Some w4 \<and> digits w4 \<and> cap tm 5 = Some w5 \<and> digits w5)"
    by blast
  obtain h m where hm: "parseInt_group (cap tm 1) = Some h" "parseInt_group (cap tm 2) = Some m"
    using w parseInt_digits [of w1] parseInt_digits [of w2] by (auto simp: parseInt_group_def)
  obtain h' where h': "to24_api (cap tm 3) (Some h) = Some h'" using to24_Some(2) by blast
  from assms(2) obtain t where t: "resolve_date P tz dateStr = Date t"
    by (cases "resolve_date P tz dateStr")
       (auto simp: parseAppointment_api_def Let_def getTime_def split: if_splits)
  obtain ts where ts: "setHours tz (Date t) (Some h') (Some m) = Date ts"
    using setHours_valid by blast
  have s: "start apt = Some (Date ts)"
    using assms(2) t hm h' ts
    by (auto simp: parseAppointment_api_def Let_def getTime_def split: if_splits)
  have "\<exists>te. endDate apt = Some (Date te)"
  proof (cases "truthy (cap tm 4)")
    case True
    with e obtain w4 w5 where w45: "cap tm 4 = Some w4" "digits w4" "cap tm 5 = Some w5" "digits w5"
      by (auto simp: truthy_def)
    obtain eh em where ehm: "parseInt_group (cap tm 4) = Some eh"
        "parseInt_group (cap tm 5) = Some em"
      using w45 parseInt_digits [of w4] parseInt_digits [of w5] by (auto simp: parseInt_group_def)
    obtain eh' where eh': "to24_api (cap tm 6) (Some eh) = Some eh'" using to24_Some(2) by blast
    obtain te where "setHours tz (Date t) (Some eh') (Some em) = Date te"
      using setHours_valid by blast
    then show ?thesis
      using assms(2) t True ehm eh'
      by (auto simp: parseAppointment_api_def Let_def getTime_def split: if_splits)
  next
    case False
    then show ?thesis
      using assms(2) t hm h' ts
      by (auto simp: parseAppointment_api_def Let_def getTime_def new_Date_number_def
               split: if_splits)
  qed
  with t s show ?thesis by blast
qed

lemma exec_time_re_Nil: "exec time_re [] = None"
  by code_simp

text \<open>
  C4. For a parsed time whose hour group reads \<open>h\<close> from 1 to 12, whose minute group reads
  \<open>mi\<close> below 60 and whose meridiem group is AM or PM in any case, let \<open>h24\<close> be \<open>h + 12\<close> for
  PM with \<open>h \<noteq> 12\<close>, 0 for AM with \<open>h = 12\<close>, and \<open>h\<close> otherwise. parseDateTime of
  src/scraper.js, given a date, returns that date with \<^verbatim>\<open>setHours(h24, mi, 0, 0)\<close> applied, and
  parseAppointment of api/calendar.js, given a date string that resolves, returns an
  appointment whose start is the resolved date with \<^verbatim>\<open>setHours(h24, mi, 0, 0)\<close> applied. That
  date is the instant of the local time \<open>h24:mi:00.000\<close> on the local day of the date, and
  wherever that local time exists in the zone of the process (always in UTC; everywhere
  but in the hour a change to daylight saving skips) it reads back with the hour \<open>h24\<close> and
  the minute \<open>mi\<close> on the same day.
\<close>

theorem meridiem_conversion_exact:
  assumes "parseInt_group (cap tm 1) = Some h" and "1 \<le> h" and "h \<le> 12"
    and "parseInt_group (cap tm 2) = Some mi" and "0 \<le> mi" and "mi < 60"
    and "cap tm 3 = Some mer" and "toUpperCase mer = js ''AM'' \<or> toUpperCase mer = js ''PM''"
    and "h24 = (if toUpperCase mer = js ''PM'' \<and> h \<noteq> 12 then h + 12
                else if toUpperCase mer = js ''AM'' \<and> h = 12 then 0 else h)"
    and "local = Day (LocalTime tz t) * 86400000 + (h24 * 3600000 + mi * 60000)"
  shows "(exec time_re timeStr = Some tm \<longrightarrow>
            parseDateTime tz (Some (Date t)) (Some timeStr) =
              Some (setHours tz (Date t) (Some h24) (Some mi)))
       \<and> (resolve_date P tz dateStr = Date t \<longrightarrow>
            (\<exists>apt. parseAppointment_api P tz dateStr tm contextText = Some apt \<and>
                   start apt = Some (setHours tz (Date t) (Some h24) (Some mi))))
       \<and> setHours tz (Date t) (Some h24) (Some mi) = Date (UTC tz local)
       \<and> HourFromTime local = h24 \<and> MinFromTime local = mi \<and> SecFromTime local = 0
       \<and> msFromTime local = 0 \<and> Day local = Day (LocalTime tz t)
       \<and> (offset_utc tz (UTC tz local) = offset_local tz local \<longrightarrow>
            getHours tz (setHours tz (Date t) (Some h24) (Some mi)) = Some h24 \<and>
            getMinutes tz (setHours tz (Date t) (Some h24) (Some mi)) = Some mi \<and>
            getSeconds tz (setHours tz (Date t) (Some h24) (Some mi)) = Some 0 \<and>
            getMilliseconds tz (setHours tz (Date t) (Some h24) (Some mi)) = Some 0 \<and>
            local_day tz (setHours tz (Date t) (Some h24) (Some mi)) = local_day tz (Date t))"
proof -
  note r = to24_range [OF assms(2,3,8)]
  have h24: "0 \<le> h24" "h24 < 24" using r(3,4) assms(9) by simp_all
  have t1: "to24 (Some mer) (Some h) = Some h24" using r(1) assms(9) by simp
  have t2: "to24_api (Some mer) (Some h) = Some h24" using r(2) assms(9) by simp
  have 1: "parseDateTime tz (Some (Date t)) (Some timeStr) =
              Some (setHours tz (Date t) (Some h24) (Some mi))"
    if e: "exec time_re timeStr = Some tm"
  proof -
    from e have ne: "timeStr \<noteq> []" using exec_time_re_Nil by auto
    show ?thesis
      using e ne assms(1,4,7) t1 by (simp add: parseDateTime_def truthy_def Let_def)
  qed
  have 2: "\<exists>apt. parseAppointment_api P tz dateStr tm contextText = Some apt \<and>
                   start apt = Some (setHours tz (Date t) (Some h24) (Some mi))"
    if d: "resolve_date P tz dateStr = Date t"
    using d assms(1,4,7) t2 by (simp add: parseAppointment_api_def Let_def getTime_def)
  have 3: "setHours tz (Date t) (Some h24) (Some mi) = Date (UTC tz local)"
    by (simp only: setHours_Date assms(10))
  note f = local_time_fields [OF h24 assms(5,6), of "Day (LocalTime tz t)"]
  have 4: "HourFromTime local = h24" "MinFromTime local = mi" "SecFromTime local = 0"
    "msFromTime local = 0" "Day local = Day (LocalTime tz t)"
    by (simp_all only: assms(10) f)
  have 5: "getHours tz (setHours tz (Date t) (Some h24) (Some mi)) = Some h24 \<and>
            getMinutes tz (setHours tz (Date t) (Some h24) (Some mi)) = Some mi \<and>
            getSeconds tz (setHours tz (Date t) (Some h24) (Some mi)) = Some 0 \<and>
            getMilliseconds tz (setHours tz (Date t) (Some h24) (Some mi)) = Some 0 \<and>
            local_day tz (setHours tz (Date t) (Some h24) (Some mi)) = local_day tz (Date t)"
    if "offset_utc tz (UTC tz local) = offset_local tz local"
    using setHours_fields [OF h24 assms(5,6), of tz t] that by (simp only: assms(10) simp_thms)
  show ?thesis using 1 2 3 4 5 by blast
qed

lemma time_re_examples:
  "map (\<lambda>s. map_option (\<lambda>m. (cap m 1, cap m 2, cap m 3)) (exec time_re s))
       [js ''12:00 AM'', js ''12:00 PM'', js ''1:05 PM'', js ''11:59 PM''] =
     [Some (Some (js ''12''), Some (js ''00''), Some (js ''AM'')),
      Some (Some (js ''12''), Some (js ''00''), Some (js ''PM'')),
      Some (Some (js ''1''), Some (js ''05''), Some (js ''PM'')),
      Some (Some (js ''11''), Some (js ''59''), Some (js ''PM''))]"
  by code_simp

lemma timePattern_examples:
  "map (\<lambda>s. map_option (\<lambda>m. (cap m 1, cap m 2, cap m 3)) (exec timePattern s))
       [js ''12:00 AM'', js ''12:00 PM'', js ''1:05 PM'', js ''11:59 PM''] =
     [Some (Some (js ''12''), Some (js ''00''), Some (js ''AM'')),
      Some (Some (js ''12''), Some (js ''00''), Some (js ''PM'')),
      Some (Some (js ''1''), Some (js ''05''), Some (js ''PM'')),
      Some (Some (js ''11''), Some (js ''59''), Some (js ''PM''))]"
  by code_simp

lemma parseInt_examples:
  "map parseInt [js ''12'', js ''00'', js ''1'', js ''05'', js ''11'', js ''59''] =
     [Some 12, Some 0, Some 1, Some 5, Some 11, Some 59]"
  by code_simp

lemma toUpperCase_examples:
  "toUpperCase (js ''AM'') = js ''AM''" "toUpperCase (js ''PM'') = js ''PM''"
  by code_simp+

lemma resolve_date_example:
  "resolve_date (\<lambda>s. None) Etc_UTC (js ''1/15/26'') = Date 1768435200000"
  by code_simp

text \<open>
  12:00 AM is 00:00, 12:00 PM is 12:00, 1:05 PM is 13:05 and 11:59 PM is 23:59, through
  parseDateTime of src/scraper.js on 15 January 2026 and through the time pattern and
  parseAppointment of api/calendar.js with the date string 1/15/26.
\<close>

theorem meridiem_conversion_exact_witness:
  "map (\<lambda>s. map_option (\<lambda>r. (getHours Etc_UTC r, getMinutes Etc_UTC r))
              (parseDateTime Etc_UTC (Some (Date 1768435200000)) (Some s)))
       [js ''12:00 AM'', js ''12:00 PM'', js ''1:05 PM'', js ''11:59 PM''] =
     [Some (Some 0, Some 0), Some (Some 12, Some 0), Some (Some 13, Some 5),
      Some (Some 23, Some 59)]
   \<and> map (\<lambda>s. Option.bind (exec timePattern s)
                (\<lambda>tm. Option.bind (parseAppointment_api (\<lambda>s. None) Etc_UTC (js ''1/15/26'') tm s)
                   (\<lambda>apt. map_option (\<lambda>r. (getHours Etc_UTC r, getMinutes Etc_UTC r))
                                       (start apt))))
       [js ''12:00 AM'', js ''12:00 PM'', js ''1:05 PM'', js ''11:59 PM''] =
     [Some (Some 0, Some 0), Some (Some 12, Some 0), Some (Some 13, Some 5),
      Some (Some 23, Some 59)]"
proof -
  have scraper: "map_option (\<lambda>r. (getHours Etc_UTC r, getMinutes Etc_UTC r))
              (parseDateTime Etc_UTC (Some (Date 1768435200000)) (Some s)) =
            Some (Some h24, Some mi)"
    if "map_option (\<lambda>m. (cap m 1, cap m 2, cap m 3)) (exec time_re s) =
          Some (Some hs, Some ms, Some mer)"
      and "parseInt hs = Some h" and "1 \<le> h" and "h \<le> 12"
      and "parseInt ms = Some mi" and "0 \<le> mi" and "mi < 60"
      and "toUpperCase mer = js ''AM'' \<or> toUpperCase mer = js ''PM''"
      and "h24 = (if toUpperCase mer = js ''PM'' \<and> h \<noteq> 12 then h + 12
                  else if toUpperCase mer = js ''AM'' \<and> h = 12 then 0 else h)"
    for s hs ms mer h mi h24
  proof -
    from that(1) obtain tm where tm: "exec time_re s = Some tm" "cap tm 1 = Some hs"
        "cap tm 2 = Some ms" "cap tm 3 = Some mer"
      by (cases "exec time_re s") auto
    have g: "parseInt_group (cap tm 1) = Some h" "parseInt_group (cap tm 2) = Some mi"
      using tm that(2,5) by (simp_all add: parseInt_group_def)
    note th = meridiem_conversion_exact [OF g(1) that(3,4) g(2) that(6,7) tm(4) that(8,9) refl,
        of s Etc_UTC 1768435200000 "\<lambda>s. None" "[]" "[]"]
    from th tm(1) have p: "parseDateTime Etc_UTC (Some (Date 1768435200000)) (Some s) =
        Some (setHours Etc_UTC (Date 1768435200000) (Some h24) (Some mi))"
      by blast
    have "offset_utc Etc_UTC u = offset_local Etc_UTC v" for u v by simp
    with th have "getHours Etc_UTC (setHours Etc_UTC (Date 1768435200000) (Some h24) (Some mi)) =
        Some h24"
      "getMinutes Etc_UTC (setHours Etc_UTC (Date 1768435200000) (Some h24) (Some mi)) = Some mi"
      by blast+
    then show ?thesis by (simp only: p option.map)
  qed
  have api: "Option.bind (exec timePattern s)
                (\<lambda>tm. Option.bind (parseAppointment_api (\<lambda>s. None) Etc_UTC (js ''1/15/26'') tm s)
                   (\<lambda>apt. map_option (\<lambda>r. (getHours Etc_UTC r, getMinutes Etc_UTC r))
                                       (start apt))) =
            Some (Some h24, Some mi)"
    if "map_option (\<lambda>m. (cap m 1, cap m 2, cap m 3)) (exec timePattern s) =
          Some (Some hs, Some ms, Some mer)"
      and "parseInt hs = Some h" and "1 \<le> h" and "h \<le> 12"
      and "parseInt ms = Some mi" and "0 \<le> mi" and "mi < 60"
      and "toUpperCase mer = js ''AM'' \<or> toUpperCase mer = js ''PM''"
      and "h24 = (if toUpperCase mer = js ''PM'' \<and> h \<noteq> 12 then h + 12
                  else if toUpperCase mer = js ''AM'' \<and> h = 12 then 0 else h)"
    for s hs ms mer h mi h24
  proof -
    from that(1) obtain tm where tm: "exec timePattern s = Some tm" "cap tm 1 = Some hs"
        "cap tm 2 = Some ms" "cap tm 3 = Some mer"
      by (cases "exec timePattern s") auto
    have g: "parseInt_group (cap tm 1) = Some h" "parseInt_group (cap tm 2) = Some mi"
      using tm that(2,5) by (simp_all add: parseInt_group_def)
    note th = meridiem_conversion_exact [OF g(1) that(3,4) g(2) that(6,7) tm(4) that(8,9) refl,
        of "[]" Etc_UTC 1768435200000 "\<lambda>s. None" "js ''1/15/26''" s]
    from th resolve_date_example
    obtain apt where p: "parseAppointment_api (\<lambda>s. None) Etc_UTC (js ''1/15/26'') tm s = Some apt"
      "start apt = Some (setHours Etc_UTC (Date 1768435200000) (Some h24) (Some mi))"
      by blast
    have "offset_utc Etc_UTC u = offset_local Etc_UTC v" for u v by simp
    with th have "getHours Etc_UTC (setHours Etc_UTC (Date 1768435200000) (Some h24) (Some mi)) =
        Some h24"
      "getMinutes Etc_UTC (setHours Etc_UTC (Date 1768435200000) (Some h24) (Some mi)) = Some mi"
      by blast+
    then show ?thesis by (simp only: tm(1) p bind.bind_lunit option.map)
  qed
  note ex = time_re_examples timePattern_examples parseInt_examples toUpperCase_examples
  have s1: "map_option (\<lambda>r. (getHours Etc_UTC r, getMinutes Etc_UTC r))
              (parseDateTime Etc_UTC (Some (Date 1768435200000)) (Some (js ''12:00 AM''))) =
            Some (Some 0, Some 0)"
    using ex by (intro scraper [of _ "js ''12''" "js ''00''" "js ''AM''" 12 0]) simp_all
  have s2: "map_option (\<lambda>r. (getHours Etc_UTC r, getMinutes Etc_UTC r))
              (parseDateTime Etc_UTC (Some (Date 1768435200000)) (Some (js ''12:00 PM''))) =
            Some (Some 12, Some 0)"
    using ex by (intro scraper [of _ "js ''12''" "js ''00''" "js ''PM''" 12 0]) simp_all
  have s3: "map_option (\<lambda>r. (getHours Etc_UTC r, getMinutes Etc_UTC r))
              (parseDateTime Etc_UTC (Some (Date 1768435200000)) (Some (js ''1:05 PM''))) =
            Some (Some 13, Some 5)"
    using ex by (intro scraper [of _ "js ''1''" "js ''05''" "js ''PM''" 1 5]) simp_all
  have s4: "map_option (\<lambda>r. (getHours Etc_UTC r, getMinutes Etc_UTC r))
              (parseDateTime Etc_UTC (Some (Date 1768435200000)) (Some (js ''11:59 PM''))) =
            Some (Some 23, Some 59)"
    using ex by (intro scraper [of _ "js ''11''" "js ''59''" "js ''PM''" 11 59]) simp_all
  have a1: "Option.bind (exec timePattern (js ''12:00 AM''))
                (\<lambda>tm. Option.bind (parseAppointment_api (\<lambda>s. None) Etc_UTC (js ''1/15/26'') tm
                                      (js ''12:00 AM''))
                   (\<lambda>apt. map_option (\<lambda>r. (getHours Etc_UTC r, getMinutes Etc_UTC r))
                                       (start apt))) = Some (Some 0, Some 0)"
    using ex by (intro api [of _ "js ''12''" "js ''00''" "js ''AM''" 12 0]) simp_all
  have a2: "Option.bind (exec timePattern (js ''12:00 PM''))
                (\<lambda>tm. Option.bind (parseAppointment_api (\<lambda>s. None) Etc_UTC (js ''1/15/26'') tm
                                      (js ''12:00 PM''))
                   (\<lambda>apt. map_option (\<lambda>r. (getHours Etc_UTC r, getMinutes Etc_UTC r))
                                       (start apt))) = Some (Some 12, Some 0)"
    using ex by (intro api [of _ "js ''12''" "js ''00''" "js ''PM''" 12 0]) simp_all
  have a3: "Option.bind (exec timePattern (js ''1:05 PM''))
                (\<lambda>tm. Option.bind (parseAppointment_api (\<lambda>s. None) Etc_UTC (js ''1/15/26'') tm
                                      (js ''1:05 PM''))
                   (\<lambda>apt. map_option (\<lambda>r. (getHours Etc_UTC r, getMinutes Etc_UTC r))
                                       (start apt))) = Some (Some 13, Some 5)"
    using ex by (intro api [of _ "js ''1''" "js ''05''" "js ''PM''" 1 5]) simp_all
  have a4: "Option.bind (exec timePattern (js ''11:59 PM''))
                (\<lambda>tm. Option.bind (parseAppointment_api (\<lambda>s. None) Etc_UTC (js ''1/15/26'') tm
                                      (js ''11:59 PM''))
                   (\<lambda>apt. map_option (\<lambda>r. (getHours Etc_UTC r, getMinutes Etc_UTC r))
                                       (start apt))) = Some (Some 23, Some 59)"
    using ex by (intro api [of _ "js ''11''" "js ''59''" "js ''PM''" 11 59]) simp_all
  from s1 s2 s3 s4 a1 a2 a3 a4 show ?thesis by simp
qed

lemma parseAppointment_api_total:
  assumes "exec timePattern text = Some tm" and "resolve_date P tz dateStr = Date t"
  shows "\<exists>apt ts.
           parseAppointment_api P tz dateStr tm contextText = Some apt \<and>
           start apt = Some (Date ts) \<and>
           Date ts = setHours tz (Date t) (to24_api (cap tm 3) (parseInt_group (cap tm 1)))
                       (parseInt_group (cap tm 2)) \<and>
           endDate apt =
             Some (if truthy (cap tm 4)
                   then setHours tz (Date t) (to24_api (cap tm 6) (parseInt_group (cap tm 4)))
                          (parseInt_group (cap tm 5))
                   else Date (ts + 60 * 60 * 1000))"
proof -
  from matches_timePattern [OF exec_sound [OF assms(1)]] obtain w1 w2 where
    w: "cap tm 1 = Some w1" "digits w1" "cap tm 2 = Some w2" "digits w2"
    by blast
  obtain h m where hm: "parseInt_group (cap tm 1) = Some h" "parseInt_group (cap tm 2) = Some m"
    using w parseInt_digits [of w1] parseInt_digits [of w2] by (auto simp: parseInt_group_def)
  obtain h' where h': "to24_api (cap tm 3) (Some h) = Some h'" using to24_Some(2) by blast
  obtain ts where ts: "setHours tz (Date t) (Some h') (Some m) = Date ts"
    using setHours_valid by blast
  show ?thesis
    using assms(2) hm h' ts
    by (simp add: parseAppointment_api_def Let_def getTime_def new_Date_number_def)
qed

lemma parseAppointment_total:
  assumes "truthy (dateText raw)" and "parseDate P tz (the (dateText raw)) = Some date"
    and "truthy (startTime raw)" and "exec time_re (the (startTime raw)) = Some tm"
    and "\<not> truthy (endTime raw)"
  shows "\<exists>apt ts. parseAppointment P tz raw = Inr apt \<and>
           start apt = parseDateTime tz (Some date) (startTime raw) \<and>
           start apt = Some (Date ts) \<and> endDate apt = Some (Date (ts + 60 * 60 * 1000))"
proof -
  from parseDate_valid [OF assms(2)] obtain t where t: "date = Date t" by blast
  from time_groups_numbers [OF assms(4)] obtain h m where
    hm: "parseInt_group (cap tm 1) = Some h" "parseInt_group (cap tm 2) = Some m" by blast
  obtain h' where h': "to24 (cap tm 3) (Some h) = Some h'" using to24_Some(1) by blast
  obtain ts where ts: "setHours tz (Date t) (Some h') (Some m) = Date ts"
    using setHours_valid by blast
  have p: "parseDateTime tz (Some date) (startTime raw) = Some (Date ts)"
    using assms(3,4) t hm h' ts by (simp add: parseDateTime_def Let_def)
  show ?thesis
    using assms(1,2,3,5) p
    by (simp add: parseAppointment_def Let_def getTime_def new_Date_number_def)
qed

text \<open>
  C5. src/scraper.js: a candidate with a date text that resolves, a start time that the
  time pattern matches and no end time gives an appointment whose end is exactly 60
  minutes (3600000 ms) after its start; and whenever parseAppointment returns an appointment
  with a valid start, the end is that start plus 60 minutes if no end time was captured,
  and otherwise parseDateTime of the end time on the very date parseDate returned for the
  start. api/calendar.js: for a match of the time pattern and a date string that resolves,
  parseAppointment returns an appointment with a valid start; its end is the start plus
  exactly 60 minutes if the match has no second hour, and otherwise the resolved date with
  \<^verbatim>\<open>setHours\<close> of the second hour and minute after the same conversion to the 24-hour clock.
\<close>

theorem default_duration_and_end_time:
  "(truthy (dateText raw) \<and> parseDate P tz (the (dateText raw)) = Some date \<and>
    truthy (startTime raw) \<and> exec time_re (the (startTime raw)) = Some sm \<and>
    \<not> truthy (endTime raw) \<longrightarrow>
      (\<exists>apt ts. parseAppointment P tz raw = Inr apt \<and> start apt = Some (Date ts) \<and>
                endDate apt = Some (Date (ts + 60 * 60 * 1000))))
   \<and> (\<forall>apt ts. parseAppointment P tz raw = Inr apt \<and> start apt = Some (Date ts) \<longrightarrow>
      (\<not> truthy (endTime raw) \<longrightarrow> endDate apt = Some (Date (ts + 60 * 60 * 1000))) \<and>
      (truthy (endTime raw) \<longrightarrow>
         (\<exists>date. parseDate P tz (the (dateText raw)) = Some date \<and>
            start apt = parseDateTime tz (Some date) (startTime raw) \<and>
            endDate apt = parseDateTime tz (Some date) (endTime raw))))
   \<and> (exec timePattern text = Some tm \<and> resolve_date P tz dateStr = Date t \<longrightarrow>
        (\<exists>apt ts.
           parseAppointment_api P tz dateStr tm contextText = Some apt \<and>
           start apt = Some (Date ts) \<and>
           Date ts = setHours tz (Date t) (to24_api (cap tm 3) (parseInt_group (cap tm 1)))
                       (parseInt_group (cap tm 2)) \<and>
           (\<not> truthy (cap tm 4) \<longrightarrow> endDate apt = Some (Date (ts + 60 * 60 * 1000))) \<and>
           (truthy (cap tm 4) \<longrightarrow>
              endDate apt =
                Some (setHours tz (Date t) (to24_api (cap tm 6) (parseInt_group (cap tm 4)))
                        (parseInt_group (cap tm 5))))))"
proof (intro conjI allI impI)
  assume "truthy (dateText raw) \<and> parseDate P tz (the (dateText raw)) = Some date \<and>
    truthy (startTime raw) \<and> exec time_re (the (startTime raw)) = Some sm \<and>
    \<not> truthy (endTime raw)"
  then show "\<exists>apt ts. parseAppointment P tz raw = Inr apt \<and> start apt = Some (Date ts) \<and>
                endDate apt = Some (Date (ts + 60 * 60 * 1000))"
    using parseAppointment_total [of raw P tz date sm] by blast
next
  fix apt ts
  assume a: "parseAppointment P tz raw = Inr apt \<and> start apt = Some (Date ts)"
  then have r: "\<exists>date. parseDate P tz (the (dateText raw)) = Some date \<and>
            start apt = parseDateTime tz (Some date) (startTime raw) \<and>
            endDate apt =
              (if truthy (endTime raw) then parseDateTime tz (Some date) (endTime raw)
               else Some (new_Date_number
                            (map_option (\<lambda>t. t + 60 * 60 * 1000) (getTime (the (start apt))))))"
    using parseAppointment_resolved [of P tz raw apt] by simp
  { assume "\<not> truthy (endTime raw)"
    then show "endDate apt = Some (Date (ts + 60 * 60 * 1000))"
      using r a by (auto simp: getTime_def new_Date_number_def) }
  { assume "truthy (endTime raw)"
    then show "\<exists>date. parseDate P tz (the (dateText raw)) = Some date \<and>
            start apt = parseDateTime tz (Some date) (startTime raw) \<and>
            endDate apt = parseDateTime tz (Some date) (endTime raw)"
      using r by auto }
next
  assume "exec timePattern text = Some tm \<and> resolve_date P tz dateStr = Date t"
  then have "exec timePattern text = Some tm" "resolve_date P tz dateStr = Date t" by simp_all
  from parseAppointment_api_total [OF this, of contextText] obtain apt ts where
    a: "parseAppointment_api P tz dateStr tm contextText = Some apt"
      "start apt = Some (Date ts)"
      "Date ts = setHours tz (Date t) (to24_api (cap tm 3) (parseInt_group (cap tm 1)))
                       (parseInt_group (cap tm 2))"
      "endDate apt =
             Some (if truthy (cap tm 4)
                   then setHours tz (Date t) (to24_api (cap tm 6) (parseInt_group (cap tm 4)))
                          (parseInt_group (cap tm 5))
                   else Date (ts + 60 * 60 * 1000))"
    by blast
  have e1: "\<not> truthy (cap tm 4) \<longrightarrow> endDate apt = Some (Date (ts + 60 * 60 * 1000))"
    by (simp add: a(4))
  have e2: "truthy (cap tm 4) \<longrightarrow>
              endDate apt =
                Some (setHours tz (Date t) (to24_api (cap tm 6) (parseInt_group (cap tm 4)))
                        (parseInt_group (cap tm 5)))"
    by (simp add: a(4))
  from a(1,2,3) e1 e2
  show "\<exists>apt ts.
           parseAppointment_api P tz dateStr tm contextText = Some apt \<and>
           start apt = Some (Date ts) \<and>
           Date ts = setHours tz (Date t) (to24_api (cap tm 3) (parseInt_group (cap tm 1)))
                       (parseInt_group (cap tm 2)) \<and>
           (\<not> truthy (cap tm 4) \<longrightarrow> endDate apt = Some (Date (ts + 60 * 60 * 1000))) \<and>
           (truthy (cap tm 4) \<longrightarrow>
              endDate apt =
                Some (setHours tz (Date t) (to24_api (cap tm 6) (parseInt_group (cap tm 4)))
                        (parseInt_group (cap tm 5))))"
    by blast
qed

lemma parseAppointment_example:
  "parseAppointment (\<lambda>s. None) Etc_UTC
     \<lparr>title_in = None, rawText_in = None, dateText = Some (js ''1/5/26''), timeText = None,
      startTime = Some (js ''9:30am''), endTime = None\<rparr> =
   Inr \<lparr>title = js ''Mathnasium Session'', start = Some (Date 1767605400000),
        endDate = Some (Date 1767609000000), rawText = None,
        description = None, location = None\<rparr>"
  by code_simp

lemma parseDate_example: "parseDate (\<lambda>s. None) Etc_UTC (js ''1/5/26'') = Some (Date 1767571200000)"
  by code_simp

lemma resolve_date_example2:
  "resolve_date (\<lambda>s. None) Etc_UTC (js ''1/5/26'') = Date 1767571200000"
  by code_simp

lemma parseAppointment_api_example:
  "map (\<lambda>s. Option.bind (exec timePattern s)
               (\<lambda>tm. map_option (\<lambda>apt. (truthy (cap tm 4), start apt, endDate apt))
                        (parseAppointment_api (\<lambda>s. None) Etc_UTC (js ''1/5/26'') tm s)))
     [js ''9:30am'', js ''4:00 PM '' @ [0x2013] @ js '' 5:30 PM''] =
   [Some (False, Some (Date 1767605400000), Some (Date 1767609000000)),
    Some (True, Some (Date 1767628800000), Some (Date 1767634200000))]"
  by code_simp

lemma exec_examples:
  "exec time_re (js ''9:30am'') \<noteq> None" "exec timePattern (js ''9:30am'') \<noteq> None"
  by code_simp+

text \<open>
  The date 1/5/26 with the single time 9:30am gives 09:30 to 10:30 on 5 January 2026, in
  src/scraper.js and in api/calendar.js.
\<close>

theorem default_duration_and_end_time_witness:
  "parseAppointment (\<lambda>s. None) Etc_UTC
     \<lparr>title_in = None, rawText_in = None, dateText = Some (js ''1/5/26''), timeText = None,
      startTime = Some (js ''9:30am''), endTime = None\<rparr> =
   Inr \<lparr>title = js ''Mathnasium Session'', start = Some (Date 1767605400000),
        endDate = Some (Date (1767605400000 + 60 * 60 * 1000)), rawText = None,
        description = None, location = None\<rparr>
   \<and> (\<exists>tm apt. exec timePattern (js ''9:30am'') = Some tm \<and>
         parseAppointment_api (\<lambda>s. None) Etc_UTC (js ''1/5/26'') tm (js ''9:30am'') = Some apt \<and>
         start apt = Some (Date 1767605400000) \<and>
         endDate apt = Some (Date (1767605400000 + 60 * 60 * 1000)))"
proof -
  let ?raw = "\<lparr>title_in = None, rawText_in = None, dateText = Some (js ''1/5/26''),
      timeText = None, startTime = Some (js ''9:30am''), endTime = None\<rparr>"
  obtain sm where sm: "exec time_re (js ''9:30am'') = Some sm" using exec_examples(1) by blast
  obtain tm where tm: "exec timePattern (js ''9:30am'') = Some tm"
    using exec_examples(2) by blast
  note th = default_duration_and_end_time [of ?raw "\<lambda>s. None" Etc_UTC "Date 1767571200000" sm
      "js ''9:30am''" tm "js ''1/5/26''" 1767571200000 "js ''9:30am''"]
  have "\<exists>apt ts. parseAppointment (\<lambda>s. None) Etc_UTC ?raw = Inr apt \<and>
      start apt = Some (Date ts) \<and> endDate apt = Some (Date (ts + 60 * 60 * 1000))"
    using th sm parseDate_example by (simp add: truthy_def js_def)
  then have 1: "parseAppointment (\<lambda>s. None) Etc_UTC ?raw =
   Inr \<lparr>title = js ''Mathnasium Session'', start = Some (Date 1767605400000),
        endDate = Some (Date (1767605400000 + 60 * 60 * 1000)), rawText = None,
        description = None, location = None\<rparr>"
    using parseAppointment_example by simp
  from th tm resolve_date_example2 obtain apt ts where
    a: "parseAppointment_api (\<lambda>s. None) Etc_UTC (js ''1/5/26'') tm (js ''9:30am'') = Some apt"
      "start apt = Some (Date ts)"
      "\<not> truthy (cap tm 4) \<longrightarrow> endDate apt = Some (Date (ts + 60 * 60 * 1000))"
    by blast
  from parseAppointment_api_example tm a(1)
  have "\<not> truthy (cap tm 4)" "start apt = Some (Date 1767605400000)" by simp_all
  with a tm have 2: "\<exists>tm apt. exec timePattern (js ''9:30am'') = Some tm \<and>
         parseAppointment_api (\<lambda>s. None) Etc_UTC (js ''1/5/26'') tm (js ''9:30am'') = Some apt \<and>
         start apt = Some (Date 1767605400000) \<and>
         endDate apt = Some (Date (1767605400000 + 60 * 60 * 1000))"
    by auto
  from 1 2 show ?thesis by (rule conjI)
qed


section \<open>Properties of the Calendar Encoder\<close>










lemma toISOString_example:
  "toISOString (Date 1767605400000) = Inr (js ''2026-01-05T09:30:00.000Z'')"
  "toISOString (Date 1767609000000) = Inr (js ''2026-01-05T10:30:00.000Z'')"
  "toISOString (Date 1767888000000) = Inr (js ''2026-01-08T16:00:00.000Z'')"
  "toISOString (Date 1767891600000) = Inr (js ''2026-01-08T17:00:00.000Z'')"
  by code_simp+

lemma js_append: "js a @ js b = js (a @ b)"
  by (simp add: js_def)

lemma md5_hex_example:
  "md5_hex (js ''Mathnasium Session-2026-01-05T09:30:00.000Z-2026-01-05T10:30:00.000Z'') =
     js ''e5285799baa5b0893325c288fdde0127''"
  "md5_hex (js ''2026-01-08T16:00:00.000Z-2026-01-08T17:00:00.000Z'') =
     js ''3d0789a64ad9ae86cf34e13f5b1f8962''"
  by code_simp+



lemma generateCalendar_example:
  "generateCalendar (js ''Cal'') (js ''America/New_York'')
     [\<lparr>title = js ''Mathnasium Session'', start = Some (Date 1767605400000),
       endDate = Some (Date 1767609000000), rawText = None,
       description = None, location = None\<rparr>] =
   Inr \<lparr>name = js ''Cal'', timezone = js ''America/New_York'', ttl = 3600,
        events =
          [\<lparr>uid = js ''e5285799baa5b0893325c288fdde0127@appointy-sync'',
            event_start = Date 1767605400000, event_end = Date 1767609000000,
            summary = js ''Mathnasium Session'', event_description = Some [],
            event_location = js ''Mathnasium of Portland'',
            alarms = [\<lparr>alarm_type = js ''display'', trigger = - 3600,
                       alarm_description = Some (js ''Reminder: Mathnasium Session in 1 hour'')\<rparr>,
                      \<lparr>alarm_type = js ''display'', trigger = - 86400,
                       alarm_description = Some (js ''Tomorrow: Mathnasium Session'')\<rparr>]\<rparr>]\<rparr>"
  by (simp add: generateCalendar_def generateUID_def uid_content_def iso_or_undefined_def
        toISOString_example calendar_event_def or_empty_def truthy_def js_append md5_hex_example)

lemma parseAppointmentData_example:
  "parseAppointmentData Etc_UTC
     \<lparr>title_raw = Some (js ''Mathnasium Session''), month = Some (js ''Jan''),
      day = Some (js ''08''), year = Some (js ''2026''), hour = Some (js ''4''),
      minute = Some (js ''00''), ampm = Some (js ''pm'')\<rparr> =
   Some \<lparr>title = js ''Mathnasium Session'',
         start = Some (Date 1767888000000), endDate = Some (Date 1767891600000),
         rawText = None, description = None, location = None\<rparr>"
  by code_simp

lemma generateICS_server_example:
  "generateICS_server Etc_UTC
     [\<lparr>title_raw = Some (js ''Mathnasium Session''), month = Some (js ''Jan''),
       day = Some (js ''08''), year = Some (js ''2026''), hour = Some (js ''4''),
       minute = Some (js ''00''), ampm = Some (js ''pm'')\<rparr>] (js ''Cal'') =
   Inr \<lparr>name = js ''Cal'', timezone = js ''America/New_York'', ttl = 3600,
        events =
          [\<lparr>uid = js ''3d0789a64ad9ae86cf34e13f5b1f8962@appointy'',
            event_start = Date 1767888000000, event_end = Date 1767891600000,
            summary = js ''Mathnasium Session'', event_description = None,
            event_location = js ''Mathnasium of Portland'',
            alarms = [\<lparr>alarm_type = js ''display'', trigger = - 3600,
                       alarm_description = None\<rparr>]\<rparr>]\<rparr>"
  by (simp add: generateICS_server_def parseAppointmentData_example uid_server_def
        server_content_def iso_required_def toISOString_example one_alarm_event_def js_append
        md5_hex_example)


text \<open>
  The identifier the code computes for the appointment of 5 January 2026, 09:30 to 10:30:
  the MD5 digest of \<open>Mathnasium Session-2026-01-05T09:30:00.000Z-2026-01-05T10:30:00.000Z\<close>
  with the suffix \<open>@appointy-sync\<close>, handed to \<^verbatim>\<open>createEvent\<close> under the key \<^verbatim>\<open>uid\<close>
  (C6).
\<close>

theorem event_identifier_argument:
  "generateUID
     \<lparr>title = js ''Mathnasium Session'', start = Some (Date 1767605400000),
      endDate = Some (Date 1767609000000), rawText = None,
      description = None, location = None\<rparr> =
     Inr (js ''e5285799baa5b0893325c288fdde0127@appointy-sync'')
   \<and> map_sum id (\<lambda>cal. map uid (events cal))
       (generateCalendar (js ''Cal'') (js ''America/New_York'')
          [\<lparr>title = js ''Mathnasium Session'', start = Some (Date 1767605400000),
            endDate = Some (Date 1767609000000), rawText = None,
            description = None, location = None\<rparr>]) =
     Inr [js ''e5285799baa5b0893325c288fdde0127@appointy-sync'']"
  by (simp add: generateCalendar_example generateUID_def uid_content_def iso_or_undefined_def
        toISOString_example js_append md5_hex_example)


section \<open>Properties of the Text Pattern Extractor\<close>

lemma set_map_filter: "set (List.map_filter g xs) = {y. \<exists>x \<in> set xs. g x = Some y}"
  by (induction xs) (auto simp: List.map_filter_def)

lemma card_appointment_Some:
  "card_appointment P tz m = Some apt \<Longrightarrow>
   \<exists>dateStr tm text. dateStr \<noteq> [] \<and> exec timePattern text = Some tm \<and>
      parseAppointment_api P tz dateStr tm text = Some apt"
  by (auto simp: card_appointment_def Let_def truthy_def split: if_splits option.splits)

lemma nearby_appointment_Some:
  "nearby_appointment P tz plainText dm = Some apt \<Longrightarrow>
   \<exists>dateStr tm text. exec timePattern text = Some tm \<and>
      parseAppointment_api P tz dateStr tm text = Some apt"
  by (auto simp: nearby_appointment_def Let_def split: option.splits)

lemma scan_cards_mem:
  "apt \<in> set (scan_cards P tz patterns html) \<Longrightarrow>
   \<exists>dateStr tm text. exec timePattern text = Some tm \<and>
      parseAppointment_api P tz dateStr tm text = Some apt"
proof (induction patterns)
  case Nil
  then show ?case by simp
next
  case (Cons pattern patterns)
  from Cons.prems
  have "apt \<in> set (List.map_filter (card_appointment P tz) (all_matches pattern html 0)) \<or>
        apt \<in> set (scan_cards P tz patterns html)"
    by (simp add: Let_def split: if_splits)
  then show ?case
  proof
    assume "apt \<in> set (List.map_filter (card_appointment P tz) (all_matches pattern html 0))"
    then obtain m where "card_appointment P tz m = Some apt"
      unfolding set_map_filter by blast
    from card_appointment_Some [OF this] show ?thesis by blast
  next
    assume "apt \<in> set (scan_cards P tz patterns html)"
    then show ?thesis by (rule Cons.IH)
  qed
qed

lemma scan_page_mem:
  "apt \<in> set (scan_page P tz plainText) \<Longrightarrow>
   \<exists>dateStr tm text. exec timePattern text = Some tm \<and>
      parseAppointment_api P tz dateStr tm text = Some apt"
proof -
  assume "apt \<in> set (scan_page P tz plainText)"
  then obtain dp where
    "apt \<in> set (List.map_filter (nearby_appointment P tz plainText) (all_matches dp plainText 0))"
    by (auto simp: scan_page_def)
  then obtain dm where "nearby_appointment P tz plainText dm = Some apt"
    unfolding set_map_filter by blast
  then show ?thesis by (rule nearby_appointment_Some)
qed

lemma extractAppointmentsFromHTML_mem:
  assumes "apt \<in> set (extractAppointmentsFromHTML P tz html)"
  shows "\<exists>dateStr tm text t ts te. exec timePattern text = Some tm \<and>
      parseAppointment_api P tz dateStr tm text = Some apt \<and>
      resolve_date P tz dateStr = Date t \<and>
      start apt = Some (Date ts) \<and> endDate apt = Some (Date te)"
proof -
  from assms have "apt \<in> set (scan_cards P tz cardPatterns html) \<or>
                   apt \<in> set (scan_page P tz (strip_tags html))"
    by (simp add: extractAppointmentsFromHTML_def Let_def split: if_splits)
  then obtain dateStr tm ctx where
    a: "exec timePattern ctx = Some tm" "parseAppointment_api P tz dateStr tm ctx = Some apt"
    using scan_cards_mem [of apt P tz cardPatterns html]
      scan_page_mem [of apt P tz "strip_tags html"] by blast
  from parseAppointment_api_valid [OF a] a show ?thesis by blast
qed

lemma map_throwing_Inr:
  "map_throwing f xs = Inr ys \<Longrightarrow> list_all2 (\<lambda>x y. f x = Inr y) xs ys"
  by (induction xs arbitrary: ys) (auto split: sum.splits)

lemma generateUID_valid: "generateUID apt = Inr u \<Longrightarrow> start apt = Some s \<Longrightarrow> \<exists>t. s = Date t"
  by (cases s)
     (auto simp: generateUID_def uid_content_def iso_or_undefined_def toISOString_def
           split: sum.splits)

lemma calendar_events_starts:
  "calendar_events apts = Inr evs \<Longrightarrow>
   map (\<lambda>ev. Some (event_start ev)) evs = filter (\<lambda>s. s \<noteq> None) (map start apts) \<and>
   (\<forall>ev \<in> set evs. \<exists>t. event_start ev = Date t)"
proof (induction apts arbitrary: evs)
  case Nil
  then show ?case by simp
next
  case (Cons apt rest)
  show ?case
  proof (cases "start apt")
    case None
    with Cons show ?thesis by simp
  next
    case (Some s)
    with Cons.prems obtain u evs' where
      u: "generateUID apt = Inr u" and r: "calendar_events rest = Inr evs'"
      and e: "evs = calendar_event apt s u # evs'"
      by (auto split: sum.splits)
    from generateUID_valid [OF u Some] obtain t where "s = Date t" by blast
    with Cons.IH [OF r] Some e show ?thesis by (simp add: calendar_event_def)
  qed
qed

text \<open>
  C8, as the claim states it, fails on src/scraper.js. Strategy 1 keeps a card when it has a
  date or a time range (\<^verbatim>\<open>if (dateMatch || timeMatch)\<close>), strategy 3 keeps a list item when it
  has a date (\<^verbatim>\<open>if (dateMatch)\<close>), and parseAppointment returns such a candidate with
  \<^verbatim>\<open>start: null, end: null\<close>: the card "4:00 PM - 5:00 PM" has no date and the list item
  "Due 1/5/26" has a date and no time, and both are in the output of extractAppointments.
\<close>

theorem extraction_keeps_resolved_counterexample:
  "extractAppointments (\<lambda>s. None) Etc_UTC
     \<lparr>cards = [[\<lparr>innerText = js ''4:00 PM - 5:00 PM'', heading = None\<rparr>]], rows = [],
      items = []\<rparr> =
   Inr [\<lparr>title = js ''Mathnasium Session'', start = None, endDate = None,
         rawText = Some (js ''4:00 PM - 5:00 PM''), description = None, location = None\<rparr>]
   \<and> extractAppointments (\<lambda>s. None) Etc_UTC
       \<lparr>cards = [], rows = [], items = [js ''Due 1/5/26'']\<rparr> =
   Inr [\<lparr>title = js ''Mathnasium Session'', start = None, endDate = None,
         rawText = Some (js ''Due 1/5/26''), description = None, location = None\<rparr>]"
  by code_simp

lemma extractAppointmentsFromHTML_example:
  "extractAppointmentsFromHTML (\<lambda>s. None) Etc_UTC (js ''1/5/26 9:30am'') =
     [\<lparr>title = js ''Mathnasium Session'', start = Some (Date 1767605400000),
       endDate = Some (Date 1767609000000), rawText = None, description = None,
       location = None\<rparr>]"
  by code_simp

lemma page_results_example:
  "page_results \<lparr>cards = [], rows = [js ''1/5/26 9:30 AM''], items = []\<rparr> =
     [\<lparr>title_in = Some (js ''Mathnasium Session''), rawText_in = Some (js ''1/5/26 9:30 AM''),
       dateText = Some (js ''1/5/26''), timeText = None, startTime = Some (js ''9:30 AM''),
       endTime = None\<rparr>]"
  by code_simp

lemma extractAppointments_example:
  "extractAppointments (\<lambda>s. None) Etc_UTC
      \<lparr>cards = [], rows = [js ''1/5/26 9:30 AM''], items = []\<rparr> =
     Inr [\<lparr>title = js ''Mathnasium Session'', start = Some (Date 1767605400000),
           endDate = Some (Date 1767609000000), rawText = Some (js ''1/5/26 9:30 AM''),
           description = None, location = None\<rparr>]"
  by code_simp

text \<open>
  C8, amended. Every appointment in the output of extractAppointmentsFromHTML
  (api/calendar.js) was built from a date string that resolved to a valid date and from a
  match of the time pattern, and has a valid start and a valid end: a candidate without a
  resolvable date or without a time is not in the output. The output of extractAppointments
  (src/scraper.js) has one appointment for every candidate of the page, in order; a candidate
  without a date text, with a date text that does not resolve, or without a start time is
  kept with start and end null, and an appointment with a start comes from a candidate with
  a resolved valid date and a start time. generateCalendar (src/calendar.js) makes one event
  for each appointment that has a start, in order, and skips the others, so every event of
  the calendar has a valid start.
\<close>

theorem extraction_keeps_resolved:
  "(\<forall>apt \<in> set (extractAppointmentsFromHTML P tz html).
      \<exists>dateStr tm text t ts te. exec timePattern text = Some tm \<and>
        parseAppointment_api P tz dateStr tm text = Some apt \<and>
        resolve_date P tz dateStr = Date t \<and>
        start apt = Some (Date ts) \<and> endDate apt = Some (Date te))
   \<and> (\<forall>apts. extractAppointments P tz pg = Inr apts \<longrightarrow>
        list_all2
          (\<lambda>raw apt. parseAppointment P tz raw = Inr apt \<and>
             (\<not> truthy (dateText raw) \<or> parseDate P tz (the (dateText raw)) = None \<or>
              \<not> truthy (startTime raw) \<longrightarrow> start apt = None \<and> endDate apt = None) \<and>
             (start apt \<noteq> None \<longrightarrow>
                (\<exists>d ts. parseDate P tz (the (dateText raw)) = Some (Date d) \<and>
                        truthy (startTime raw) \<and> start apt = Some (Date ts))))
          (page_results pg) apts)
   \<and> (\<forall>cal. generateCalendar CALENDAR_NAME TIMEZONE appointments = Inr cal \<longrightarrow>
        map (\<lambda>ev. Some (event_start ev)) (events cal) =
          filter (\<lambda>s. s \<noteq> None) (map start appointments) \<and>
        (\<forall>ev \<in> set (events cal). \<exists>t. event_start ev = Date t))"
proof (intro conjI ballI allI impI)
  fix apt
  assume "apt \<in> set (extractAppointmentsFromHTML P tz html)"
  then show "\<exists>dateStr tm text t ts te. exec timePattern text = Some tm \<and>
        parseAppointment_api P tz dateStr tm text = Some apt \<and>
        resolve_date P tz dateStr = Date t \<and>
        start apt = Some (Date ts) \<and> endDate apt = Some (Date te)"
    by (rule extractAppointmentsFromHTML_mem)
next
  fix apts
  assume "extractAppointments P tz pg = Inr apts"
  then have l: "list_all2 (\<lambda>raw apt. parseAppointment P tz raw = Inr apt) (page_results pg) apts"
    unfolding extractAppointments_def by (rule map_throwing_Inr)
  have "parseAppointment P tz raw = Inr apt \<and>
             (\<not> truthy (dateText raw) \<or> parseDate P tz (the (dateText raw)) = None \<or>
              \<not> truthy (startTime raw) \<longrightarrow> start apt = None \<and> endDate apt = None) \<and>
             (start apt \<noteq> None \<longrightarrow>
                (\<exists>d ts. parseDate P tz (the (dateText raw)) = Some (Date d) \<and>
                        truthy (startTime raw) \<and> start apt = Some (Date ts)))"
    if p: "parseAppointment P tz raw = Inr apt" for raw apt
  proof (intro conjI impI)
    show "parseAppointment P tz raw = Inr apt" by (rule p)
    { assume "\<not> truthy (dateText raw) \<or> parseDate P tz (the (dateText raw)) = None \<or>
              \<not> truthy (startTime raw)"
      from parseAppointment_no_date [OF this] p
      show "start apt = None" "endDate apt = None" by auto }
    { assume s: "start apt \<noteq> None"
      from parseAppointment_resolved [OF p s] obtain date where
        d: "truthy (startTime raw)" "parseDate P tz (the (dateText raw)) = Some date" by blast
      from parseDate_valid [OF d(2)] obtain t where "date = Date t" by blast
      moreover from parseAppointment_valid [OF p s] obtain ts where "start apt = Some (Date ts)"
        by blast
      ultimately show "\<exists>d ts. parseDate P tz (the (dateText raw)) = Some (Date d) \<and>
                        truthy (startTime raw) \<and> start apt = Some (Date ts)"
        using d by blast }
  qed
  with l show "list_all2
          (\<lambda>raw apt. parseAppointment P tz raw = Inr apt \<and>
             (\<not> truthy (dateText raw) \<or> parseDate P tz (the (dateText raw)) = None \<or>
              \<not> truthy (startTime raw) \<longrightarrow> start apt = None \<and> endDate apt = None) \<and>
             (start apt \<noteq> None \<longrightarrow>
                (\<exists>d ts. parseDate P tz (the (dateText raw)) = Some (Date d) \<and>
                        truthy (startTime raw) \<and> start apt = Some (Date ts))))
          (page_results pg) apts"
    by (rule list_all2_mono)
next
  fix cal
  assume c: "generateCalendar CALENDAR_NAME TIMEZONE appointments = Inr cal"
  then have "calendar_events appointments = Inr (events cal)"
    by (auto simp: generateCalendar_def split: sum.splits)
  from calendar_events_starts [OF this]
  show "map (\<lambda>ev. Some (event_start ev)) (events cal) =
          filter (\<lambda>s. s \<noteq> None) (map start appointments)"
    and "\<And>ev. ev \<in> set (events cal) \<Longrightarrow> \<exists>t. event_start ev = Date t"
    by auto
qed

lemma generateCalendar_skips:
  "start apt = None \<Longrightarrow>
   generateCalendar CALENDAR_NAME TIMEZONE (apt # appointments) =
   generateCalendar CALENDAR_NAME TIMEZONE appointments"
  by (simp add: generateCalendar_def)

text \<open>
  One text through the api/calendar.js extractor, one table row through the src/scraper.js
  extractor, and a calendar generated from an unresolved appointment followed by a resolved one.
\<close>

theorem extraction_keeps_resolved_witness:
  "(\<exists>apt dateStr tm ctx t.
      extractAppointmentsFromHTML (\<lambda>s. None) Etc_UTC (js ''1/5/26 9:30am'') = [apt] \<and>
      exec timePattern ctx = Some tm \<and>
      parseAppointment_api (\<lambda>s. None) Etc_UTC dateStr tm ctx = Some apt \<and>
      resolve_date (\<lambda>s. None) Etc_UTC dateStr = Date t \<and>
      start apt = Some (Date 1767605400000) \<and> endDate apt = Some (Date 1767609000000))
   \<and> (\<exists>raw apt d.
        page_results \<lparr>cards = [], rows = [js ''1/5/26 9:30 AM''], items = []\<rparr> = [raw] \<and>
        extractAppointments (\<lambda>s. None) Etc_UTC
          \<lparr>cards = [], rows = [js ''1/5/26 9:30 AM''], items = []\<rparr> = Inr [apt] \<and>
        parseAppointment (\<lambda>s. None) Etc_UTC raw = Inr apt \<and>
        parseDate (\<lambda>s. None) Etc_UTC (the (dateText raw)) = Some (Date d) \<and>
        truthy (startTime raw) \<and> start apt = Some (Date 1767605400000))
   \<and> (\<exists>cal ev.
        generateCalendar (js ''Cal'') (js ''America/New_York'')
          [\<lparr>title = js ''Mathnasium Session'', start = None, endDate = None,
            rawText = Some (js ''Due 1/5/26''), description = None, location = None\<rparr>,
           \<lparr>title = js ''Mathnasium Session'', start = Some (Date 1767605400000),
            endDate = Some (Date 1767609000000), rawText = None,
            description = None, location = None\<rparr>] = Inr cal \<and>
        events cal = [ev] \<and> event_start ev = Date 1767605400000)"
proof -
  let ?P = "(\<lambda>s. None) :: date_parser"
  let ?pg = "\<lparr>cards = [], rows = [js ''1/5/26 9:30 AM''], items = []\<rparr>"
  let ?unresolved = "\<lparr>title = js ''Mathnasium Session'', start = None, endDate = None,
            rawText = Some (js ''Due 1/5/26''), description = None, location = None\<rparr>"
  let ?resolved = "\<lparr>title = js ''Mathnasium Session'', start = Some (Date 1767605400000),
            endDate = Some (Date 1767609000000), rawText = None,
            description = None, location = None\<rparr>"
  note th = extraction_keeps_resolved [of ?P Etc_UTC "js ''1/5/26 9:30am''" ?pg "js ''Cal''"
      "js ''America/New_York''" "[?unresolved, ?resolved]"]
  have a: "?resolved \<in> set (extractAppointmentsFromHTML ?P Etc_UTC (js ''1/5/26 9:30am''))"
    by (simp add: extractAppointmentsFromHTML_example)
  from th a obtain dateStr tm ctx t where
    "exec timePattern ctx = Some tm" "parseAppointment_api ?P Etc_UTC dateStr tm ctx = Some ?resolved"
    "resolve_date ?P Etc_UTC dateStr = Date t"
    by blast
  then have 1: "\<exists>apt dateStr tm ctx t.
      extractAppointmentsFromHTML ?P Etc_UTC (js ''1/5/26 9:30am'') = [apt] \<and>
      exec timePattern ctx = Some tm \<and>
      parseAppointment_api ?P Etc_UTC dateStr tm ctx = Some apt \<and>
      resolve_date ?P Etc_UTC dateStr = Date t \<and>
      start apt = Some (Date 1767605400000) \<and> endDate apt = Some (Date 1767609000000)"
    using extractAppointmentsFromHTML_example by auto
  from th extractAppointments_example page_results_example
  have 2: "\<exists>raw apt d.
        page_results ?pg = [raw] \<and> extractAppointments ?P Etc_UTC ?pg = Inr [apt] \<and>
        parseAppointment ?P Etc_UTC raw = Inr apt \<and>
        parseDate ?P Etc_UTC (the (dateText raw)) = Some (Date d) \<and>
        truthy (startTime raw) \<and> start apt = Some (Date 1767605400000)"
    by auto
  have "\<exists>cal. generateCalendar (js ''Cal'') (js ''America/New_York'') [?unresolved, ?resolved] = Inr cal"
    by (simp add: generateCalendar_skips generateCalendar_example)
  then obtain cal where
    c: "generateCalendar (js ''Cal'') (js ''America/New_York'') [?unresolved, ?resolved] = Inr cal" ..
  with th have "map (\<lambda>ev. Some (event_start ev)) (events cal) =
      filter (\<lambda>s. s \<noteq> None) (map start [?unresolved, ?resolved])"
    by blast
  then have "map (\<lambda>ev. Some (event_start ev)) (events cal) = [Some (Date 1767605400000)]"
    by simp
  then obtain ev where "events cal = [ev]" "event_start ev = Date 1767605400000"
    by (auto simp: map_eq_Cons_conv)
  with c have 3: "\<exists>cal ev.
        generateCalendar (js ''Cal'') (js ''America/New_York'') [?unresolved, ?resolved] = Inr cal \<and>
        events cal = [ev] \<and> event_start ev = Date 1767605400000"
    by blast
  from 1 2 3 show ?thesis by (intro conjI)
qed


end
